(* ===== verification/Prelude.thy ===== *)
theory Prelude
  imports Main "HOL-Library.Multiset" "HOL-Library.Sublist"
begin

text \<open>
  The prelude of the development: the Go string and integer routines the operator uses
  (\<open>strings.HasPrefix\<close>, \<open>HasSuffix\<close>, \<open>Contains\<close>, \<open>CutSuffix\<close>, \<open>strings.Compare\<close>,
  \<open>strconv.Itoa\<close>, \<open>strconv.Atoi\<close>), sorting by a key, and the generic facts on lists, maps
  and options that the component theories share. Three collections carry the proofs:
  \<open>go_str\<close> (string routines), \<open>sort_facts\<close> (sorting) and \<open>frame\<close> (what an operation
  leaves alone).
\<close>

named_theorems go_str "rewrite rules for the Go string routines"
named_theorems sort_facts "facts about sorting by a key"
named_theorems frame "what an operation leaves unchanged"

section \<open>Strings\<close>

text \<open>Go strings are byte strings; \<open>string\<close> is a list of 8-bit characters.\<close>

definition has_prefix :: "string \<Rightarrow> string \<Rightarrow> bool" where
  "has_prefix s p \<longleftrightarrow> take (length p) s = p"

definition has_suffix :: "string \<Rightarrow> string \<Rightarrow> bool" where
  "has_suffix s p \<longleftrightarrow> length p \<le> length s \<and> drop (length s - length p) s = p"

fun contains_str :: "string \<Rightarrow> string \<Rightarrow> bool" where
  "contains_str [] p \<longleftrightarrow> p = []"
| "contains_str (c # s) p \<longleftrightarrow> has_prefix (c # s) p \<or> contains_str s p"

definition cut_suffix :: "string \<Rightarrow> string \<Rightarrow> string option" where
  "cut_suffix s p = (if has_suffix s p then Some (take (length s - length p) s) else None)"

lemma has_prefix_append [simp]: "has_prefix (p @ s) p"
  by (simp add: has_prefix_def)

lemma has_prefix_iff [go_str]: "has_prefix s p \<longleftrightarrow> (\<exists>r. s = p @ r)"
  by (metis append_eq_conv_conj append_take_drop_id has_prefix_def)

lemma has_suffix_append [simp]: "has_suffix (s @ p) p"
  by (simp add: has_suffix_def)

lemma has_suffix_iff [go_str]: "has_suffix s p \<longleftrightarrow> (\<exists>r. s = r @ p)"
  by (metis append_take_drop_id has_suffix_append has_suffix_def)

lemma cut_suffix_append [simp]: "cut_suffix (s @ p) p = Some s"
  by (simp add: cut_suffix_def)

lemma cut_suffix_Some_iff [go_str]: "cut_suffix s p = Some r \<longleftrightarrow> s = r @ p"
  by (auto simp: cut_suffix_def has_suffix_iff split: if_splits)

lemma contains_str_iff [go_str]: "contains_str s p \<longleftrightarrow> (\<exists>a b. s = a @ p @ b)"
proof (induction s)
  case Nil
  then show ?case by simp
next
  case (Cons c s)
  show ?case
  proof
    assume "contains_str (c # s) p"
    then consider "has_prefix (c # s) p" | "contains_str s p" by auto
    then show "\<exists>a b. c # s = a @ p @ b"
    proof cases
      case 1
      then show ?thesis by (metis append_Nil has_prefix_iff)
    next
      case 2
      then show ?thesis by (metis Cons.IH append_Cons)
    qed
  next
    assume "\<exists>a b. c # s = a @ p @ b"
    then obtain a b where ab: "c # s = a @ p @ b" by blast
    then show "contains_str (c # s) p"
    proof (cases a)
      case Nil
      then show ?thesis using ab by (metis append_Nil contains_str.simps(2) has_prefix_append)
    next
      case (Cons d a')
      then show ?thesis using ab \<open>contains_str s p = (\<exists>a b. s = a @ p @ b)\<close> by auto
    qed
  qed
qed

section \<open>Decimal integers\<close>

text \<open>
  \<open>strconv.Itoa\<close> prints a decimal numeral with a leading minus sign where the number is
  negative. \<open>strconv.Atoi\<close> accepts an optional sign and at least one decimal digit, and
  fails on anything else and outside the range of a 64-bit \<open>int\<close>.
\<close>

definition digit_char :: "nat \<Rightarrow> char" where
  "digit_char d = char_of (48 + d)"

definition digit_val :: "char \<Rightarrow> nat option" where
  "digit_val c = (let n = (of_char c :: nat) in if 48 \<le> n \<and> n \<le> 57 then Some (n - 48) else None)"

fun nat_digits :: "nat \<Rightarrow> string" where
  "nat_digits n = (if n < 10 then [digit_char n] else nat_digits (n div 10) @ [digit_char (n mod 10)])"

declare nat_digits.simps [simp del]

fun parse_digits :: "nat \<Rightarrow> string \<Rightarrow> nat option" where
  "parse_digits acc [] = Some acc"
| "parse_digits acc (c # cs) =
     (case digit_val c of None \<Rightarrow> None | Some d \<Rightarrow> parse_digits (10 * acc + d) cs)"

definition itoa :: "int \<Rightarrow> string" where
  "itoa i = (if i < 0 then ''-'' @ nat_digits (nat (- i)) else nat_digits (nat i))"

definition max_int64 :: int where "max_int64 = 9223372036854775807"
definition min_int64 :: int where "min_int64 = - 9223372036854775808"

definition in_int64 :: "int \<Rightarrow> bool" where
  "in_int64 i \<longleftrightarrow> min_int64 \<le> i \<and> i \<le> max_int64"

definition wrap_int64 :: "int \<Rightarrow> int" where
  "wrap_int64 i = (i + 9223372036854775808) mod 18446744073709551616 - 9223372036854775808"

definition atoi :: "string \<Rightarrow> int option" where
  "atoi s = (let (neg, ds) = (case s of
                  [] \<Rightarrow> (False, [])
                | c # cs \<Rightarrow> if c = CHR ''-'' then (True, cs)
                            else if c = CHR ''+'' then (False, cs) else (False, c # cs))
             in if ds = [] then None
                else case parse_digits 0 ds of
                       None \<Rightarrow> None
                     | Some n \<Rightarrow> (let i = (if neg then - int n else int n)
                                  in if in_int64 i then Some i else None))"

lemma digit_val_char: "d < 10 \<Longrightarrow> digit_val (digit_char d) = Some d"
  by (simp add: digit_val_def digit_char_def Let_def)

lemma digit_char_neq_sign [simp]:
  assumes "d < 10"
  shows "digit_char d \<noteq> CHR ''-''" and "digit_char d \<noteq> CHR ''+''"
  using digit_val_char [OF assms] by (auto simp: digit_val_def)

lemma parse_digits_append:
  "parse_digits acc (xs @ [c]) =
     (case parse_digits acc xs of None \<Rightarrow> None
      | Some m \<Rightarrow> (case digit_val c of None \<Rightarrow> None | Some d \<Rightarrow> Some (10 * m + d)))"
  by (induction xs arbitrary: acc) (auto split: option.splits)

lemma parse_nat_digits: "parse_digits 0 (nat_digits n) = Some n"
proof (induction n rule: nat_digits.induct)
  case (1 n)
  show ?case
  proof (cases "n < 10")
    case True
    then show ?thesis by (simp add: nat_digits.simps [of n] digit_val_char)
  next
    case False
    with 1 show ?thesis
      by (simp add: nat_digits.simps [of n] parse_digits_append digit_val_char)
  qed
qed

lemma nat_digits_Cons:
  "\<exists>c cs. nat_digits n = c # cs \<and> c \<noteq> CHR ''-'' \<and> c \<noteq> CHR ''+''"
proof (induction n rule: nat_digits.induct)
  case (1 n)
  show ?case
  proof (cases "n < 10")
    case True
    then show ?thesis by (simp add: nat_digits.simps [of n])
  next
    case False
    with 1 show ?thesis by (auto simp: nat_digits.simps [of n])
  qed
qed

lemma atoi_itoa: "in_int64 i \<Longrightarrow> atoi (itoa i) = Some i"
  using nat_digits_Cons [of "nat i"] nat_digits_Cons [of "nat (- i)"]
    parse_nat_digits [of "nat i"] parse_nat_digits [of "nat (- i)"]
  by (auto simp: atoi_def itoa_def Let_def split: if_splits)

lemma atoi_Nil [simp]: "atoi [] = None"
  by (simp add: atoi_def)

lemma wrap_int64_id: "in_int64 i \<Longrightarrow> wrap_int64 i = i"
  by (simp add: wrap_int64_def in_int64_def max_int64_def min_int64_def)

lemma in_int64_wrap: "in_int64 (wrap_int64 i)"
proof -
  have "0 \<le> (i + 9223372036854775808) mod 18446744073709551616"
    and "(i + 9223372036854775808) mod 18446744073709551616 < 18446744073709551616"
    by simp_all
  then show ?thesis unfolding wrap_int64_def in_int64_def max_int64_def min_int64_def by linarith
qed

section \<open>Byte order on strings and sorting\<close>

text \<open>
  \<open>strings.Compare\<close> is the lexicographic order of the bytes. \<open>slices.SortFunc\<close> and
  \<open>slices.Sort\<close> sort in place with an unstable algorithm. \<open>sort_by\<close> is the stable
  insertion sort with the same comparison; wherever the comparison separates the elements
  (\<open>sort_by_unique\<close>), every algorithm that returns a sorted permutation returns this list.
\<close>

fun str_le :: "string \<Rightarrow> string \<Rightarrow> bool" where
  "str_le [] _ \<longleftrightarrow> True"
| "str_le (_ # _) [] \<longleftrightarrow> False"
| "str_le (a # as) (b # bs) \<longleftrightarrow>
     (of_char a :: nat) < of_char b \<or> a = b \<and> str_le as bs"

lemma str_le_refl [simp]: "str_le s s"
  by (induction s) auto

lemma str_le_antisym: "str_le s t \<Longrightarrow> str_le t s \<Longrightarrow> s = t"
proof (induction s t rule: str_le.induct)
  case (1 t)
  then show ?case by (cases t) auto
qed auto

lemma str_le_trans: "str_le s t \<Longrightarrow> str_le t u \<Longrightarrow> str_le s u"
proof (induction s t arbitrary: u rule: str_le.induct)
  case (3 a as b bs)
  then show ?case by (cases u) (auto intro: less_trans)
qed auto

lemma str_le_total: "str_le s t \<or> str_le t s"
proof (induction s t rule: str_le.induct)
  case (3 a as b bs)
  have "a = b" if "(of_char a :: nat) = of_char b" using that by simp
  then show ?case using 3 by (auto simp: not_less)
qed auto

fun insert_by :: "('a \<Rightarrow> 'a \<Rightarrow> bool) \<Rightarrow> 'a \<Rightarrow> 'a list \<Rightarrow> 'a list" where
  "insert_by le x [] = [x]"
| "insert_by le x (y # ys) = (if le x y then x # y # ys else y # insert_by le x ys)"

fun sort_by :: "('a \<Rightarrow> 'a \<Rightarrow> bool) \<Rightarrow> 'a list \<Rightarrow> 'a list" where
  "sort_by le [] = []"
| "sort_by le (x # xs) = insert_by le x (sort_by le xs)"

lemma mset_insert_by [simp]: "mset (insert_by le x xs) = add_mset x (mset xs)"
  by (induction xs) auto

lemma mset_sort_by [simp, sort_facts]: "mset (sort_by le xs) = mset xs"
  by (induction xs) auto

lemma set_sort_by [simp]: "set (sort_by le xs) = set xs"
  by (metis mset_sort_by set_mset_mset)

lemma length_sort_by [simp]: "length (sort_by le xs) = length xs"
  by (metis mset_sort_by size_mset)

lemma distinct_sort_by [simp]: "distinct (sort_by le xs) = distinct xs"
  by (metis mset_sort_by distinct_count_atmost_1 set_mset_mset)

lemma mset_map_sort_by [simp]: "mset (map f (sort_by le xs)) = mset (map f xs)"
  by simp

lemma distinct_map_sort_by [simp]: "distinct (map f (sort_by le xs)) = distinct (map f xs)"
  by (metis distinct_count_atmost_1 mset_map_sort_by set_mset_mset)

lemma distinct_submset [sort_facts]:
  assumes "mset xs \<subseteq># mset ys" "distinct ys"
  shows "distinct xs"
proof -
  obtain Z where "mset ys = mset xs + Z" using assms(1) by (metis subset_mset.add_diff_inverse)
  moreover obtain zs where "mset zs = Z" using ex_mset by blast
  ultimately have "mset ys = mset (xs @ zs)" by simp
  then have "distinct (xs @ zs)" using assms(2) by (metis mset_eq_imp_distinct_iff)
  then show ?thesis by simp
qed

definition total_preorder :: "('a \<Rightarrow> 'a \<Rightarrow> bool) \<Rightarrow> bool" where
  "total_preorder le \<longleftrightarrow> (\<forall>x y. le x y \<or> le y x) \<and> (\<forall>x y z. le x y \<longrightarrow> le y z \<longrightarrow> le x z)"

lemma sorted_insert_by:
  "total_preorder le \<Longrightarrow> sorted_wrt le xs \<Longrightarrow> sorted_wrt le (insert_by le x xs)"
proof (induction xs)
  case (Cons y ys)
  have set: "set (insert_by le x ys) = insert x (set ys)"
    by (metis mset_insert_by set_mset_add_mset_insert set_mset_mset)
  show ?case using Cons by (auto simp: set total_preorder_def)
qed simp

lemma sorted_sort_by [sort_facts]: "total_preorder le \<Longrightarrow> sorted_wrt le (sort_by le xs)"
  by (induction xs) (auto intro: sorted_insert_by)

lemma sorted_wrt_unique:
  assumes "sorted_wrt le xs" "sorted_wrt le ys" "mset xs = mset ys"
    and anti: "\<And>x y. x \<in> set xs \<Longrightarrow> y \<in> set xs \<Longrightarrow> le x y \<Longrightarrow> le y x \<Longrightarrow> x = y"
  shows "xs = ys"
  using assms
proof (induction xs arbitrary: ys)
  case (Cons x xs)
  then obtain y ys' where ys: "ys = y # ys'" by (cases ys) auto
  have sets: "set ys = set (x # xs)" using Cons.prems(3) by (metis set_mset_mset)
  have "x = y"
  proof (rule ccontr)
    assume "x \<noteq> y"
    with sets ys have "x \<in> set ys'" and "y \<in> set xs" by auto
    with Cons.prems ys have "le y x" and "le x y" by auto
    with Cons.prems(4) \<open>x \<noteq> y\<close> \<open>y \<in> set xs\<close> show False by auto
  qed
  with Cons ys show ?case by auto
qed simp

lemma sort_by_unique [sort_facts]:
  assumes "total_preorder le" "sorted_wrt le ys" "mset ys = mset xs"
    and "\<And>x y. x \<in> set xs \<Longrightarrow> y \<in> set xs \<Longrightarrow> le x y \<Longrightarrow> le y x \<Longrightarrow> x = y"
  shows "ys = sort_by le xs"
proof (rule sorted_wrt_unique)
  show "sorted_wrt le (sort_by le xs)" using assms(1) by (rule sorted_sort_by)
  have "set ys = set xs" using assms(3) by (metis set_mset_mset)
  then show "x = y" if "x \<in> set ys" "y \<in> set ys" "le x y" "le y x" for x y
    using that assms(4) by blast
qed (use assms in simp_all)

definition str_key_le :: "('a \<Rightarrow> string) \<Rightarrow> 'a \<Rightarrow> 'a \<Rightarrow> bool" where
  "str_key_le f x y \<longleftrightarrow> str_le (f x) (f y)"

lemma total_preorder_str_key [simp]: "total_preorder (str_key_le f)"
  using str_le_total str_le_trans by (auto simp: total_preorder_def str_key_le_def; blast)

abbreviation sort_strings :: "string list \<Rightarrow> string list" where
  "sort_strings \<equiv> sort_by str_le"

fun join_with :: "string \<Rightarrow> string list \<Rightarrow> string" where
  "join_with sep [] = []"
| "join_with sep [x] = x"
| "join_with sep (x # y # ys) = x @ sep @ join_with sep (y # ys)"

section \<open>Maps\<close>

text \<open>\<open>maps.Copy dst src\<close> adds every entry of \<open>src\<close>, overwriting; \<open>++\<close> is the same.\<close>

definition del :: "('k \<rightharpoonup> 'v) \<Rightarrow> 'k \<Rightarrow> ('k \<rightharpoonup> 'v)" where
  "del m k = m(k := None)"

lemma del_apply [simp]: "del m k x = (if x = k then None else m x)"
  by (simp add: del_def)

lemma dom_del [simp]: "dom (del m k) = dom m - {k}"
  by (auto simp: del_def)

definition opt_list :: "'a list option \<Rightarrow> 'a list" where
  "opt_list xs = (case xs of None \<Rightarrow> [] | Some ys \<Rightarrow> ys)"

lemma opt_list_simps [simp]: "opt_list None = []" "opt_list (Some ys) = ys"
  by (simp_all add: opt_list_def)

end
