(* ===== verification/Objects.thy ===== *)
theory Objects
  imports Prelude
begin

text \<open>
  The data the operator works on. The custom resource types themselves live in the module
  \<open>kdex.dev/crds\<close> and the metadata types in \<open>k8s.io/apimachinery\<close>; a record here has the
  fields that the operator's code reads or writes, under the code's names. A Go pointer field
  is an \<open>option\<close>, a Go map a partial function. A nil map and an empty map are both
  \<open>Map.empty\<close>: the code allocates before every write, and the comparison it relies on
  (\<open>equality.Semantic.DeepEqual\<close>) identifies the two.
\<close>

section \<open>Errors and results\<close>

text \<open>
  A Go error: the API status reason that \<open>errors.As\<close> finds in its tree (none for an error
  that is not an API status), whether \<open>errors.Is\<close> finds \<open>errInvalidExtensionSelector\<close> in
  it, and its text. \<open>fmt.Errorf\<close> with \<open>%w\<close> keeps the first two.
\<close>

datatype status_reason = NotFound | Conflict | OtherReason

record go_error =
  err_reason :: "status_reason option"
  err_bad_selector :: bool
  err_text :: string

definition plain_error :: "string \<Rightarrow> go_error" where
  "plain_error msg = \<lparr>err_reason = None, err_bad_selector = False, err_text = msg\<rparr>"

definition wrap_error :: "string \<Rightarrow> go_error \<Rightarrow> go_error" where
  "wrap_error pfx e = e\<lparr>err_text := pfx @ '': '' @ err_text e\<rparr>"

definition is_not_found :: "go_error \<Rightarrow> bool" where
  "is_not_found e \<longleftrightarrow> err_reason e = Some NotFound"

definition is_conflict :: "go_error \<Rightarrow> bool" where
  "is_conflict e \<longleftrightarrow> err_reason e = Some Conflict"

text \<open>\<open>client.IgnoreNotFound\<close>\<close>

definition ignore_not_found :: "go_error \<Rightarrow> go_error option" where
  "ignore_not_found e = (if is_not_found e then None else Some e)"

text \<open>\<open>errors.Join\<close>: nil for no errors, otherwise the first status found and all the texts.\<close>

fun first_reason :: "go_error list \<Rightarrow> status_reason option" where
  "first_reason [] = None"
| "first_reason (e # es) = (case err_reason e of None \<Rightarrow> first_reason es | Some r \<Rightarrow> Some r)"

definition errors_join :: "go_error list \<Rightarrow> go_error option" where
  "errors_join es = (if es = [] then None
     else Some \<lparr>err_reason = first_reason es,
                err_bad_selector = list_ex err_bad_selector es,
                err_text = join_with [CHR 0x0A] (map err_text es)\<rparr>)"

lemma errors_join_None [simp]: "errors_join es = None \<longleftrightarrow> es = []"
  by (simp add: errors_join_def)

lemma errors_join_Nil [simp]: "errors_join [] = None"
  by simp

text \<open>\<open>ctrl.Result\<close>; delays are \<open>time.Duration\<close>s in nanoseconds.\<close>

record ctrl_result =
  requeue_after :: int

type_synonym reconcile_out = "ctrl_result \<times> go_error option"  \<comment> \<open>what a \<open>Reconcile\<close> returns\<close>

definition no_result :: ctrl_result where "no_result = \<lparr>requeue_after = 0\<rparr>"

definition requeue :: "int \<Rightarrow> ctrl_result" where "requeue d = \<lparr>requeue_after = d\<rparr>"

definition conflict_delay :: int where "conflict_delay = 50000000"

section \<open>Metadata and status\<close>

type_synonym nsname = "string \<times> string"  \<comment> \<open>namespace and name\<close>

record object_meta =
  om_name :: string
  om_namespace :: string
  om_uid :: string
  om_generation :: int
  om_created :: int              \<comment> \<open>\<open>CreationTimestamp\<close>; 0 is the zero time\<close>
  om_deleting :: bool            \<comment> \<open>\<open>DeletionTimestamp\<close> is set\<close>
  om_labels :: "string \<rightharpoonup> string"
  om_annotations :: "string \<rightharpoonup> string"
  om_finalizers :: "string list"
  om_controller :: "string option"  \<comment> \<open>UID of the controller owner reference\<close>

definition key_of :: "object_meta \<Rightarrow> nsname" where
  "key_of m = (om_namespace m, om_name m)"

datatype cond_status = CondTrue | CondFalse | CondUnknown | CondUnset

datatype cond_reason =
    ReconcileError | ReconcileSuccess | Reconciling
  | ReasonText string  \<comment> \<open>a reason spelled out in this repository\<close>

record condition =
  cond_type :: string
  cond_value :: cond_status
  cond_why :: cond_reason
  cond_message :: string
  cond_generation :: int
  cond_transition :: int

record obj_status =
  attributes :: "string \<rightharpoonup> string"
  conditions :: "condition list"
  observed_generation :: int

definition set_attr :: "string \<Rightarrow> string \<Rightarrow> obj_status \<Rightarrow> obj_status" where
  "set_attr k v s = s\<lparr>attributes := (attributes s)(k \<mapsto> v)\<rparr>"

definition del_attr :: "string \<Rightarrow> obj_status \<Rightarrow> obj_status" where
  "del_attr k s = s\<lparr>attributes := del (attributes s) k\<rparr>"

text \<open>Reading an absent key of a Go \<open>map[string]string\<close> gives the empty string.\<close>

definition get_attr :: "obj_status \<Rightarrow> string \<Rightarrow> string" where
  "get_attr s k = (case attributes s k of None \<Rightarrow> [] | Some v \<Rightarrow> v)"

lemma attributes_set_attr [simp]: "attributes (set_attr k v s) = (attributes s)(k \<mapsto> v)"
  and conditions_set_attr [simp]: "conditions (set_attr k v s) = conditions s"
  and observed_set_attr [simp]: "observed_generation (set_attr k v s) = observed_generation s"
  by (simp_all add: set_attr_def)

lemma attributes_del_attr [simp]: "attributes (del_attr k s) = del (attributes s) k"
  and conditions_del_attr [simp]: "conditions (del_attr k s) = conditions s"
  and observed_del_attr [simp]: "observed_generation (del_attr k s) = observed_generation s"
  by (simp_all add: del_attr_def)

text \<open>
  The arguments of \<open>kdexv1alpha1.SetConditions\<close>: a \<open>ConditionStatuses\<close> struct, whose unset
  fields are the empty string, a reason and a message. The reasons are constants of the
  module \<open>kdex.dev/crds\<close>, so they are constructors here, not texts.
\<close>

record cond_statuses =
  cs_degraded :: cond_status
  cs_progressing :: cond_status
  cs_ready :: cond_status

definition degraded_set :: cond_statuses where
  "degraded_set = \<lparr>cs_degraded = CondTrue, cs_progressing = CondFalse, cs_ready = CondFalse\<rparr>"

definition progressing_set :: cond_statuses where
  "progressing_set = \<lparr>cs_degraded = CondFalse, cs_progressing = CondTrue, cs_ready = CondFalse\<rparr>"

definition ready_set :: cond_statuses where
  "ready_set = \<lparr>cs_degraded = CondFalse, cs_progressing = CondFalse, cs_ready = CondTrue\<rparr>"

definition reconciling_set :: cond_statuses where
  "reconciling_set = \<lparr>cs_degraded = CondFalse, cs_progressing = CondTrue, cs_ready = CondUnknown\<rparr>"

end
