(* ===== verification/Specs.thy ===== *)
theory Specs
  imports Objects
begin

text \<open>
  The specs of the custom resources, with the fields the operator's code uses. A Go map that
  the code only looks up is a partial function. A Go map that the code iterates over is an
  association list with distinct keys, in the order of one iteration; Go chooses that order
  afresh each time, so the properties hold for every order.
\<close>

section \<open>References and shared parts\<close>

record obj_ref =
  ref_kind :: string
  ref_name :: string
  ref_namespace :: string

record package_ref =
  pkg_name :: string
  pkg_version :: string
  pkg_registry :: string
  pkg_secret_ref :: "obj_ref option"

record backend =
  server_image :: string
  server_pull_policy :: string
  static_image :: string
  static_pull_policy :: string

type_synonym script_def = string   \<comment> \<open>opaque: only handed to methods of \<open>kdex.dev/crds\<close>\<close>
type_synonym label_selector = string  \<comment> \<open>opaque: only handed to \<open>LabelSelectorAsSelector\<close>\<close>

record content_entry =
  ce_slot :: string
  ce_raw_html :: string
  ce_app_ref :: "obj_ref option"
  ce_attributes :: "string \<rightharpoonup> string"
  ce_element :: string

type_synonym navigation_refs = "(string \<times> obj_ref option) list"

datatype utility_page_type = Announcement | Consent | ErrorPage | Login

section \<open>Specs of the referenced kinds\<close>

record app_spec =
  app_package :: package_ref
  app_scripts :: "script_def list"
  app_backend :: backend
  app_ingress_path :: string

record script_library_spec =
  lib_package :: "package_ref option"
  lib_scripts :: "script_def list"
  lib_backend :: backend
  lib_ingress_path :: string

record theme_spec =
  th_assets :: string
  th_script_library :: "obj_ref option"
  th_backend :: backend
  th_ingress_path :: string

text \<open>Page headers, footers and navigations have the same shape.\<close>

record page_part_spec =
  part_content :: string
  part_script_library :: "obj_ref option"

record archetype_spec =
  ar_content :: string
  ar_footer :: "obj_ref option"
  ar_header :: "obj_ref option"
  ar_navigations :: navigation_refs
  ar_script_library :: "obj_ref option"

record utility_page_spec =
  up_type :: utility_page_type
  up_contents :: "content_entry list"
  up_footer :: "obj_ref option"
  up_header :: "obj_ref option"
  up_navigations :: navigation_refs
  up_archetype :: "obj_ref option"
  up_script_library :: "obj_ref option"

record page_spec =
  pg_base_path :: string
  pg_parent :: "string option"
  pg_contents :: "content_entry list"
  pg_footer :: "obj_ref option"
  pg_header :: "obj_ref option"
  pg_navigations :: navigation_refs
  pg_archetype :: "obj_ref option"
  pg_script_library :: "obj_ref option"

record translation =
  tr_lang :: string
  tr_keys :: "(string \<times> string) list"

type_synonym translation_spec = "translation list"

record namespaced_translation_spec =
  nt_spec :: translation_spec
  nt_host_ref :: "string option"

text \<open>
  The Go type of an object, with its spec: one constructor per Go struct type that a
  \<open>KDexObjectReference\<close> can name and that the code tells apart in a type switch.
  \<open>OtherKind\<close> stands for the remaining kinds of the scheme.
\<close>

datatype kdex_spec =
    KDexApp app_spec | KDexClusterApp app_spec
  | KDexPageArchetype archetype_spec | KDexClusterPageArchetype archetype_spec
  | KDexPageFooter page_part_spec | KDexClusterPageFooter page_part_spec
  | KDexPageHeader page_part_spec | KDexClusterPageHeader page_part_spec
  | KDexPageNavigation page_part_spec | KDexClusterPageNavigation page_part_spec
  | KDexScriptLibrary script_library_spec | KDexClusterScriptLibrary script_library_spec
  | KDexTheme theme_spec | KDexClusterTheme theme_spec
  | KDexTranslation namespaced_translation_spec | KDexClusterTranslation translation_spec
  | KDexUtilityPage utility_page_spec | KDexClusterUtilityPage utility_page_spec
  | OtherKind string

text \<open>\<open>reflect.TypeOf(obj).Elem().Name()\<close>\<close>

fun type_name :: "kdex_spec \<Rightarrow> string" where
  "type_name (KDexApp _) = ''KDexApp''"
| "type_name (KDexClusterApp _) = ''KDexClusterApp''"
| "type_name (KDexPageArchetype _) = ''KDexPageArchetype''"
| "type_name (KDexClusterPageArchetype _) = ''KDexClusterPageArchetype''"
| "type_name (KDexPageFooter _) = ''KDexPageFooter''"
| "type_name (KDexClusterPageFooter _) = ''KDexClusterPageFooter''"
| "type_name (KDexPageHeader _) = ''KDexPageHeader''"
| "type_name (KDexClusterPageHeader _) = ''KDexClusterPageHeader''"
| "type_name (KDexPageNavigation _) = ''KDexPageNavigation''"
| "type_name (KDexClusterPageNavigation _) = ''KDexClusterPageNavigation''"
| "type_name (KDexScriptLibrary _) = ''KDexScriptLibrary''"
| "type_name (KDexClusterScriptLibrary _) = ''KDexClusterScriptLibrary''"
| "type_name (KDexTheme _) = ''KDexTheme''"
| "type_name (KDexClusterTheme _) = ''KDexClusterTheme''"
| "type_name (KDexTranslation _) = ''KDexTranslation''"
| "type_name (KDexClusterTranslation _) = ''KDexClusterTranslation''"
| "type_name (KDexUtilityPage _) = ''KDexUtilityPage''"
| "type_name (KDexClusterUtilityPage _) = ''KDexClusterUtilityPage''"
| "type_name (OtherKind k) = k"

section \<open>The host and what is produced for it\<close>

record companion_chart =
  cc_name :: string
  cc_chart :: string
  cc_repository :: string
  cc_values :: string
  cc_version :: string

record host_manager_chart =
  hm_values :: string
  hm_version :: string

record host_helm =
  hh_manager :: "host_manager_chart option"
  hh_companions :: "companion_chart list"

record utility_page_refs =
  upr_announcement :: "obj_ref option"
  upr_consent :: "obj_ref option"
  upr_error :: "obj_ref option"
  upr_login :: "obj_ref option"

record registries =
  image_registry :: string
  npm_registry :: string

record host_spec =
  hs_brand_name :: string
  hs_assets :: string
  hs_default_lang :: string
  hs_module_policy :: string
  hs_routing_strategy :: string
  hs_backend :: backend
  hs_ingress_path :: string
  hs_registries :: "registries option"
  hs_env :: "(string \<times> string) list"
  hs_reference_namespaces :: "string list"
  hs_helm :: "host_helm option"
  hs_theme_ref :: "obj_ref option"
  hs_script_library_ref :: "obj_ref option"
  hs_translation_refs :: "obj_ref list"
  hs_utility_pages :: "utility_page_refs option"
  hs_secret_selector :: "label_selector option"
  hs_extension_selector :: "label_selector option"

record extension_spec =
  ex_host_ref :: string
  ex_weight :: int
  ex_claim_mappings :: "string list"
  ex_anonymous :: "string list"

record host_extension =          \<comment> \<open>\<open>InternalHostExtension\<close>\<close>
  he_name :: string
  he_generation :: int
  he_weight :: int
  he_claim_mappings :: "string list"
  he_anonymous :: "string list"

record internal_host_spec =
  ih_host_spec :: host_spec
  ih_announcement :: "string option"
  ih_consent :: "string option"
  ih_error :: "string option"
  ih_login :: "string option"
  ih_translations :: "string list"
  ih_extensions :: "host_extension list"

record internal_translation_spec =
  it_spec :: translation_spec
  it_host_ref :: string

record internal_utility_page_spec =
  iu_spec :: utility_page_spec
  iu_host_ref :: string

record secret_body =
  sec_data :: "string \<rightharpoonup> string"

text \<open>An API object: metadata, spec and status.\<close>

record 's kobj =
  o_meta :: object_meta
  o_spec :: 's
  o_status :: obj_status

abbreviation o_name :: "('s, 'z) kobj_scheme \<Rightarrow> string" where "o_name ob \<equiv> om_name (o_meta ob)"
abbreviation o_namespace :: "('s, 'z) kobj_scheme \<Rightarrow> string" where
  "o_namespace ob \<equiv> om_namespace (o_meta ob)"
abbreviation o_generation :: "('s, 'z) kobj_scheme \<Rightarrow> int" where
  "o_generation ob \<equiv> om_generation (o_meta ob)"
abbreviation o_key :: "('s, 'z) kobj_scheme \<Rightarrow> nsname" where "o_key ob \<equiv> key_of (o_meta ob)"

type_synonym any_obj = "kdex_spec kobj"
type_synonym host = "host_spec kobj"
type_synonym extension = "extension_spec kobj"
type_synonym secret = "secret_body kobj"
type_synonym internal_host = "internal_host_spec kobj"
type_synonym internal_translation = "internal_translation_spec kobj"
type_synonym internal_utility_page = "internal_utility_page_spec kobj"
type_synonym translation_obj = "namespaced_translation_spec kobj"

end
