(* ===== verification/Kube.thy ===== *)
theory Kube
  imports Specs
begin

text \<open>
  The operator's surroundings. Everything the code calls that is not in this repository is a
  field of the record \<open>env\<close>: the API server through the controller-runtime client, Helm
  through \<open>HelmClientInterface\<close>, the condition helpers of \<open>kdex.dev/crds\<close>, label selectors,
  claim mappers, digests and the clock. A response may depend on the whole history of calls made so
  far (the log \<open>calls\<close> of the world), so an \<open>env\<close> covers stale caches, failures at any
  point and other clients' writes between any two calls. The world also holds the two maps the
  host reconciler keeps in memory.

  An operation is a function from the world to its result and the next world; it appends its
  call to the log. Properties of an operation speak about the calls it made.
\<close>

section \<open>Calls\<close>

text \<open>The parameters of one Helm install or upgrade (\<open>utils.ChartSpec\<close>).\<close>

datatype chart_value =
    VText string
  | VTexts "string list"
  | VTable "(string \<times> string) list"
  | VOpaque nat                     \<comment> \<open>a value parsed from YAML\<close>

type_synonym chart_values = "string \<rightharpoonup> chart_value"

record chart_spec =
  cs_release :: string
  cs_chart :: string
  cs_namespace :: string
  cs_values :: chart_values
  cs_version :: string
  cs_upgrade_crds :: bool
  cs_labels :: "(string \<times> string) list"

type_synonym helm_client = nat      \<comment> \<open>a handle: which client the factory returned\<close>

datatype call =
    Get string nsname               \<comment> \<open>kind, namespace and name\<close>
  | ListObjs string string          \<comment> \<open>kind, and namespace, label or field selector\<close>
  | UpdateHost host
  | PatchHostStatus nsname obj_status obj_status   \<comment> \<open>base and new status\<close>
  | UpdateStatus any_obj
  | PatchStatus string nsname obj_status
  | PatchExtensionStatus nsname obj_status
  | Delete string nsname
  | WriteInternalHost nsname "internal_host option"       \<comment> \<open>what was written, if it succeeded\<close>
  | WriteInternalTranslation nsname "internal_translation option"
  | WriteInternalUtilityPage nsname "internal_utility_page option"
  | NewHelmClient string
  | HelmAddRepository helm_client string string
  | HelmInstallOrUpgrade helm_client chart_spec
  | HelmListReleases helm_client "(string \<times> string) list"
  | HelmUninstall helm_client string
  | TakeSlot nsname                 \<comment> \<open>a render slot was acquired\<close>
  | GiveSlot nsname                 \<comment> \<open>and given back\<close>
  | CancelRender nsname string      \<comment> \<open>host and release hash of the cancelled render\<close>
  | StartRender nsname string       \<comment> \<open>the \<open>go\<close> statement\<close>

text \<open>The calls that change nothing outside the operator.\<close>

fun is_read :: "call \<Rightarrow> bool" where
  "is_read (Get _ _) = True"
| "is_read (ListObjs _ _) = True"
| "is_read (HelmListReleases _ _) = True"
| "is_read (NewHelmClient _) = True"
| "is_read _ = False"

text \<open>
  The part of the cluster configuration that the host-manager chart needs
  (\<open>configuration.HostDefault.Chart\<close>), and what the release hash digests.
\<close>

record host_default =
  hd_chart :: string
  hd_version :: string
  hd_values :: "string option"      \<comment> \<open>raw JSON; none when unset or empty\<close>

record hash_inputs =
  hi_release :: string
  hi_chart :: string
  hi_namespace :: string
  hi_version :: string
  hi_values :: chart_values
  hi_companions :: "companion_chart list"

section \<open>The environment\<close>

record env =
  e_requeue_delay :: int
  e_controller_id :: string
  e_now :: "call list \<Rightarrow> int"
  e_set_conditions :: "call list \<Rightarrow> cond_statuses \<Rightarrow> cond_reason \<Rightarrow> string
                        \<Rightarrow> condition list \<Rightarrow> condition list"
  e_set_condition :: "call list \<Rightarrow> condition \<Rightarrow> condition list \<Rightarrow> condition list"
  e_ready_true :: "condition list \<Rightarrow> bool"
  e_ready_false :: "condition list \<Rightarrow> bool"
  e_degraded_true :: "condition list \<Rightarrow> bool"
  e_selector :: "label_selector \<Rightarrow> go_error + ((string \<rightharpoonup> string) \<Rightarrow> bool)"
  e_mapper_error :: "string list \<Rightarrow> go_error option"
  e_known_kind :: "string \<Rightarrow> bool"
  e_has_conditions :: "string \<Rightarrow> bool"
  e_get_ref :: "call list \<Rightarrow> string \<Rightarrow> nsname \<Rightarrow> go_error + any_obj"
  e_get_host :: "call list \<Rightarrow> nsname \<Rightarrow> go_error + host"
  e_get_page :: "call list \<Rightarrow> nsname \<Rightarrow> go_error + page_spec kobj"
  e_get_internal_host :: "call list \<Rightarrow> nsname \<Rightarrow> go_error + internal_host"
  e_get_internal_translation :: "call list \<Rightarrow> nsname \<Rightarrow> go_error + internal_translation"
  e_get_internal_page :: "call list \<Rightarrow> nsname \<Rightarrow> go_error + internal_utility_page"
  e_get_extension :: "call list \<Rightarrow> nsname \<Rightarrow> go_error + extension"
  e_get_secret :: "call list \<Rightarrow> nsname \<Rightarrow> go_error + secret"
  e_get_deployment :: "call list \<Rightarrow> nsname \<Rightarrow> go_error + (string \<times> cond_status) list"
  e_list_hosts :: "call list \<Rightarrow> go_error + host list"
  e_list_archetypes :: "call list \<Rightarrow> go_error + any_obj list"
  e_list_secrets :: "call list \<Rightarrow> string \<Rightarrow> ((string \<rightharpoonup> string) \<Rightarrow> bool) \<Rightarrow> go_error + secret list"
  e_list_translations :: "call list \<Rightarrow> nsname \<Rightarrow> go_error + translation_obj list"
  e_list_extensions :: "call list \<Rightarrow> nsname \<Rightarrow> go_error + extension list"
  e_list_internal_translations :: "call list \<Rightarrow> nsname \<Rightarrow> go_error + internal_translation list"
  e_list_internal_pages :: "call list \<Rightarrow> nsname \<Rightarrow> go_error + internal_utility_page list"
  e_update_host :: "call list \<Rightarrow> host \<Rightarrow> go_error + host"
  e_patch_host_status :: "call list \<Rightarrow> nsname \<Rightarrow> obj_status \<Rightarrow> obj_status \<Rightarrow> go_error option"
  e_update_status :: "call list \<Rightarrow> any_obj \<Rightarrow> go_error option"
  e_patch_extension_status :: "call list \<Rightarrow> nsname \<Rightarrow> obj_status \<Rightarrow> go_error option"
  e_delete :: "call list \<Rightarrow> string \<Rightarrow> nsname \<Rightarrow> go_error option"
  e_set_controller :: "object_meta \<Rightarrow> object_meta \<Rightarrow> go_error + object_meta"
  e_write_internal_host :: "call list \<Rightarrow> nsname \<Rightarrow> (internal_host \<Rightarrow> go_error + internal_host)
                             \<Rightarrow> go_error + internal_host"
  e_write_internal_translation :: "call list \<Rightarrow> nsname
       \<Rightarrow> (internal_translation \<Rightarrow> go_error + internal_translation) \<Rightarrow> go_error + internal_translation"
  e_write_internal_page :: "call list \<Rightarrow> nsname
       \<Rightarrow> (internal_utility_page \<Rightarrow> go_error + internal_utility_page)
       \<Rightarrow> go_error + internal_utility_page"
  e_host_default :: host_default
  e_config_values :: "go_error + nat"  \<comment> \<open>the encoded configuration, parsed\<close>
  e_read_values :: "string \<Rightarrow> go_error + chart_values"
  e_coalesce :: "chart_values \<Rightarrow> chart_values \<Rightarrow> chart_values"
  e_cluster_role :: string
  e_release_hash :: "hash_inputs \<Rightarrow> go_error + string"
  e_parse_time :: "string \<Rightarrow> int option"
  e_format_time :: "int \<Rightarrow> string"
  e_has_helm_factory :: bool
  e_render_slot :: "call list \<Rightarrow> nsname \<Rightarrow> bool"
  e_new_helm_client :: "call list \<Rightarrow> string \<Rightarrow> secret list \<Rightarrow> go_error + helm_client"
  e_secrets_hash :: "secret list \<Rightarrow> string"
  e_helm_add_repository :: "call list \<Rightarrow> helm_client \<Rightarrow> string \<Rightarrow> string \<Rightarrow> go_error option"
  e_helm_install_or_upgrade :: "call list \<Rightarrow> helm_client \<Rightarrow> chart_spec \<Rightarrow> go_error option"
  e_helm_list_releases :: "call list \<Rightarrow> helm_client \<Rightarrow> (string \<times> string) list
                            \<Rightarrow> go_error + string list"
  e_helm_uninstall :: "call list \<Rightarrow> helm_client \<Rightarrow> string \<Rightarrow> go_error option"

section \<open>The world\<close>

text \<open>
  \<open>helmOperation\<close> pairs a cancel function with the hash of the release being rendered; the
  cancel function is identified by the log position of the \<open>context.WithCancel\<close> that made it.
  \<open>cachedHelmClient\<close> pairs a client with the hash of the secrets it was built from.
\<close>

record helm_operation =
  ho_cancel :: nat
  ho_hash :: string

record cached_helm_client =
  ch_client :: helm_client
  ch_hash :: string

record world =
  calls :: "call list"
  active_ops :: "nsname \<rightharpoonup> helm_operation"
  helm_clients :: "string \<rightharpoonup> cached_helm_client"

definition log_call :: "call \<Rightarrow> world \<Rightarrow> world" where
  "log_call c w = w\<lparr>calls := calls w @ [c]\<rparr>"

lemma calls_log_call [simp]: "calls (log_call c w) = calls w @ [c]"
  and active_log_call [simp]: "active_ops (log_call c w) = active_ops w"
  and clients_log_call [simp]: "helm_clients (log_call c w) = helm_clients w"
  by (simp_all add: log_call_def)

text \<open>
  \<open>extends P w w'\<close>: the operation from \<open>w\<close> to \<open>w'\<close> only added calls that satisfy \<open>P\<close>, and
  left the reconciler's in-memory maps alone. It is the frame of every operation that talks to
  the API server only, and it composes.
\<close>

definition extends :: "(call \<Rightarrow> bool) \<Rightarrow> world \<Rightarrow> world \<Rightarrow> bool" where
  "extends P w w' \<longleftrightarrow> (\<exists>cs. calls w' = calls w @ cs \<and> (\<forall>c \<in> set cs. P c))
     \<and> active_ops w' = active_ops w \<and> helm_clients w' = helm_clients w"

lemma extends_refl [simp, intro, frame]: "extends P w w"
  by (simp add: extends_def)

lemma extends_trans [trans]: "extends P w w' \<Longrightarrow> extends P w' w'' \<Longrightarrow> extends P w w''"
  unfolding extends_def by auto

lemma extends_log [simp]: "P c \<Longrightarrow> extends P w (log_call c w)"
  by (simp add: extends_def)

lemma extends_log_trans [frame]: "extends P w w' \<Longrightarrow> P c \<Longrightarrow> extends P w (log_call c w')"
  by (blast intro: extends_trans extends_log)

lemma extends_mono: "extends P w w' \<Longrightarrow> (\<And>c. P c \<Longrightarrow> Q c) \<Longrightarrow> extends Q w w'"
  by (auto simp: extends_def)

lemma extends_calls:
  "extends P w w' \<Longrightarrow> c \<in> set (calls w') \<Longrightarrow> c \<in> set (calls w) \<or> P c"
  by (auto simp: extends_def)

lemma extends_mem: "extends P w w' \<Longrightarrow> c \<in> set (calls w) \<Longrightarrow> c \<in> set (calls w')"
  by (auto simp: extends_def)

lemma extends_prefix: "extends P w w' \<Longrightarrow> \<exists>cs. calls w' = calls w @ cs \<and> (\<forall>c \<in> set cs. P c)"
  by (auto simp: extends_def)

section \<open>Updating an object in memory\<close>

definition upd_status :: "(obj_status \<Rightarrow> obj_status) \<Rightarrow> 's kobj \<Rightarrow> 's kobj" where
  "upd_status f ob = ob\<lparr>o_status := f (o_status ob)\<rparr>"

definition with_conditions :: "condition list \<Rightarrow> 's kobj \<Rightarrow> 's kobj" where
  "with_conditions cs = upd_status (\<lambda>s. s\<lparr>conditions := cs\<rparr>)"

text \<open>\<open>kdexv1alpha1.SetConditions(&obj.Status.Conditions, \<dots>)\<close>\<close>

definition mark :: "env \<Rightarrow> world \<Rightarrow> cond_statuses \<Rightarrow> cond_reason \<Rightarrow> string \<Rightarrow> 's kobj \<Rightarrow> 's kobj" where
  "mark E w sts why msg ob =
     with_conditions (e_set_conditions E (calls w) sts why msg (conditions (o_status ob))) ob"

definition put_attr :: "string \<Rightarrow> string \<Rightarrow> 's kobj \<Rightarrow> 's kobj" where
  "put_attr k v = upd_status (set_attr k v)"

lemma upd_status_sel [simp]:
  "o_meta (upd_status f ob) = o_meta ob" "o_spec (upd_status f ob) = o_spec ob"
  "o_status (upd_status f ob) = f (o_status ob)"
  by (simp_all add: upd_status_def)

lemma with_conditions_sel [simp]:
  "o_meta (with_conditions cs ob) = o_meta ob" "o_spec (with_conditions cs ob) = o_spec ob"
  "attributes (o_status (with_conditions cs ob)) = attributes (o_status ob)"
  "conditions (o_status (with_conditions cs ob)) = cs"
  by (simp_all add: with_conditions_def)

lemma mark_sel [simp]:
  "o_meta (mark E w sts why msg ob) = o_meta ob" "o_spec (mark E w sts why msg ob) = o_spec ob"
  "attributes (o_status (mark E w sts why msg ob)) = attributes (o_status ob)"
  "conditions (o_status (mark E w sts why msg ob))
     = e_set_conditions E (calls w) sts why msg (conditions (o_status ob))"
  by (simp_all add: mark_def)

lemma put_attr_sel [simp]:
  "o_meta (put_attr k v ob) = o_meta ob" "o_spec (put_attr k v ob) = o_spec ob"
  "o_status (put_attr k v ob) = set_attr k v (o_status ob)"
  by (simp_all add: put_attr_def)

text \<open>\<open>metav1.IsControlledBy\<close>: the controller owner reference has the owner's UID.\<close>

definition is_controlled_by :: "object_meta \<Rightarrow> object_meta \<Rightarrow> bool" where
  "is_controlled_by m own \<longleftrightarrow> om_controller m = Some (om_uid own)"

end
