(* ===== verification/Sample.thy ===== *)
theory Sample
  imports Kube
begin

text \<open>
  A concrete environment and concrete objects for the witnesses: every object is absent, every
  list empty, every write succeeds and stores what it was given, every Helm call succeeds, and
  \<open>SetConditions\<close> writes the three conditions it is named after. A witness overrides the
  responses its property is about. None of this is part of the model.
\<close>

definition absent :: "go_error" where
  "absent = \<lparr>err_reason = Some NotFound, err_bad_selector = False, err_text = ''not found''\<rparr>"

definition sample_condition :: "string \<Rightarrow> cond_status \<Rightarrow> cond_reason \<Rightarrow> string \<Rightarrow> condition" where
  "sample_condition t v y m = \<lparr>cond_type = t, cond_value = v, cond_why = y, cond_message = m,
     cond_generation = 0, cond_transition = 0\<rparr>"

text \<open>\<open>SetConditions\<close> keeps a condition whose status is left unset.\<close>

definition sample_set_conditions :: "call list \<Rightarrow> cond_statuses \<Rightarrow> cond_reason \<Rightarrow> string
    \<Rightarrow> condition list \<Rightarrow> condition list" where
  "sample_set_conditions _ s y m old = concat (map (\<lambda>(t, v).
       if v = CondUnset then filter (\<lambda>c. cond_type c = t) old else [sample_condition t v y m])
     [(''Degraded'', cs_degraded s), (''Progressing'', cs_progressing s), (''Ready'', cs_ready s)])"

definition sample_has :: "string \<Rightarrow> cond_status \<Rightarrow> condition list \<Rightarrow> bool" where
  "sample_has t v cs \<longleftrightarrow> list_ex (\<lambda>c. cond_type c = t \<and> cond_value c = v) cs"

definition sample_meta :: "string \<Rightarrow> string \<Rightarrow> object_meta" where
  "sample_meta ns n = \<lparr>om_name = n, om_namespace = ns, om_uid = ns @ ''/'' @ n, om_generation = 1,
     om_created = 0, om_deleting = False, om_labels = Map.empty, om_annotations = Map.empty,
     om_finalizers = [], om_controller = None\<rparr>"

definition empty_status :: obj_status where
  "empty_status = \<lparr>attributes = Map.empty, conditions = [], observed_generation = 0\<rparr>"

definition ready_status :: obj_status where
  "ready_status = empty_status\<lparr>conditions :=
     sample_set_conditions [] ready_set ReconcileSuccess ''Reconciliation successful'' []\<rparr>"

definition sample_obj :: "string \<Rightarrow> string \<Rightarrow> 's \<Rightarrow> 's kobj" where
  "sample_obj ns n s = \<lparr>o_meta = sample_meta ns n, o_spec = s, o_status = empty_status\<rparr>"

definition sample_backend :: backend where
  "sample_backend = \<lparr>server_image = [], server_pull_policy = [], static_image = [],
     static_pull_policy = []\<rparr>"

definition sample_host_spec :: host_spec where
  "sample_host_spec = \<lparr>hs_brand_name = ''Brand'', hs_assets = [], hs_default_lang = ''en'',
     hs_module_policy = ''Strict'', hs_routing_strategy = ''Ingress'', hs_backend = sample_backend,
     hs_ingress_path = ''/-/host'', hs_registries = None, hs_env = [], hs_reference_namespaces = [],
     hs_helm = None, hs_theme_ref = None, hs_script_library_ref = None, hs_translation_refs = [],
     hs_utility_pages = None, hs_secret_selector = None, hs_extension_selector = None\<rparr>"

definition sample_archetype_spec :: archetype_spec where
  "sample_archetype_spec = \<lparr>ar_content = [], ar_footer = None, ar_header = None,
     ar_navigations = [], ar_script_library = None\<rparr>"

definition sample_theme_spec :: theme_spec where
  "sample_theme_spec = \<lparr>th_assets = [], th_script_library = None, th_backend = sample_backend,
     th_ingress_path = []\<rparr>"

definition sample_package :: package_ref where
  "sample_package = \<lparr>pkg_name = ''@kdex/app'', pkg_version = ''1.0.0'', pkg_registry = [],
     pkg_secret_ref = None\<rparr>"

definition sample_app_spec :: app_spec where
  "sample_app_spec = \<lparr>app_package = sample_package, app_scripts = [], app_backend = sample_backend,
     app_ingress_path = []\<rparr>"

definition sample_utility_page_spec :: "utility_page_type \<Rightarrow> utility_page_spec" where
  "sample_utility_page_spec t = \<lparr>up_type = t, up_contents = [], up_footer = None, up_header = None,
     up_navigations = [], up_archetype = None, up_script_library = None\<rparr>"

definition sample_env :: env where
  "sample_env = \<lparr>
     e_requeue_delay = 15000000000,
     e_controller_id = ''nexus-0'',
     e_now = (\<lambda>cs. int (length cs)),
     e_set_conditions = sample_set_conditions,
     e_set_condition = (\<lambda>_ c cs. c # filter (\<lambda>d. cond_type d \<noteq> cond_type c) cs),
     e_ready_true = sample_has ''Ready'' CondTrue,
     e_ready_false = sample_has ''Ready'' CondFalse,
     e_degraded_true = sample_has ''Degraded'' CondTrue,
     e_selector = (\<lambda>_. Inr (\<lambda>_. True)),
     e_mapper_error = (\<lambda>_. None),
     e_known_kind = (\<lambda>_. True),
     e_has_conditions = (\<lambda>_. True),
     e_get_ref = (\<lambda>_ _ _. Inl absent),
     e_get_host = (\<lambda>_ _. Inl absent),
     e_get_page = (\<lambda>_ _. Inl absent),
     e_get_internal_host = (\<lambda>_ _. Inl absent),
     e_get_internal_translation = (\<lambda>_ _. Inl absent),
     e_get_internal_page = (\<lambda>_ _. Inl absent),
     e_get_extension = (\<lambda>_ _. Inl absent),
     e_get_secret = (\<lambda>_ _. Inl absent),
     e_get_deployment = (\<lambda>_ _. Inl absent),
     e_list_hosts = (\<lambda>_. Inr []),
     e_list_archetypes = (\<lambda>_. Inr []),
     e_list_secrets = (\<lambda>_ _ _. Inr []),
     e_list_translations = (\<lambda>_ _. Inr []),
     e_list_extensions = (\<lambda>_ _. Inr []),
     e_list_internal_translations = (\<lambda>_ _. Inr []),
     e_list_internal_pages = (\<lambda>_ _. Inr []),
     e_update_host = (\<lambda>_ h. Inr h),
     e_patch_host_status = (\<lambda>_ _ _ _. None),
     e_update_status = (\<lambda>_ _. None),
     e_patch_extension_status = (\<lambda>_ _ _. None),
     e_delete = (\<lambda>_ _ _. None),
     e_set_controller = (\<lambda>own m. Inr (m\<lparr>om_controller := Some (om_uid own)\<rparr>)),
     e_write_internal_host = (\<lambda>_ k f. f (sample_obj (fst k) (snd k)
        \<lparr>ih_host_spec = sample_host_spec, ih_announcement = None, ih_consent = None,
         ih_error = None, ih_login = None, ih_translations = [], ih_extensions = []\<rparr>)),
     e_write_internal_translation = (\<lambda>_ k f. f (sample_obj (fst k) (snd k)
        \<lparr>it_spec = [], it_host_ref = []\<rparr>)),
     e_write_internal_page = (\<lambda>_ k f. f (sample_obj (fst k) (snd k)
        \<lparr>iu_spec = sample_utility_page_spec Announcement, iu_host_ref = []\<rparr>)),
     e_host_default = \<lparr>hd_chart = ''host-manager'', hd_version = ''1.0.0'', hd_values = None\<rparr>,
     e_config_values = Inr 0,
     e_read_values = (\<lambda>_. Inr Map.empty),
     e_coalesce = (\<lambda>dst src. src ++ dst),
     e_cluster_role = [],
     e_release_hash = (\<lambda>i. Inr (hi_release i @ hi_version i)),
     e_parse_time = (\<lambda>_. None),
     e_format_time = (\<lambda>_. ''now''),
     e_has_helm_factory = True,
     e_render_slot = (\<lambda>_ _. True),
     e_new_helm_client = (\<lambda>_ _ _. Inr 0),
     e_secrets_hash = (\<lambda>ss. concat (map o_name ss)),
     e_helm_add_repository = (\<lambda>_ _ _ _. None),
     e_helm_install_or_upgrade = (\<lambda>_ _ _. None),
     e_helm_list_releases = (\<lambda>_ _ _. Inr []),
     e_helm_uninstall = (\<lambda>_ _ _. None)\<rparr>"

text \<open>The fields of the sample environment, so that proofs need not unfold the whole record.\<close>

lemma sample_env_sel [simp]:
  "e_requeue_delay sample_env = 15000000000"
  "e_controller_id sample_env = ''nexus-0''"
  "e_now sample_env = (\<lambda>cs. int (length cs))"
  "e_set_conditions sample_env = sample_set_conditions"
  "e_set_condition sample_env = (\<lambda>_ c cs. c # filter (\<lambda>d. cond_type d \<noteq> cond_type
      c) cs)"
  "e_ready_true sample_env = sample_has ''Ready'' CondTrue"
  "e_ready_false sample_env = sample_has ''Ready'' CondFalse"
  "e_degraded_true sample_env = sample_has ''Degraded'' CondTrue"
  "e_selector sample_env = (\<lambda>_. Inr (\<lambda>_. True))"
  "e_mapper_error sample_env = (\<lambda>_. None)"
  "e_known_kind sample_env = (\<lambda>_. True)"
  "e_has_conditions sample_env = (\<lambda>_. True)"
  "e_get_ref sample_env = (\<lambda>_ _ _. Inl absent)"
  "e_get_host sample_env = (\<lambda>_ _. Inl absent)"
  "e_get_page sample_env = (\<lambda>_ _. Inl absent)"
  "e_get_internal_host sample_env = (\<lambda>_ _. Inl absent)"
  "e_get_internal_translation sample_env = (\<lambda>_ _. Inl absent)"
  "e_get_internal_page sample_env = (\<lambda>_ _. Inl absent)"
  "e_get_extension sample_env = (\<lambda>_ _. Inl absent)"
  "e_get_secret sample_env = (\<lambda>_ _. Inl absent)"
  "e_get_deployment sample_env = (\<lambda>_ _. Inl absent)"
  "e_list_hosts sample_env = (\<lambda>_. Inr [])"
  "e_list_archetypes sample_env = (\<lambda>_. Inr [])"
  "e_list_secrets sample_env = (\<lambda>_ _ _. Inr [])"
  "e_list_translations sample_env = (\<lambda>_ _. Inr [])"
  "e_list_extensions sample_env = (\<lambda>_ _. Inr [])"
  "e_list_internal_translations sample_env = (\<lambda>_ _. Inr [])"
  "e_list_internal_pages sample_env = (\<lambda>_ _. Inr [])"
  "e_update_host sample_env = (\<lambda>_ h. Inr h)"
  "e_patch_host_status sample_env = (\<lambda>_ _ _ _. None)"
  "e_update_status sample_env = (\<lambda>_ _. None)"
  "e_patch_extension_status sample_env = (\<lambda>_ _ _. None)"
  "e_delete sample_env = (\<lambda>_ _ _. None)"
  "e_set_controller sample_env = (\<lambda>own m. Inr (m\<lparr>om_controller := Some (om_uid own)\<rparr>))"
  "e_write_internal_host sample_env = (\<lambda>_ k f. f (sample_obj (fst k) (snd k)
      \<lparr>ih_host_spec = sample_host_spec, ih_announcement = None, ih_consent = None, ih_error = None, ih_login = None, ih_translations = [], ih_extensions = []\<rparr>))"
  "e_write_internal_translation sample_env = (\<lambda>_ k f. f (sample_obj (fst k) (snd k)
      \<lparr>it_spec = [], it_host_ref = []\<rparr>))"
  "e_write_internal_page sample_env = (\<lambda>_ k f. f (sample_obj (fst k) (snd k) \<lparr>iu_spec =
      sample_utility_page_spec Announcement, iu_host_ref = []\<rparr>))"
  "e_host_default sample_env = \<lparr>hd_chart = ''host-manager'', hd_version = ''1.0.0'', hd_values = None\<rparr>"
  "e_config_values sample_env = Inr 0"
  "e_read_values sample_env = (\<lambda>_. Inr Map.empty)"
  "e_coalesce sample_env = (\<lambda>dst src. src ++ dst)"
  "e_cluster_role sample_env = []"
  "e_release_hash sample_env = (\<lambda>i. Inr (hi_release i @ hi_version i))"
  "e_parse_time sample_env = (\<lambda>_. None)"
  "e_format_time sample_env = (\<lambda>_. ''now'')"
  "e_has_helm_factory sample_env"
  "e_render_slot sample_env = (\<lambda>_ _. True)"
  "e_new_helm_client sample_env = (\<lambda>_ _ _. Inr 0)"
  "e_secrets_hash sample_env = (\<lambda>ss. concat (map o_name ss))"
  "e_helm_add_repository sample_env = (\<lambda>_ _ _ _. None)"
  "e_helm_install_or_upgrade sample_env = (\<lambda>_ _ _. None)"
  "e_helm_list_releases sample_env = (\<lambda>_ _ _. Inr [])"
  "e_helm_uninstall sample_env = (\<lambda>_ _ _. None)"
  by (simp_all add: sample_env_def)

definition start_world :: world where
  "start_world = \<lparr>calls = [], active_ops = Map.empty, helm_clients = Map.empty\<rparr>"

text \<open>
  The documented behaviour of three library calls: \<open>CreateOrPatch\<close> and \<open>CreateOrUpdate\<close> leave in
  memory the object of the given key that the mutate function made, and \<open>SetControllerReference\<close>
  sets the controller owner reference and nothing else.
\<close>

definition lawful_writes :: "env \<Rightarrow> bool" where
  "lawful_writes E \<longleftrightarrow>
     (\<forall>cs k f ob. e_write_internal_translation E cs k f = Inr ob \<longrightarrow> (\<exists>old. o_key old = k \<and> f old = Inr ob))
   \<and> (\<forall>cs k f ob. e_write_internal_page E cs k f = Inr ob \<longrightarrow> (\<exists>old. o_key old = k \<and> f old = Inr ob))
   \<and> (\<forall>cs k f ob. e_write_internal_host E cs k f = Inr ob \<longrightarrow> (\<exists>old. o_key old = k \<and> f old = Inr ob))
   \<and> (\<forall>own m m'. e_set_controller E own m = Inr m' \<longrightarrow> m' = m\<lparr>om_controller := Some (om_uid own)\<rparr>)"

text \<open>
  The documented behaviour of \<open>SetConditions\<close> on the Ready condition: it takes the status given,
  and keeps its status where none is given.
\<close>

definition lawful_conditions :: "env \<Rightarrow> bool" where
  "lawful_conditions E \<longleftrightarrow> (\<forall>cs s y m old. e_ready_true E (e_set_conditions E cs s y m old) \<longleftrightarrow>
     (if cs_ready s = CondUnset then e_ready_true E old else cs_ready s = CondTrue))"

lemma lawful_conditions_sample: "lawful_conditions sample_env"
  by (auto simp: lawful_conditions_def sample_set_conditions_def sample_has_def sample_condition_def
      list_ex_iff)

lemmas sample_defs = absent_def sample_condition_def sample_set_conditions_def sample_has_def
  sample_meta_def empty_status_def ready_status_def sample_obj_def sample_backend_def
  sample_host_spec_def sample_archetype_spec_def sample_theme_spec_def sample_package_def
  sample_app_spec_def sample_utility_page_spec_def sample_env_def start_world_def

lemma o_key_sample [simp]: "o_key (sample_obj ns n x) = (ns, n)"
  by (simp add: sample_obj_def sample_meta_def key_of_def)

lemma lawful_sample: "lawful_writes sample_env"
  unfolding lawful_writes_def by (auto simp: sample_env_def) (metis o_key_sample)+

lemma lawful_controller:
  "lawful_writes E \<Longrightarrow> e_set_controller E own m = Inr m' \<Longrightarrow> m' = m\<lparr>om_controller := Some (om_uid own)\<rparr>"
  by (simp add: lawful_writes_def)

lemma lawful_more:
  "lawful_writes E \<Longrightarrow> lawful_writes (E\<lparr>e_get_ref := f\<rparr>)"
  "lawful_writes E \<Longrightarrow> lawful_writes (E\<lparr>e_get_host := g\<rparr>)"
  "lawful_writes E \<Longrightarrow> lawful_writes (E\<lparr>e_list_translations := l\<rparr>)"
  by (simp_all add: lawful_writes_def)

end
