(* ===== verification/Resolve.thy ===== *)
theory Resolve
  imports Sample "HOL-Library.AList"
begin

text \<open>
  Reference resolution (\<open>internal/controller/resolver_common.go\<close>). Each resolver returns the
  quadruple of the code (value, \<open>shouldReturn\<close>, \<open>ctrl.Result\<close>, error) as a record, the
  referrer's conditions (which the code updates through a pointer) and the next world.

  The locale \<open>resolver\<close> is the contract every caller relies on: a resolver only reads, and a
  resolver that tells its caller to return gives it an error or the requeue delay, so the
  reconcile is always tried again. It is interpreted for each resolver of the file.
\<close>

record 'a resolution =
  res_value :: "'a option"
  res_return :: bool
  res_result :: ctrl_result
  res_err :: "go_error option"

definition resolved :: "'a option \<Rightarrow> 'a resolution" where
  "resolved v = \<lparr>res_value = v, res_return = False, res_result = no_result, res_err = None\<rparr>"

definition stop_with :: "'a option \<Rightarrow> ctrl_result \<Rightarrow> go_error option \<Rightarrow> 'a resolution" where
  "stop_with v r e = \<lparr>res_value = v, res_return = True, res_result = r, res_err = e\<rparr>"

lemma resolution_sel [simp]:
  "res_value (resolved v) = v" "\<not> res_return (resolved v)"
  "res_result (resolved v) = no_result" "res_err (resolved v) = None"
  "res_value (stop_with v r e) = v" "res_return (stop_with v r e)"
  "res_result (stop_with v r e) = r" "res_err (stop_with v r e) = e"
  by (simp_all add: resolved_def stop_with_def)

section \<open>Readiness\<close>

text \<open>
  \<open>isReady\<close> reports the readiness of a referenced object. Where the object is not ready it
  also calls \<open>SetConditions\<close> on the conditions it was given; every caller passes the
  conditions of its own in-memory copy of the \<^emph>\<open>referenced\<close> object, which no caller reads
  again or writes back, so that effect is not part of the model.
\<close>

definition is_ready :: "env \<Rightarrow> condition list \<Rightarrow> bool \<times> ctrl_result" where
  "is_ready E conds = (if \<not> e_ready_true E conds then (False, requeue (e_requeue_delay E))
                       else (True, no_result))"

section \<open>One reference\<close>

definition is_clustered :: "string \<Rightarrow> bool" where
  "is_clustered k \<longleftrightarrow> contains_str k ''Cluster''"

definition ref_key :: "string \<Rightarrow> string \<Rightarrow> obj_ref \<Rightarrow> nsname" where
  "ref_key referrer_kind referrer_ns ref =
     (if \<not> is_clustered referrer_kind \<and> \<not> is_clustered (ref_kind ref)
      then (if ref_namespace ref \<noteq> [] then ref_namespace ref else referrer_ns, ref_name ref)
      else ([], ref_name ref))"

definition resolve_ref :: "env \<Rightarrow> string \<Rightarrow> string \<Rightarrow> obj_ref option \<Rightarrow> condition list \<Rightarrow> world
    \<Rightarrow> any_obj resolution \<times> condition list \<times> world" where
  "resolve_ref E referrer_kind referrer_ns object_ref conds w =
     (case object_ref of
        None \<Rightarrow> (resolved None, conds, w)
      | Some ref \<Rightarrow>
          if is_clustered referrer_kind \<and> \<not> is_clustered (ref_kind ref) then
            (stop_with None no_result (Some (plain_error (''referrer '' @ referrer_kind
               @ '' is cluster scoped so '' @ ref_kind ref @ '' must also be cluster scoped''))),
             conds, w)
          else if \<not> e_known_kind E (ref_kind ref) then
            (stop_with None no_result (Some (plain_error (''unknown kind '' @ ref_kind ref))), conds, w)
          else
            let key = ref_key referrer_kind referrer_ns ref;
                w1 = log_call (Get (ref_kind ref) key) w
            in case e_get_ref E (calls w) (ref_kind ref) key of
                 Inl err \<Rightarrow>
                   (stop_with None no_result (Some err),
                    e_set_conditions E (calls w1) progressing_set Reconciling (err_text err) conds, w1)
               | Inr obj \<Rightarrow>
                   if \<not> e_has_conditions E (ref_kind ref) then
                     (stop_with (Some obj) no_result
                        (Some (plain_error ''no condition field on status'')), conds, w1)
                   else
                     let (ready, r1) = is_ready E (conditions (o_status obj))
                     in if \<not> ready then (stop_with (Some obj) r1 None, conds, w1)
                        else (resolved (Some obj), conds, w1))"

section \<open>Content entries, navigations, archetypes\<close>

record resolved_content =
  rc_app :: "any_obj option"
  rc_attributes :: "string \<rightharpoonup> string"
  rc_content :: string
  rc_element :: string
  rc_package :: "package_ref option"
  rc_scripts :: "script_def list"
  rc_slot :: string

definition raw_content :: "content_entry \<Rightarrow> resolved_content" where
  "raw_content e = \<lparr>rc_app = None, rc_attributes = Map.empty, rc_content = ce_raw_html e,
     rc_element = [], rc_package = None, rc_scripts = [], rc_slot = ce_slot e\<rparr>"

definition app_content :: "content_entry \<Rightarrow> any_obj \<Rightarrow> app_spec \<Rightarrow> resolved_content" where
  "app_content e ob s = \<lparr>rc_app = Some ob, rc_attributes = ce_attributes e, rc_content = [],
     rc_element = ce_element e, rc_package = Some (app_package s), rc_scripts = app_scripts s,
     rc_slot = ce_slot e\<rparr>"

fun app_spec_of :: "any_obj option \<Rightarrow> app_spec option" where
  "app_spec_of None = None"
| "app_spec_of (Some ob) = (case o_spec ob of KDexApp s \<Rightarrow> Some s | KDexClusterApp s \<Rightarrow> Some s
                                            | _ \<Rightarrow> None)"

fun resolve_contents_from :: "env \<Rightarrow> string \<Rightarrow> string \<Rightarrow> content_entry list
    \<Rightarrow> (string \<times> resolved_content) list \<Rightarrow> condition list \<Rightarrow> world
    \<Rightarrow> (string \<times> resolved_content) list resolution \<times> condition list \<times> world" where
  "resolve_contents_from E rk ns [] contents conds w = (resolved (Some contents), conds, w)"
| "resolve_contents_from E rk ns (e # es) contents conds w =
     (if ce_raw_html e \<noteq> [] then
        resolve_contents_from E rk ns es (AList.update (ce_slot e) (raw_content e) contents) conds w
      else
        let (r, conds1, w1) = resolve_ref E rk ns (ce_app_ref e) conds w
        in if res_return r then (stop_with None (res_result r) (res_err r), conds1, w1)
           else case (res_value r, app_spec_of (res_value r)) of
                  (Some ob, Some s) \<Rightarrow>
                    resolve_contents_from E rk ns es
                      (AList.update (ce_slot e) (app_content e ob s) contents) conds1 w1
                | _ \<Rightarrow>
                    let err = plain_error (''content entry for slot '' @ ce_slot e @
                          '' has no rawHTML and no resolvable KDexApp/KDexClusterApp reference'')
                    in (stop_with None no_result (Some err),
                        e_set_conditions E (calls w1) degraded_set ReconcileError (err_text err) conds1,
                        w1))"

definition resolve_contents :: "env \<Rightarrow> string \<Rightarrow> string \<Rightarrow> content_entry list \<Rightarrow> condition list
    \<Rightarrow> world \<Rightarrow> (string \<times> resolved_content) list resolution \<times> condition list \<times> world" where
  "resolve_contents E rk ns entries = resolve_contents_from E rk ns entries []"

record resolved_navigation =
  rn_generation :: int
  rn_name :: string
  rn_spec :: "page_part_spec option"

definition navigation_of :: "any_obj \<Rightarrow> resolved_navigation" where
  "navigation_of ob = \<lparr>rn_generation = o_generation ob, rn_name = o_name ob,
     rn_spec = (case o_spec ob of KDexPageNavigation s \<Rightarrow> Some s
                                | KDexClusterPageNavigation s \<Rightarrow> Some s | _ \<Rightarrow> None)\<rparr>"

fun resolve_navigations_from :: "env \<Rightarrow> string \<Rightarrow> string \<Rightarrow> navigation_refs
    \<Rightarrow> (string \<times> resolved_navigation) list \<Rightarrow> condition list \<Rightarrow> world
    \<Rightarrow> (string \<times> resolved_navigation) list resolution \<times> condition list \<times> world" where
  "resolve_navigations_from E rk ns [] navs conds w = (resolved (Some navs), conds, w)"
| "resolve_navigations_from E rk ns ((name, ref) # refs) navs conds w =
     (let (r, conds1, w1) = resolve_ref E rk ns ref conds w
      in if res_return r then (stop_with None (res_result r) (res_err r), conds1, w1)
         else resolve_navigations_from E rk ns refs
                (case res_value r of None \<Rightarrow> navs
                 | Some ob \<Rightarrow> AList.update name (navigation_of ob) navs) conds1 w1)"

definition resolve_page_navigations :: "env \<Rightarrow> string \<Rightarrow> string \<Rightarrow> navigation_refs \<Rightarrow> condition list
    \<Rightarrow> world \<Rightarrow> (string \<times> resolved_navigation) list resolution \<times> condition list \<times> world" where
  "resolve_page_navigations E rk ns refs = resolve_navigations_from E rk ns refs []"

text \<open>
  The default archetype is the oldest cluster archetype labelled as default. The code sorts the
  list by creation time with \<open>slices.SortFunc\<close> and takes the first element.
\<close>

definition created_le :: "any_obj \<Rightarrow> any_obj \<Rightarrow> bool" where
  "created_le a b \<longleftrightarrow> om_created (o_meta a) \<le> om_created (o_meta b)"

definition resolve_or_default_archetype :: "env \<Rightarrow> string \<Rightarrow> string \<Rightarrow> obj_ref option
    \<Rightarrow> condition list \<Rightarrow> world \<Rightarrow> any_obj resolution \<times> condition list \<times> world" where
  "resolve_or_default_archetype E rk ns ref conds w =
     (let (r, conds1, w1) = resolve_ref E rk ns ref conds w
      in if res_return r then (stop_with None (res_result r) (res_err r), conds1, w1)
         else case res_value r of
                Some ob \<Rightarrow> (resolved (Some ob), conds1, w1)
              | None \<Rightarrow>
                  let w2 = log_call (ListObjs ''KDexClusterPageArchetype'' ''kdex.dev/default=true'') w1
                  in case e_list_archetypes E (calls w1) of
                       Inl err \<Rightarrow>
                         (stop_with None no_result (Some err),
                          e_set_conditions E (calls w2) degraded_set ReconcileSuccess (err_text err) conds1,
                          w2)
                     | Inr items \<Rightarrow>
                         (resolved (case sort_by created_le items of [] \<Rightarrow> None | ob # _ \<Rightarrow> Some ob),
                          conds1, w2))"

section \<open>Hosts, pages and secrets\<close>

definition resolve_host :: "env \<Rightarrow> string \<Rightarrow> string option \<Rightarrow> condition list \<Rightarrow> world
    \<Rightarrow> host resolution \<times> condition list \<times> world" where
  "resolve_host E ns host_ref conds w =
     (case host_ref of
        None \<Rightarrow> (resolved None, conds, w)
      | Some name \<Rightarrow>
          let w1 = log_call (Get ''KDexHost'' (ns, name)) w
          in case e_get_host E (calls w) (ns, name) of
               Inl err \<Rightarrow>
                 if is_not_found err then
                   (stop_with None (requeue (e_requeue_delay E)) None,
                    e_set_conditions E (calls w1) degraded_set ReconcileError (err_text err) conds, w1)
                 else (stop_with None no_result (Some err), conds, w1)
             | Inr h \<Rightarrow>
                 let (ready, r1) = is_ready E (conditions (o_status h))
                 in if \<not> ready then (stop_with None r1 None, conds, w1)
                    else (resolved (Some h), conds, w1))"

definition resolve_page :: "env \<Rightarrow> string \<Rightarrow> string option \<Rightarrow> condition list \<Rightarrow> world
    \<Rightarrow> page_spec kobj resolution \<times> condition list \<times> world" where
  "resolve_page E ns page_ref conds w =
     (case page_ref of
        None \<Rightarrow> (resolved None, conds, w)
      | Some name \<Rightarrow>
          let w1 = log_call (Get ''KDexPage'' (ns, name)) w
          in case e_get_page E (calls w) (ns, name) of
               Inl err \<Rightarrow>
                 if is_not_found err then
                   (stop_with None (requeue (e_requeue_delay E)) None,
                    e_set_conditions E (calls w1) degraded_set ReconcileError (err_text err) conds, w1)
                 else (stop_with None no_result (Some err), conds, w1)
             | Inr p \<Rightarrow>
                 let (ready, r1) = is_ready E (conditions (o_status p))
                 in if \<not> ready then (stop_with None r1 None, conds, w1)
                    else (resolved (Some p), conds, w1))"

text \<open>The dynamic type of the \<open>any\<close> parameter of \<open>ResolveSecret\<close>.\<close>

datatype secret_ref = NilRef | LocalRef string | ObjectRef obj_ref | OtherRef string

fun secret_key :: "string \<Rightarrow> secret_ref \<Rightarrow> nsname option" where
  "secret_key ns NilRef = None"
| "secret_key ns (LocalRef name) = Some (ns, name)"
| "secret_key ns (ObjectRef ref) =
     Some (if ref_namespace ref \<noteq> [] then ref_namespace ref else ns, ref_name ref)"
| "secret_key ns (OtherRef _) = None"

definition resolve_secret :: "env \<Rightarrow> string \<Rightarrow> secret_ref \<Rightarrow> condition list \<Rightarrow> world
    \<Rightarrow> secret resolution \<times> condition list \<times> world" where
  "resolve_secret E ns ref conds w =
     (if ref = NilRef then (resolved None, conds, w)
      else case secret_key ns ref of
        None \<Rightarrow> (stop_with None no_result (Some (plain_error ''unknown type'')), conds, w)
      | Some key \<Rightarrow>
          let w1 = log_call (Get ''Secret'' key) w
          in case e_get_secret E (calls w) key of
               Inl err \<Rightarrow>
                 if is_not_found err then
                   (stop_with None (requeue (e_requeue_delay E)) None,
                    e_set_conditions E (calls w1) degraded_set ReconcileError (err_text err) conds, w1)
                 else (stop_with None no_result (Some err), conds, w1)
             | Inr s \<Rightarrow> (resolved (Some s), conds, w1))"

text \<open>
  \<open>ResolveSecrets\<close>: the secrets a selector matches, sorted by name, each recorded in the
  status. Within one namespace names are distinct, so the order is determined.
\<close>

definition secret_attr :: "secret \<Rightarrow> string" where
  "secret_attr s = o_name s @ ''.secret.generation''"

definition resolve_secrets :: "env \<Rightarrow> obj_status \<Rightarrow> string \<Rightarrow> label_selector option \<Rightarrow> world
    \<Rightarrow> (go_error + secret list) \<times> obj_status \<times> world" where
  "resolve_secrets E st ns selector w =
     (case selector of
        None \<Rightarrow> (Inr [], st, w)
      | Some sel \<Rightarrow>
          (case e_selector E sel of
             Inl err \<Rightarrow> (Inl (wrap_error ''invalid secretSelector'' err), st, w)
           | Inr matches \<Rightarrow>
               let w1 = log_call (ListObjs ''Secret'' ns) w
               in case e_list_secrets E (calls w) ns matches of
                    Inl err \<Rightarrow> (Inl err, st, w1)
                  | Inr items \<Rightarrow>
                      let secrets = sort_by (str_key_le o_name) items
                      in (Inr secrets,
                          foldl (\<lambda>s x. set_attr (secret_attr x) (itoa (o_generation x)) s) st secrets,
                          w1)))"

section \<open>The contract of a resolver\<close>

text \<open>
  \<open>honours d conds w out\<close>: the outcome \<open>out\<close> of a resolver started with \<open>conds\<close> in \<open>w\<close>
  only added reads; if it tells the caller to return it carries an error or the requeue delay
  \<open>d\<close>; and if not, it has neither and left the conditions alone.
\<close>

definition honours :: "int \<Rightarrow> condition list \<Rightarrow> world
    \<Rightarrow> 'a resolution \<times> condition list \<times> world \<Rightarrow> bool" where
  "honours d conds w out = (case out of (r, conds', w') \<Rightarrow>
     extends is_read w w'
     \<and> (if res_return r then res_err r \<noteq> None \<or> res_result r = requeue d
        else res_err r = None \<and> res_result r = no_result \<and> conds' = conds))"

lemma honours_resolved [simp, intro]: "honours d conds w (resolved v, conds, w)"
  by (simp add: honours_def)

lemma honours_stop:
  "honours d conds w (r, conds', w') \<Longrightarrow> res_return r
   \<Longrightarrow> honours d conds w (stop_with v (res_result r) (res_err r), conds', w')"
  by (simp add: honours_def)

lemma honours_fail:
  "honours d conds w (r, conds', w') \<Longrightarrow> honours d conds w (stop_with v q (Some e), conds'', w')"
  by (simp add: honours_def)

lemma honours_then:
  assumes "honours d conds w (r, conds', w')" "\<not> res_return r" "honours d conds' w' out"
  shows "honours d conds w out"
  using assms by (auto simp: honours_def split: prod.splits if_splits intro: extends_trans)

locale resolver =
  fixes delay :: int
    and run :: "condition list \<Rightarrow> world \<Rightarrow> 'a resolution \<times> condition list \<times> world"
  assumes run_honours: "honours delay conds w (run conds w)"
begin

lemma reads_only:
  assumes "run conds w = (r, conds', w')" "c \<in> set (calls w')" "\<not> is_read c"
  shows "c \<in> set (calls w)"
  using run_honours [of conds w] assms by (auto simp: honours_def dest: extends_calls)

lemma extends_reads: "run conds w = (r, conds', w') \<Longrightarrow> extends is_read w w'"
  using run_honours [of conds w] by (simp add: honours_def)

lemma keeps_memory:
  assumes "run conds w = (r, conds', w')"
  shows "active_ops w' = active_ops w" and "helm_clients w' = helm_clients w"
  using extends_reads [OF assms] by (auto simp: extends_def)

lemma continues:
  assumes "run conds w = (r, conds', w')" "\<not> res_return r"
  shows "res_err r = None" and "res_result r = no_result" and "conds' = conds"
  using run_honours [of conds w] assms by (auto simp: honours_def)

lemma never_stuck:
  assumes "0 < delay" "run conds w = (r, conds', w')" "res_return r"
  shows "res_err r \<noteq> None \<or> 0 < requeue_after (res_result r)"
  using run_honours [of conds w] assms by (auto simp: honours_def requeue_def)

end

lemmas resolve_splits = option.splits sum.splits prod.splits if_splits

lemma resolve_ref_honours: "honours (e_requeue_delay E) conds w (resolve_ref E rk ns ref conds w)"
  by (auto simp: resolve_ref_def is_ready_def honours_def Let_def split: resolve_splits)

interpretation ref: resolver "e_requeue_delay E" "resolve_ref E rk ns ref" for E rk ns ref
  by unfold_locales (rule resolve_ref_honours)

lemma resolve_contents_from_honours:
  "honours (e_requeue_delay E) conds w (resolve_contents_from E rk ns es acc conds w)"
proof (induction es arbitrary: acc conds w)
  case (Cons e es)
  obtain r conds1 w1 where r: "resolve_ref E rk ns (ce_app_ref e) conds w = (r, conds1, w1)"
    by (metis prod_cases3)
  then have h: "honours (e_requeue_delay E) conds w (r, conds1, w1)"
    by (metis resolve_ref_honours)
  show ?case
    using Cons.IH h by (auto simp: r Let_def split: option.splits
        intro: honours_then honours_stop honours_fail)
qed simp

interpretation contents: resolver "e_requeue_delay E" "resolve_contents E rk ns entries"
  for E rk ns entries
  by unfold_locales (simp add: resolve_contents_def resolve_contents_from_honours)

lemma resolve_navigations_from_honours:
  "honours (e_requeue_delay E) conds w (resolve_navigations_from E rk ns refs acc conds w)"
proof (induction refs arbitrary: acc conds w)
  case (Cons nr refs)
  obtain name ref where nr: "nr = (name, ref)" by force
  obtain r conds1 w1 where r: "resolve_ref E rk ns ref conds w = (r, conds1, w1)"
    by (metis prod_cases3)
  then have h: "honours (e_requeue_delay E) conds w (r, conds1, w1)"
    by (metis resolve_ref_honours)
  show ?case
    using Cons.IH h by (auto simp: nr r Let_def split: option.splits
        intro: honours_then honours_stop)
qed simp

interpretation navs: resolver "e_requeue_delay E" "resolve_page_navigations E rk ns refs"
  for E rk ns refs
  by unfold_locales (simp add: resolve_page_navigations_def resolve_navigations_from_honours)

lemma resolve_or_default_archetype_honours:
  "honours (e_requeue_delay E) conds w (resolve_or_default_archetype E rk ns ref conds w)"
proof -
  obtain r conds1 w1 where r: "resolve_ref E rk ns ref conds w = (r, conds1, w1)"
    by (metis prod_cases3)
  then have h: "honours (e_requeue_delay E) conds w (r, conds1, w1)"
    by (metis resolve_ref_honours)
  then show ?thesis
    by (auto simp: resolve_or_default_archetype_def r Let_def honours_def split: resolve_splits
        intro: extends_log_trans)
qed

interpretation archetype: resolver "e_requeue_delay E" "resolve_or_default_archetype E rk ns ref"
  for E rk ns ref
  by unfold_locales (rule resolve_or_default_archetype_honours)

interpretation host_res: resolver "e_requeue_delay E" "resolve_host E ns host_ref" for E ns host_ref
  by unfold_locales
    (auto simp: resolve_host_def is_ready_def honours_def Let_def split: resolve_splits)

interpretation page_res: resolver "e_requeue_delay E" "resolve_page E ns page_ref" for E ns page_ref
  by unfold_locales
    (auto simp: resolve_page_def is_ready_def honours_def Let_def split: resolve_splits)

interpretation secret_res: resolver "e_requeue_delay E" "resolve_secret E ns sref" for E ns sref
  by unfold_locales (auto simp: resolve_secret_def honours_def Let_def split: resolve_splits)

section \<open>Functional behaviour\<close>

text \<open>What a reference resolves to: the object the API server returned, and it is ready.\<close>

lemma resolve_ref_SomeD:
  assumes "resolve_ref E rk ns ref conds w = (r, conds', w')" "\<not> res_return r" "res_value r = Some ob"
  shows "\<exists>rf. ref = Some rf \<and> e_get_ref E (calls w) (ref_kind rf) (ref_key rk ns rf) = Inr ob
    \<and> e_ready_true E (conditions (o_status ob))"
  using assms by (auto simp: resolve_ref_def is_ready_def Let_def split: resolve_splits)

lemma resolve_ref_NoneD:
  assumes "resolve_ref E rk ns ref conds w = (r, conds', w')" "\<not> res_return r" "res_value r = None"
  shows "ref = None"
  using assms by (auto simp: resolve_ref_def is_ready_def Let_def split: resolve_splits)

text \<open>The last entry of a slot determines the slot's content.\<close>

definition content_slot_ok :: "content_entry \<Rightarrow> resolved_content \<Rightarrow> bool" where
  "content_slot_ok e rc \<longleftrightarrow> rc_slot rc = ce_slot e \<and>
     (if ce_raw_html e \<noteq> [] then rc = raw_content e
      else \<exists>ob s. app_spec_of (Some ob) = Some s \<and> rc = app_content e ob s)"

lemma resolve_contents_from_slots:
  assumes "resolve_contents_from E rk ns es acc conds w = (r, conds', w')" "\<not> res_return r"
  shows "\<exists>cs. res_value r = Some cs \<and> fst ` set cs = fst ` set acc \<union> ce_slot ` set es
     \<and> (\<forall>slot. slot \<notin> ce_slot ` set es \<longrightarrow> map_of cs slot = map_of acc slot)
     \<and> (\<forall>pre e post. es = pre @ e # post \<longrightarrow> ce_slot e \<notin> ce_slot ` set post
          \<longrightarrow> (\<exists>rc. map_of cs (ce_slot e) = Some rc \<and> content_slot_ok e rc))"
  using assms
proof (induction es arbitrary: acc conds w)
  case Nil
  then show ?case by auto
next
  case (Cons x es)
  obtain rc conds1 w1 where step:
      "resolve_contents_from E rk ns es (AList.update (ce_slot x) rc acc) conds1 w1 = (r, conds', w')"
    and ok: "content_slot_ok x rc"
    using Cons.prems
    by (auto simp: Let_def content_slot_ok_def raw_content_def app_content_def
        split: if_splits prod.splits option.splits)
  obtain cs where cs: "res_value r = Some cs"
    and doms: "fst ` set cs = fst ` set (AList.update (ce_slot x) rc acc) \<union> ce_slot ` set es"
    and frame: "\<forall>slot. slot \<notin> ce_slot ` set es \<longrightarrow>
        map_of cs slot = map_of (AList.update (ce_slot x) rc acc) slot"
    and slots: "\<forall>pre e post. es = pre @ e # post \<longrightarrow> ce_slot e \<notin> ce_slot ` set post
          \<longrightarrow> (\<exists>rc. map_of cs (ce_slot e) = Some rc \<and> content_slot_ok e rc)"
    using Cons.IH [OF step Cons.prems(2)] by blast
  have "\<exists>rc. map_of cs (ce_slot e) = Some rc \<and> content_slot_ok e rc"
    if "x # es = pre @ e # post" "ce_slot e \<notin> ce_slot ` set post" for pre e post
  proof (cases pre)
    case Nil
    with that frame ok show ?thesis by (simp add: update_conv')
  next
    case (Cons y ys)
    with that slots show ?thesis by auto
  qed
  then show ?case
    using cs doms frame by (auto simp: update_conv' dom_update [unfolded dom_map_of_conv_image_fst])
qed

section \<open>Properties\<close>

text \<open>
  C1. Exactly when a reference resolves: it is given, a cluster-scoped referrer only names
  cluster-scoped kinds, the kind is in the scheme, the API server has the object under the key
  the code computes, the object has conditions and is Ready. In every other case with a
  reference the caller is told to return.
\<close>
theorem resolve_ref_resolves_iff:
  "(\<exists>r conds' w'. resolve_ref E rk ns ref conds w = (r, conds', w')
       \<and> \<not> res_return r \<and> res_value r = Some ob)
   \<longleftrightarrow> (\<exists>rf. ref = Some rf \<and> (is_clustered rk \<longrightarrow> is_clustered (ref_kind rf))
        \<and> e_known_kind E (ref_kind rf)
        \<and> e_get_ref E (calls w) (ref_kind rf) (ref_key rk ns rf) = Inr ob
        \<and> e_has_conditions E (ref_kind rf) \<and> e_ready_true E (conditions (o_status ob)))"
  by (auto simp: resolve_ref_def is_ready_def Let_def split: resolve_splits)

theorem resolve_ref_resolves_iff_witness:
  "\<exists>r conds' w'. resolve_ref (sample_env\<lparr>e_get_ref := (\<lambda>_ _ k.
        Inr ((sample_obj (fst k) (snd k) (KDexTheme sample_theme_spec))\<lparr>o_status := ready_status\<rparr>))\<rparr>)
      ''KDexHost'' ''ns'' (Some \<lparr>ref_kind = ''KDexTheme'', ref_name = ''t'', ref_namespace = []\<rparr>)
      [] start_world = (r, conds', w') \<and> \<not> res_return r
      \<and> res_value r = Some ((sample_obj ''ns'' ''t'' (KDexTheme sample_theme_spec))\<lparr>o_status := ready_status\<rparr>)"
  by (subst resolve_ref_resolves_iff)
    (simp add: sample_defs ref_key_def is_clustered_def has_prefix_def ready_set_def)

text \<open>
  A cluster-scoped referrer never reads a namespaced object through a reference: every
  call its resolution makes is a Get of a kind whose name contains Cluster, without namespace.
\<close>
theorem resolve_ref_cluster_scope:
  assumes "resolve_ref E rk ns ref conds w = (r, conds', w')" and "is_clustered rk"
    and "c \<in> set (calls w')" and "c \<notin> set (calls w)"
  shows "\<exists>k n. c = Get k ([], n) \<and> is_clustered k"
  using assms by (auto simp: resolve_ref_def ref_key_def Let_def split: resolve_splits)

theorem resolve_ref_cluster_scope_witness:
  "\<exists>k n. Get ''KDexClusterTheme'' ([], ''t'') = Get k ([], n) \<and> is_clustered k"
proof -
  let ?ref = "Some \<lparr>ref_kind = ''KDexClusterTheme'', ref_name = ''t'', ref_namespace = ''x''\<rparr>"
  have cl: "is_clustered ''KDexClusterUtilityPage''" "is_clustered ''KDexClusterTheme''"
    by (simp_all add: is_clustered_def has_prefix_def)
  obtain r conds' where run: "resolve_ref sample_env ''KDexClusterUtilityPage'' [] ?ref [] start_world
      = (r, conds', log_call (Get ''KDexClusterTheme'' ([], ''t'')) start_world)"
    using cl by (simp add: resolve_ref_def sample_defs ref_key_def)
  show ?thesis
    by (rule resolve_ref_cluster_scope [OF run cl(1)]) (simp_all add: start_world_def)
qed

text \<open>
  C2. A referenced object that exists but is not Ready stops the reconcile with a requeue and no
  error, and leaves no trace in the referrer's conditions: they stay what they were, so a
  referrer that was Ready is still reported Ready.
\<close>
theorem resolve_ref_not_ready_keeps_conditions:
  assumes "ref = Some rf" "is_clustered rk \<longrightarrow> is_clustered (ref_kind rf)"
    "e_known_kind E (ref_kind rf)" "e_has_conditions E (ref_kind rf)"
    "e_get_ref E (calls w) (ref_kind rf) (ref_key rk ns rf) = Inr ob"
    "\<not> e_ready_true E (conditions (o_status ob))"
  shows "\<exists>w'. resolve_ref E rk ns ref conds w
      = (stop_with (Some ob) (requeue (e_requeue_delay E)) None, conds, w')"
  using assms by (auto simp: resolve_ref_def is_ready_def Let_def)

theorem resolve_ref_not_ready_keeps_conditions_witness:
  "\<exists>w'. resolve_ref (sample_env\<lparr>e_get_ref := (\<lambda>_ _ k.
        Inr (sample_obj (fst k) (snd k) (KDexTheme sample_theme_spec)))\<rparr>)
      ''KDexHost'' ''ns'' (Some \<lparr>ref_kind = ''KDexTheme'', ref_name = ''t'', ref_namespace = []\<rparr>)
      (conditions ready_status) start_world
     = (stop_with (Some (sample_obj ''ns'' ''t'' (KDexTheme sample_theme_spec)))
          (requeue (e_requeue_delay sample_env)) None, conditions ready_status, w')"
proof -
  let ?E = "sample_env\<lparr>e_get_ref := (\<lambda>_ _ k.
        Inr (sample_obj (fst k) (snd k) (KDexTheme sample_theme_spec)))\<rparr>"
  let ?rf = "\<lparr>ref_kind = ''KDexTheme'', ref_name = ''t'', ref_namespace = []\<rparr>"
  have "\<exists>w'. resolve_ref ?E ''KDexHost'' ''ns'' (Some ?rf) (conditions ready_status) start_world
     = (stop_with (Some (sample_obj ''ns'' ''t'' (KDexTheme sample_theme_spec)))
          (requeue (e_requeue_delay ?E)) None, conditions ready_status, w')"
    by (rule resolve_ref_not_ready_keeps_conditions [where rf = ?rf])
      (simp_all add: sample_defs ref_key_def is_clustered_def has_prefix_def)
  then show ?thesis by simp
qed

text \<open>
  When the content entries of a page resolve, exactly the slots of the entries are filled,
  and a slot named by several entries holds the content of the last of them: its raw HTML, or
  the app its reference resolved to.
\<close>
theorem resolve_contents_slots:
  assumes "resolve_contents E rk ns entries conds w = (r, conds', w')" and "\<not> res_return r"
  shows "\<exists>cs. res_value r = Some cs \<and> fst ` set cs = ce_slot ` set entries
     \<and> (\<forall>pre e post. entries = pre @ e # post \<longrightarrow> ce_slot e \<notin> ce_slot ` set post
          \<longrightarrow> (\<exists>rc. map_of cs (ce_slot e) = Some rc \<and> content_slot_ok e rc))"
  using resolve_contents_from_slots [OF assms(1) [unfolded resolve_contents_def] assms(2)] by auto

theorem resolve_contents_slots_witness:
  "\<exists>cs. Some [(''main'', raw_content \<lparr>ce_slot = ''main'', ce_raw_html = ''<b/>'', ce_app_ref = None,
              ce_attributes = Map.empty, ce_element = []\<rparr>)] = Some cs
     \<and> fst ` set cs = {''main''}"
proof -
  let ?e = "\<lparr>ce_slot = ''main'', ce_raw_html = ''<b/>'', ce_app_ref = None,
              ce_attributes = Map.empty, ce_element = []\<rparr>"
  have run: "resolve_contents sample_env ''KDexUtilityPage'' ''ns'' [?e] [] start_world
      = (resolved (Some [(''main'', raw_content ?e)]), [], start_world)"
    by (simp add: resolve_contents_def)
  from resolve_contents_slots [OF run] show ?thesis by simp
qed

text \<open>
  Without an archetype reference the page gets the oldest of the default cluster archetypes
  the API server lists (none when there is none): no listed archetype is older.
\<close>
theorem default_archetype_is_oldest:
  assumes "resolve_or_default_archetype E rk ns None conds w = (r, conds', w')"
    and "e_list_archetypes E (calls w) = Inr items"
  shows "\<not> res_return r \<and> (res_value r = None \<longleftrightarrow> items = [])
    \<and> (\<forall>ob. res_value r = Some ob \<longrightarrow> ob \<in> set items
        \<and> (\<forall>x \<in> set items. om_created (o_meta ob) \<le> om_created (o_meta x)))"
proof -
  have r: "r = resolved (case sort_by created_le items of [] \<Rightarrow> None | ob # _ \<Rightarrow> Some ob)"
    using assms by (auto simp: resolve_or_default_archetype_def resolve_ref_def Let_def)
  have "sorted_wrt created_le (sort_by created_le items)"
    by (rule sorted_sort_by) (auto simp: total_preorder_def created_le_def)
  then have "ob \<in> set items \<and> (\<forall>x \<in> set items. om_created (o_meta ob) \<le> om_created (o_meta x))"
    if "sort_by created_le items = ob # rest" for ob rest
    using that set_sort_by [of created_le items] by (auto simp: created_le_def)
  moreover have "sort_by created_le items = [] \<longleftrightarrow> items = []"
    by (metis length_0_conv length_sort_by)
  ultimately show ?thesis using r by (auto split: list.splits)
qed

theorem default_archetype_is_oldest_witness:
  "\<exists>r conds' w'. resolve_or_default_archetype sample_env ''KDexUtilityPage'' ''ns'' None [] start_world
     = (r, conds', w') \<and> res_value r = None"
proof -
  obtain r conds' w' where run: "resolve_or_default_archetype sample_env ''KDexUtilityPage'' ''ns''
      None [] start_world = (r, conds', w')" by (metis prod_cases3)
  have items: "e_list_archetypes sample_env (calls start_world) = Inr []"
    by (simp add: sample_defs)
  show ?thesis using run default_archetype_is_oldest [OF run items] by blast
qed

end
