(* ===== verification/Translations.thy ===== *)
theory Translations
  imports Resolve
begin

text \<open>
  The translations of a host (\<open>internal/controller/kdexhost_translations.go\<close> and the
  translation half of \<open>kdexhost_controller_util.go\<close>): collecting the sources, ordering them by
  precedence, dropping consent keys from self-attached ones, writing one
  \<open>KDexInternalTranslation\<close> per source and pruning the copies whose source is gone.
\<close>

section \<open>Sources and their order\<close>

record translation_source =
  ts_kind :: string
  ts_namespace :: string
  ts_name :: string
  ts_generation :: int
  ts_spec :: translation_spec

definition source_key :: "translation_source \<Rightarrow> string" where
  "source_key s = ts_kind s @ ''/'' @ ts_namespace s @ ''/'' @ ts_name s"

text \<open>\<open>%q\<close> of a resource name, which has no characters that need escaping.\<close>

definition quoted :: "string \<Rightarrow> string" where
  "quoted s = [CHR 0x22] @ s @ [CHR 0x22]"

definition conflict_text :: "translation_source \<Rightarrow> translation_source \<Rightarrow> string" where
  "conflict_text c prev = source_key c @ '' and '' @ source_key prev @
     '' both map to internal translation suffix '' @ quoted (ts_name c) @ ''; using '' @ source_key prev"

text \<open>
  The loop from the last candidate to the first: \<open>walk_down\<close> takes the candidates still to
  visit, last one first, and returns the keep flag of each and the conflicts found.
\<close>

fun walk_down :: "translation_source list \<Rightarrow> (string \<rightharpoonup> translation_source) \<Rightarrow> bool list \<times> string list" where
  "walk_down [] winner = ([], [])"
| "walk_down (c # cs) winner =
     (case winner (ts_name c) of
        None \<Rightarrow> (let (ks, conflicts) = walk_down cs (winner(ts_name c \<mapsto> c)) in (True # ks, conflicts))
      | Some prev \<Rightarrow>
          (let (ks, conflicts) = walk_down cs winner
           in (False # ks,
               if source_key prev \<noteq> source_key c then conflict_text c prev # conflicts else conflicts)))"

definition source_candidates :: "translation_source option \<Rightarrow> translation_source list
    \<Rightarrow> translation_source list \<Rightarrow> translation_source list" where
  "source_candidates default_src self_attached declared =
     (let declared_keys = source_key ` set declared;
          self = sort_by (str_key_le ts_name) self_attached
      in (case default_src of None \<Rightarrow> [] | Some d \<Rightarrow> [d])
         @ filter (\<lambda>s. source_key s \<notin> declared_keys) self @ declared)"

definition order_translation_sources :: "translation_source option \<Rightarrow> translation_source list
    \<Rightarrow> translation_source list \<Rightarrow> translation_source list \<times> string" where
  "order_translation_sources default_src self_attached declared =
     (let candidates = source_candidates default_src self_attached declared;
          (ks, conflicts) = walk_down (rev candidates) Map.empty;
          ordered = map fst (filter snd (zip candidates (rev ks)))
      in (ordered, join_with ''; '' (sort_strings conflicts)))"

section \<open>Consent keys\<close>

definition consent_prefix :: string where "consent_prefix = ''consent.''"

definition is_consent_key :: "string \<Rightarrow> bool" where
  "is_consent_key k \<longleftrightarrow> has_prefix k consent_prefix"

definition without_consent_keys :: "translation_spec \<Rightarrow> translation_spec \<times> string list" where
  "without_consent_keys spec =
     (let dropped = concat (map (\<lambda>t. map (\<lambda>kv. tr_lang t @ ''/'' @ fst kv)
                                       (filter (\<lambda>kv. is_consent_key (fst kv)) (tr_keys t))) spec)
      in if dropped = [] then (spec, dropped)
         else (map (\<lambda>t. t\<lparr>tr_keys := filter (\<lambda>kv. \<not> is_consent_key (fst kv)) (tr_keys t)\<rparr>) spec,
               sort_strings dropped))"

definition has_consent_key :: "translation_spec \<Rightarrow> bool" where
  "has_consent_key spec \<longleftrightarrow> list_ex (\<lambda>t. list_ex (\<lambda>kv. is_consent_key (fst kv)) (tr_keys t)) spec"

text \<open>The loop of \<open>resolveTranslations\<close> over the self-attached sources.\<close>

definition strip_self_attached :: "translation_source list \<Rightarrow> translation_source list
    \<Rightarrow> translation_source list" where
  "strip_self_attached declared self_attached =
     (let declared_keys = source_key ` set declared
      in map (\<lambda>s. if source_key s \<in> declared_keys then s
                 else (let (spec, dropped) = without_consent_keys (ts_spec s)
                       in if dropped \<noteq> [] then s\<lparr>ts_spec := spec\<rparr> else s)) self_attached)"

section \<open>Facts about the order\<close>

text \<open>The reference definition: keep the last candidate of every name.\<close>

fun last_of_name :: "translation_source list \<Rightarrow> translation_source list" where
  "last_of_name [] = []"
| "last_of_name (c # cs) =
     (if ts_name c \<in> ts_name ` set cs then last_of_name cs else c # last_of_name cs)"

lemma names_last_of_name: "map ts_name (last_of_name cs) = remdups (map ts_name cs)"
  by (induction cs) auto

lemma subseq_last_of_name: "subseq (last_of_name cs) cs"
  by (induction cs) auto

lemma fst_walk_down [simp]:
  "fst (walk_down [] winner) = []"
  "fst (walk_down (c # cs) winner) = (case winner (ts_name c) of
      None \<Rightarrow> True # fst (walk_down cs (winner(ts_name c \<mapsto> c)))
    | Some prev \<Rightarrow> False # fst (walk_down cs winner))"
  by (simp_all split: option.splits prod.splits)

lemma snd_walk_down [simp]:
  "snd (walk_down [] winner) = []"
  "snd (walk_down (c # cs) winner) = (case winner (ts_name c) of
      None \<Rightarrow> snd (walk_down cs (winner(ts_name c \<mapsto> c)))
    | Some prev \<Rightarrow> (if source_key prev \<noteq> source_key c then [conflict_text c prev] else [])
                   @ snd (walk_down cs winner))"
  by (simp_all split: option.splits prod.splits)

declare walk_down.simps [simp del]

lemma walk_down_length: "length (fst (walk_down cs winner)) = length cs"
  by (induction cs arbitrary: winner) (auto split: option.splits)

lemma last_of_name_snoc:
  "last_of_name (xs @ [y]) = last_of_name (filter (\<lambda>x. ts_name x \<noteq> ts_name y) xs) @ [y]"
  by (induction xs) auto

lemma walk_down_keep:
  "map fst (filter snd (zip cs (fst (walk_down cs winner))))
     = rev (last_of_name (rev (filter (\<lambda>c. winner (ts_name c) = None) cs)))"
proof (induction cs arbitrary: winner)
  case (Cons c cs)
  show ?case
  proof (cases "winner (ts_name c)")
    case None
    define w' where "w' = winner(ts_name c \<mapsto> c)"
    have "filter (\<lambda>x. ts_name x \<noteq> ts_name c) (rev (filter (\<lambda>x. winner (ts_name x) = None) cs))
        = rev (filter (\<lambda>x. w' (ts_name x) = None) cs)"
      by (simp add: rev_filter w'_def) (rule filter_cong, auto)
    then show ?thesis
      using None Cons.IH [of w'] by (simp add: last_of_name_snoc flip: w'_def)
  next
    case (Some prev)
    then show ?thesis using Cons.IH [of winner] by simp
  qed
qed simp

lemma zip_rev_filter:
  "length xs = length ks \<Longrightarrow> map fst (filter snd (zip (rev xs) (rev ks)))
     = rev (map fst (filter snd (zip xs ks)))"
  by (simp add: zip_rev rev_filter [symmetric] rev_map)

lemma fst_order_sources:
  "fst (order_translation_sources d self declared)
     = last_of_name (source_candidates d self declared)"
proof -
  let ?cs = "source_candidates d self declared"
  let ?ks = "fst (walk_down (rev ?cs) Map.empty)"
  have "map fst (filter snd (zip ?cs (rev ?ks))) = rev (map fst (filter snd (zip (rev ?cs) ?ks)))"
    using zip_rev_filter [of "rev ?cs" ?ks] by (simp add: walk_down_length)
  also have "\<dots> = last_of_name ?cs" by (simp add: walk_down_keep)
  finally show ?thesis by (simp add: order_translation_sources_def Let_def split_beta)
qed

definition names_fit :: "(string \<rightharpoonup> translation_source) \<Rightarrow> translation_source set \<Rightarrow> bool" where
  "names_fit winner cs \<longleftrightarrow>
     (\<forall>c \<in> cs. \<forall>p. winner (ts_name c) = Some p \<longrightarrow> source_key p = source_key c)"

definition names_agree :: "translation_source set \<Rightarrow> bool" where
  "names_agree cs \<longleftrightarrow> (\<forall>a \<in> cs. \<forall>b \<in> cs. ts_name a = ts_name b \<longrightarrow> source_key a = source_key b)"

lemma names_fit_None:
  assumes "winner (ts_name c) = None"
  shows "names_fit (winner(ts_name c \<mapsto> c)) cs \<and> names_agree cs
     \<longleftrightarrow> names_fit winner (insert c cs) \<and> names_agree (insert c cs)"
proof
  assume l: "names_fit (winner(ts_name c \<mapsto> c)) cs \<and> names_agree cs"
  then have k: "source_key x = source_key c" if "x \<in> cs" "ts_name x = ts_name c" for x
    using that unfolding names_fit_def by (metis fun_upd_same)
  have "names_agree (insert c cs)"
    using l k unfolding names_agree_def by (metis insertE)
  moreover have "source_key p = source_key x" if "x \<in> cs" "winner (ts_name x) = Some p" for x p
  proof -
    have "(winner(ts_name c \<mapsto> c)) (ts_name x) = Some p" using that assms by auto
    then show ?thesis using l that(1) unfolding names_fit_def by blast
  qed
  then have "names_fit winner (insert c cs)"
    unfolding names_fit_def by (metis assms insertE option.distinct(1))
  ultimately show "names_fit winner (insert c cs) \<and> names_agree (insert c cs)" by blast
next
  assume r: "names_fit winner (insert c cs) \<and> names_agree (insert c cs)"
  have "source_key p = source_key x"
    if x: "x \<in> cs" and p: "(winner(ts_name c \<mapsto> c)) (ts_name x) = Some p" for x p
  proof (cases "ts_name x = ts_name c")
    case True
    with p have "p = c" by simp
    with True r x show ?thesis unfolding names_agree_def by (metis insertI1 insertI2)
  next
    case False
    with p have "winner (ts_name x) = Some p" by simp
    with r x show ?thesis unfolding names_fit_def by blast
  qed
  then have "names_fit (winner(ts_name c \<mapsto> c)) cs" unfolding names_fit_def by blast
  with r show "names_fit (winner(ts_name c \<mapsto> c)) cs \<and> names_agree cs"
    unfolding names_agree_def by blast
qed

lemma names_fit_Some:
  assumes "winner (ts_name c) = Some p"
  shows "source_key p = source_key c \<and> names_fit winner cs \<and> names_agree cs
     \<longleftrightarrow> names_fit winner (insert c cs) \<and> names_agree (insert c cs)"
proof
  assume l: "source_key p = source_key c \<and> names_fit winner cs \<and> names_agree cs"
  have k: "source_key x = source_key c" if "x \<in> cs" "ts_name x = ts_name c" for x
    using l that assms unfolding names_fit_def by metis
  have "names_agree (insert c cs)"
    using l k unfolding names_agree_def by (metis insertE)
  moreover have "names_fit winner (insert c cs)"
    using l assms unfolding names_fit_def by auto
  ultimately show "names_fit winner (insert c cs) \<and> names_agree (insert c cs)" by blast
next
  assume "names_fit winner (insert c cs) \<and> names_agree (insert c cs)"
  then show "source_key p = source_key c \<and> names_fit winner cs \<and> names_agree cs"
    using assms unfolding names_fit_def names_agree_def by blast
qed

lemma walk_down_conflicts:
  "snd (walk_down cs winner) = [] \<longleftrightarrow> names_fit winner (set cs) \<and> names_agree (set cs)"
proof (induction cs arbitrary: winner)
  case Nil
  then show ?case by (simp add: names_fit_def names_agree_def)
next
  case (Cons c cs)
  show ?case
  proof (cases "winner (ts_name c)")
    case None
    then have "snd (walk_down (c # cs) winner) = snd (walk_down cs (winner(ts_name c \<mapsto> c)))"
      by simp
    with names_fit_None [where winner = winner and c = c and cs = "set cs"] None show ?thesis
      by (metis Cons.IH list.simps(15))
  next
    case (Some p)
    then show ?thesis using names_fit_Some [where winner = winner and c = c and p = p and cs = "set cs"] Some
      by (auto simp: Cons.IH)
  qed
qed

lemma conflict_text_not_empty [simp]: "conflict_text c p \<noteq> []" "[] \<noteq> conflict_text c p"
  by (simp_all add: conflict_text_def source_key_def)

lemma walk_down_texts: "s \<in> set (snd (walk_down cs winner)) \<Longrightarrow> s \<noteq> []"
  by (induction cs arbitrary: winner)
    (auto split: option.splits if_splits)

lemma join_with_Nil_iff: "[] \<notin> set xs \<Longrightarrow> join_with sep xs = [] \<longleftrightarrow> xs = []"
  by (induction sep xs rule: join_with.induct) auto

lemma snd_order_sources:
  "snd (order_translation_sources d self declared) = []
     \<longleftrightarrow> names_agree (set (source_candidates d self declared))"
proof -
  let ?cf = "snd (walk_down (rev (source_candidates d self declared)) Map.empty)"
  have "[] \<notin> set (sort_strings ?cf)" using walk_down_texts by fastforce
  then have "join_with ''; '' (sort_strings ?cf) = [] \<longleftrightarrow> ?cf = []"
    by (simp add: join_with_Nil_iff) (metis length_0_conv length_sort_by)
  then show ?thesis
    by (simp add: order_translation_sources_def Let_def split_beta walk_down_conflicts names_fit_def)
qed

section \<open>The internal translation of one source\<close>

definition kdex_web :: string where "kdex_web = ''kdex-host''"

definition translation_suffix :: string where "translation_suffix = ''.translation.generation''"

definition internal_translation_name :: "host \<Rightarrow> string \<Rightarrow> string" where
  "internal_translation_name h n = o_name h @ ''-'' @ n"

text \<open>Labels and annotations copied from the host when the object is created.\<close>

definition inherit_meta :: "host \<Rightarrow> object_meta \<Rightarrow> object_meta" where
  "inherit_meta h m = m\<lparr>om_annotations := om_annotations m ++ om_annotations (o_meta h),
     om_labels := (om_labels m ++ om_labels (o_meta h))
        (''app.kubernetes.io/name'' \<mapsto> kdex_web, ''kdex.dev/instance'' \<mapsto> o_name h)\<rparr>"

definition mutate_internal_translation :: "env \<Rightarrow> host \<Rightarrow> translation_spec \<Rightarrow> int
    \<Rightarrow> internal_translation \<Rightarrow> go_error + internal_translation" where
  "mutate_internal_translation E h spec gen it =
     (let m = (if om_created (o_meta it) = 0 then inherit_meta h (o_meta it) else o_meta it);
          m' = m\<lparr>om_labels := (om_labels m)(''kdex.dev/generation'' \<mapsto> itoa gen)\<rparr>
      in case e_set_controller E (o_meta h) m' of
           Inl err \<Rightarrow> Inl err
         | Inr m'' \<Rightarrow> Inr (it\<lparr>o_meta := m'', o_spec := \<lparr>it_spec = spec, it_host_ref = o_name h\<rparr>\<rparr>))"

definition create_or_update_internal_translation :: "env \<Rightarrow> translation_spec \<Rightarrow> string \<Rightarrow> int \<Rightarrow> host
    \<Rightarrow> world \<Rightarrow> (go_error + internal_translation) \<times> host \<times> world" where
  "create_or_update_internal_translation E spec name gen h w =
     (let key = (o_namespace h, internal_translation_name h name);
          res = e_write_internal_translation E (calls w) key (mutate_internal_translation E h spec gen);
          w1 = log_call (WriteInternalTranslation key (case res of Inl _ \<Rightarrow> None | Inr it \<Rightarrow> Some it)) w
      in case res of
           Inl err \<Rightarrow> (Inl err, mark E w1 degraded_set ReconcileError (err_text err) h, w1)
         | Inr it \<Rightarrow>
             let w2 = log_call (Get ''KDexInternalTranslation'' (o_key it)) w1
             in (Inr it, h,
                 case e_get_internal_translation E (calls w1) (o_key it) of
                   Inl _ \<Rightarrow> w2
                 | Inr latest \<Rightarrow> log_call (PatchStatus ''KDexInternalTranslation'' (o_key it)
                     (set_attr ''translation.generation'' (itoa gen) (o_status latest))) w2))"

section \<open>Pruning\<close>

definition must_prune :: "host \<Rightarrow> string set \<Rightarrow> internal_translation \<Rightarrow> bool" where
  "must_prune h keep it \<longleftrightarrow>
     \<not> (o_name it \<in> keep \<or> om_deleting (o_meta it) \<or> \<not> is_controlled_by (o_meta it) (o_meta h))"

fun prune_items :: "env \<Rightarrow> host \<Rightarrow> string set \<Rightarrow> internal_translation list \<Rightarrow> world \<Rightarrow> world" where
  "prune_items E h keep [] w = w"
| "prune_items E h keep (it # its) w =
     prune_items E h keep its
       (if \<not> must_prune h keep it then w
        else log_call (Delete ''KDexInternalTranslation'' (o_key it)) w)"

definition stale_translation_attr :: "string \<Rightarrow> string set \<Rightarrow> string \<Rightarrow> bool" where
  "stale_translation_attr host_name keep attr =
     (case cut_suffix attr translation_suffix of
        None \<Rightarrow> False | Some source \<Rightarrow> host_name @ ''-'' @ source \<notin> keep)"

definition prune_internal_translations :: "env \<Rightarrow> host \<Rightarrow> string set \<Rightarrow> world \<Rightarrow> host \<times> world" where
  "prune_internal_translations E h keep w =
     (let w1 = log_call (ListObjs ''KDexInternalTranslation'' (o_name h)) w
      in case e_list_internal_translations E (calls w) (o_key h) of
           Inl _ \<Rightarrow> (h, w1)
         | Inr items \<Rightarrow>
             (upd_status (\<lambda>s. s\<lparr>attributes := (\<lambda>a.
                 if stale_translation_attr (o_name h) keep a then None else attributes s a)\<rparr>) h,
              prune_items E h keep items w1))"

section \<open>All the translations of a host\<close>

definition to_source :: "any_obj \<Rightarrow> translation_source" where
  "to_source ob =
     (let s = \<lparr>ts_kind = [], ts_namespace = o_namespace ob, ts_name = o_name ob,
               ts_generation = o_generation ob, ts_spec = []\<rparr>
      in case o_spec ob of
           KDexTranslation sp \<Rightarrow> s\<lparr>ts_kind := ''KDexTranslation'', ts_spec := nt_spec sp\<rparr>
         | KDexClusterTranslation sp \<Rightarrow> s\<lparr>ts_kind := ''KDexClusterTranslation'', ts_spec := sp\<rparr>
         | _ \<Rightarrow> s)"

text \<open>\<open>ResolveKDexObjectReference\<close> with the host as referrer.\<close>

definition host_resolve_ref :: "env \<Rightarrow> host \<Rightarrow> obj_ref option \<Rightarrow> world
    \<Rightarrow> any_obj resolution \<times> host \<times> world" where
  "host_resolve_ref E h ref w =
     (let (r, conds, w1) = resolve_ref E ''KDexHost'' (o_namespace h) ref (conditions (o_status h)) w
      in (r, with_conditions conds h, w1))"

text \<open>
  The two loops over references (self-attached and declared) resolve one source each and stop
  at the first that must return.
\<close>

fun resolve_sources :: "env \<Rightarrow> host \<Rightarrow> obj_ref list \<Rightarrow> world
    \<Rightarrow> translation_source list resolution \<times> host \<times> world" where
  "resolve_sources E h [] w = (resolved (Some []), h, w)"
| "resolve_sources E h (ref # refs) w =
     (let (r, h1, w1) = host_resolve_ref E h (Some ref) w
      in if res_return r then (stop_with None (res_result r) (res_err r), h1, w1)
         else let (rs, h2, w2) = resolve_sources E h1 refs w1
              in if res_return rs then (rs, h2, w2)
                 else (resolved (Some ((case res_value r of None \<Rightarrow> [] | Some ob \<Rightarrow> [to_source ob])
                        @ opt_list (res_value rs))), h2, w2))"

definition default_translation_ref :: obj_ref where
  "default_translation_ref = \<lparr>ref_kind = ''KDexClusterTranslation'',
     ref_name = ''kdex-default-translation'', ref_namespace = []\<rparr>"

definition attached_refs :: "translation_obj list \<Rightarrow> obj_ref list" where
  "attached_refs ts = map (\<lambda>t. \<lparr>ref_kind = ''KDexTranslation'', ref_name = o_name t, ref_namespace = []\<rparr>)
     (filter (\<lambda>t. \<not> om_deleting (o_meta t)) ts)"

definition translation_attr :: "translation_source \<Rightarrow> string" where
  "translation_attr s = ts_name s @ translation_suffix"

text \<open>Writing the ordered sources: the names of the copies, or the first error.\<close>

fun write_sources :: "env \<Rightarrow> host \<Rightarrow> translation_source list \<Rightarrow> world
    \<Rightarrow> (go_error + string list) \<times> host \<times> world" where
  "write_sources E h [] w = (Inr [], h, w)"
| "write_sources E h (s # ss) w =
     (case create_or_update_internal_translation E (ts_spec s) (ts_name s) (ts_generation s) h w of
        (Inl err, h1, w1) \<Rightarrow> (Inl err, h1, w1)
      | (Inr it, h1, w1) \<Rightarrow>
          (case write_sources E (put_attr (translation_attr s) (itoa (ts_generation s)) h1) ss w1 of
             (Inl err, h2, w2) \<Rightarrow> (Inl err, h2, w2)
           | (Inr names, h2, w2) \<Rightarrow> (Inr (o_name it # names), h2, w2)))"

record translations_result =
  tl_refs :: "string list"
  tl_collision :: string
  tl_return :: bool
  tl_result :: ctrl_result
  tl_err :: "go_error option"

definition translations_stop :: "ctrl_result \<Rightarrow> go_error option \<Rightarrow> translations_result" where
  "translations_stop r e = \<lparr>tl_refs = [], tl_collision = [], tl_return = True, tl_result = r, tl_err = e\<rparr>"

text \<open>From the resolved sources on: strip, order, write, prune.\<close>

definition publish_sources :: "env \<Rightarrow> host \<Rightarrow> translation_source option \<Rightarrow> translation_source list
    \<Rightarrow> translation_source list \<Rightarrow> world \<Rightarrow> translations_result \<times> host \<times> world" where
  "publish_sources E h default_src self_attached declared w =
     (let (ordered, collision) = order_translation_sources default_src
             (strip_self_attached declared self_attached) declared
      in case write_sources E h ordered w of
           (Inl err, h1, w1) \<Rightarrow> (translations_stop no_result (Some err), h1, w1)
         | (Inr names, h1, w1) \<Rightarrow>
             let (h2, w2) = prune_internal_translations E h1 (set names) w1
             in (\<lparr>tl_refs = names, tl_collision = collision, tl_return = False,
                  tl_result = no_result, tl_err = None\<rparr>, h2, w2))"

definition resolve_translations :: "env \<Rightarrow> host \<Rightarrow> world \<Rightarrow> translations_result \<times> host \<times> world" where
  "resolve_translations E h w =
     (let (rd, h1, w1) = host_resolve_ref E h (Some default_translation_ref) w
      in if res_return rd then (translations_stop (res_result rd) (res_err rd), h1, w1)
         else let w2 = log_call (ListObjs ''KDexTranslation'' (o_name h1)) w1
              in case e_list_translations E (calls w1) (o_key h1) of
                   Inl err \<Rightarrow> (translations_stop no_result (Some err), h1, w2)
                 | Inr attached \<Rightarrow>
                     let (rs, h3, w3) = resolve_sources E h1 (attached_refs attached) w2
                     in if res_return rs then (translations_stop (res_result rs) (res_err rs), h3, w3)
                        else let (rc, h4, w4) = resolve_sources E h3 (hs_translation_refs (o_spec h3)) w3
                             in if res_return rc then (translations_stop (res_result rc) (res_err rc), h4, w4)
                                else publish_sources E h4 (map_option to_source (res_value rd))
                                       (opt_list (res_value rs))
                                       (opt_list (res_value rc)) w4)"

section \<open>Index functions and watch handlers\<close>

definition index_translation_by_host_ref :: "any_obj \<Rightarrow> string list" where
  "index_translation_by_host_ref ob =
     (case o_spec ob of
        KDexTranslation sp \<Rightarrow> (case nt_host_ref sp of None \<Rightarrow> []
                                | Some n \<Rightarrow> if n = [] then [] else [n])
      | _ \<Rightarrow> [])"

definition index_internal_translation_by_host :: "internal_translation \<Rightarrow> string list" where
  "index_internal_translation_by_host it =
     (if it_host_ref (o_spec it) = [] then [] else [it_host_ref (o_spec it)])"

definition translation_host_ref_requests :: "any_obj \<Rightarrow> nsname list" where
  "translation_host_ref_requests ob =
     (case o_spec ob of
        KDexTranslation sp \<Rightarrow> (case nt_host_ref sp of None \<Rightarrow> []
                                | Some n \<Rightarrow> if n = [] then [] else [(o_namespace ob, n)])
      | _ \<Rightarrow> [])"

definition set_translation_collision_condition :: "env \<Rightarrow> world \<Rightarrow> host \<Rightarrow> string \<Rightarrow> host" where
  "set_translation_collision_condition E w h collision =
     mark E w degraded_set ReconcileError (''translation name collision: '' @ collision) h"

section \<open>Facts about writing and pruning\<close>

lemma candidates_cases:
  "s \<in> set (source_candidates d self declared) \<longleftrightarrow>
     d = Some s \<or> s \<in> set declared \<or> s \<in> set self \<and> source_key s \<notin> source_key ` set declared"
  by (auto simp: source_candidates_def Let_def split: option.splits)

lemma set_last_of_name: "set (last_of_name cs) \<subseteq> set cs"
  by (induction cs) auto

lemma last_of_name_last:
  "s \<in> set (last_of_name cs) \<longleftrightarrow> (\<exists>pre post. cs = pre @ s # post \<and> ts_name s \<notin> ts_name ` set post)"
proof (induction cs)
  case (Cons c cs)
  have "(\<exists>pre post. c # cs = pre @ s # post \<and> ts_name s \<notin> ts_name ` set post)
     \<longleftrightarrow> (s = c \<and> ts_name c \<notin> ts_name ` set cs)
         \<or> (\<exists>pre post. cs = pre @ s # post \<and> ts_name s \<notin> ts_name ` set post)" (is "?l \<longleftrightarrow> ?r")
  proof
    assume ?l
    then obtain pre post where "c # cs = pre @ s # post" "ts_name s \<notin> ts_name ` set post" by blast
    then show ?r by (cases pre) auto
  next
    assume ?r
    then show ?l
    proof
      assume "s = c \<and> ts_name c \<notin> ts_name ` set cs"
      then have "c # cs = [] @ s # cs \<and> ts_name s \<notin> ts_name ` set cs" by simp
      then show ?l by blast
    next
      assume "\<exists>pre post. cs = pre @ s # post \<and> ts_name s \<notin> ts_name ` set post"
      then obtain pre post where "c # cs = (c # pre) @ s # post" "ts_name s \<notin> ts_name ` set post"
        by auto
      then show ?l by blast
    qed
  qed
  with Cons.IH show ?case by auto
qed simp

lemma has_consent_key_iff:
  "has_consent_key spec \<longleftrightarrow> (\<exists>t \<in> set spec. filter (\<lambda>kv. is_consent_key (fst kv)) (tr_keys t) \<noteq> [])"
  by (auto simp: has_consent_key_def list_ex_iff filter_empty_conv)

definition dropped_keys :: "translation_spec \<Rightarrow> string list" where
  "dropped_keys spec = concat (map (\<lambda>t. map (\<lambda>kv. tr_lang t @ ''/'' @ fst kv)
      (filter (\<lambda>kv. is_consent_key (fst kv)) (tr_keys t))) spec)"

lemma dropped_keys_Nil: "dropped_keys spec = [] \<longleftrightarrow> \<not> has_consent_key spec"
  by (simp add: dropped_keys_def has_consent_key_iff)

lemma without_consent_keys_eq:
  "without_consent_keys spec = (if \<not> has_consent_key spec then (spec, [])
     else (map (\<lambda>t. t\<lparr>tr_keys := filter (\<lambda>kv. \<not> is_consent_key (fst kv)) (tr_keys t)\<rparr>) spec,
           sort_strings (dropped_keys spec)))"
  unfolding without_consent_keys_def dropped_keys_def [symmetric] Let_def
  by (simp add: dropped_keys_Nil)

lemma without_consent_no_consent: "\<not> has_consent_key (fst (without_consent_keys spec))"
  by (simp add: without_consent_keys_eq) (auto simp: has_consent_key_iff)

lemma without_consent_dropped_iff:
  "snd (without_consent_keys spec) = [] \<longleftrightarrow> \<not> has_consent_key spec"
proof -
  have "sort_strings xs = [] \<longleftrightarrow> xs = []" for xs by (metis length_0_conv length_sort_by)
  then show ?thesis by (simp add: without_consent_keys_eq dropped_keys_Nil)
qed

lemma without_consent_unchanged: "\<not> has_consent_key spec \<Longrightarrow> without_consent_keys spec = (spec, [])"
  by (simp add: without_consent_keys_eq)

lemma strip_self_attached_no_consent:
  assumes "s \<in> set (strip_self_attached declared self)" "source_key s \<notin> source_key ` set declared"
  shows "\<not> has_consent_key (ts_spec s)"
proof -
  have key: "source_key (x\<lparr>ts_spec := sp\<rparr>) = source_key x" for x sp by (simp add: source_key_def)
  from assms(1) obtain x where x: "x \<in> set self"
    and s: "s = (if source_key x \<in> source_key ` set declared then x
                 else if snd (without_consent_keys (ts_spec x)) \<noteq> []
                      then x\<lparr>ts_spec := fst (without_consent_keys (ts_spec x))\<rparr> else x)"
    by (auto simp: strip_self_attached_def Let_def split_beta)
  then have "source_key s = source_key x" by (auto simp: key split: if_splits)
  with assms(2) s show ?thesis
    by (auto simp: without_consent_no_consent without_consent_dropped_iff split: if_splits)
qed

lemma keys_strip [simp]:
  "map source_key (strip_self_attached declared self) = map source_key self"
  "map ts_name (strip_self_attached declared self) = map ts_name self"
  by (auto simp: strip_self_attached_def Let_def split_beta source_key_def)

lemma mutate_internal_translationD:
  assumes "lawful_writes E" "mutate_internal_translation E h spec gen old = Inr it"
  shows "o_key it = o_key old" "it_spec (o_spec it) = spec" "it_host_ref (o_spec it) = o_name h"
    "is_controlled_by (o_meta it) (o_meta h)"
    "om_labels (o_meta it) ''kdex.dev/generation'' = Some (itoa gen)"
  using assms(2)
  by (auto simp: mutate_internal_translation_def inherit_meta_def key_of_def
      is_controlled_by_def Let_def split: sum.splits dest!: lawful_controller [OF assms(1)])

text \<open>What one write appends to the log.\<close>

definition after_write_calls :: "env \<Rightarrow> int \<Rightarrow> call list \<Rightarrow> nsname \<Rightarrow> call list" where
  "after_write_calls E gen cs k = Get ''KDexInternalTranslation'' k
     # (case e_get_internal_translation E cs k of
          Inl _ \<Rightarrow> []
        | Inr latest \<Rightarrow> [PatchStatus ''KDexInternalTranslation'' k
            (set_attr ''translation.generation'' (itoa gen) (o_status latest))])"

lemma after_write_calls_cases:
  "c \<in> set (after_write_calls E gen cs k) \<Longrightarrow>
     c = Get ''KDexInternalTranslation'' k \<or> (\<exists>st. c = PatchStatus ''KDexInternalTranslation'' k st)"
  by (auto simp: after_write_calls_def split: sum.splits)

lemma create_translation_frame:
  assumes "create_or_update_internal_translation E spec name gen h w = (res, h', w')"
  shows "o_meta h' = o_meta h" "o_spec h' = o_spec h"
    and "attributes (o_status h') = attributes (o_status h)"
    and "active_ops w' = active_ops w" "helm_clients w' = helm_clients w"
    and "res = Inr it \<Longrightarrow> h' = h"
  using assms
  by (auto simp: create_or_update_internal_translation_def Let_def split: sum.splits)

lemma create_translation_calls:
  assumes "create_or_update_internal_translation E spec name gen h w = (res, h', w')"
  shows "calls w' = (let ws = calls w @ [WriteInternalTranslation
           (o_namespace h, internal_translation_name h name)
           (case res of Inl _ \<Rightarrow> None | Inr it \<Rightarrow> Some it)]
         in ws @ (case res of Inl _ \<Rightarrow> [] | Inr it \<Rightarrow> after_write_calls E gen ws (o_key it)))"
  using assms
  by (auto simp: create_or_update_internal_translation_def after_write_calls_def Let_def
      split: sum.splits)

lemma create_translation_result:
  assumes "create_or_update_internal_translation E spec name gen h w = (res, h', w')"
  shows "res = e_write_internal_translation E (calls w) (o_namespace h, internal_translation_name h name)
           (mutate_internal_translation E h spec gen)"
  using assms by (auto simp: create_or_update_internal_translation_def Let_def split: sum.splits)

lemma create_translation_object:
  assumes "lawful_writes E"
    and "create_or_update_internal_translation E spec name gen h w = (Inr it, h', w')"
  shows "o_key it = (o_namespace h, internal_translation_name h name)
     \<and> it_spec (o_spec it) = spec \<and> it_host_ref (o_spec it) = o_name h
     \<and> is_controlled_by (o_meta it) (o_meta h)"
proof -
  have "e_write_internal_translation E (calls w) (o_namespace h, internal_translation_name h name)
      (mutate_internal_translation E h spec gen) = Inr it"
    using assms(2) by (auto simp: create_or_update_internal_translation_def Let_def split: sum.splits)
  then obtain old where "o_key old = (o_namespace h, internal_translation_name h name)"
    and "mutate_internal_translation E h spec gen old = Inr it"
    using assms(1) unfolding lawful_writes_def by blast
  with mutate_internal_translationD [OF assms(1)] show ?thesis by metis
qed

text \<open>A write of a translation in the log belongs to one of the sources.\<close>

lemma write_sources_writes:
  assumes "lawful_writes E" "write_sources E h ss w = (res, h', w')"
    and "WriteInternalTranslation k (Some ob) \<in> set (calls w')"
    and "WriteInternalTranslation k (Some ob) \<notin> set (calls w)"
  shows "\<exists>s \<in> set ss. it_spec (o_spec ob) = ts_spec s \<and> it_host_ref (o_spec ob) = o_name h
     \<and> k = (o_namespace h, internal_translation_name h (ts_name s))"
  using assms(2-)
proof (induction ss arbitrary: h w res h' w')
  case (Cons s ss)
  obtain r1 h1 w1 where c:
    "create_or_update_internal_translation E (ts_spec s) (ts_name s) (ts_generation s) h w = (r1, h1, w1)"
    by (metis prod_cases3)
  note frame = create_translation_frame [OF c]
  note calls1 = create_translation_calls [OF c]
  show ?case
  proof (cases "WriteInternalTranslation k (Some ob) \<in> set (calls w1)")
    case True
    then have "r1 = Inr ob" "k = (o_namespace h, internal_translation_name h (ts_name s))"
      using calls1 Cons.prems(3)
      by (auto simp: Let_def split: sum.splits dest: after_write_calls_cases)
    then show ?thesis using create_translation_object [OF assms(1)] c by fastforce
  next
    case False
    then obtain it where r1: "r1 = Inr it"
      using Cons.prems(1,2) c by (cases r1) auto
    let ?h = "put_attr (translation_attr s) (itoa (ts_generation s)) h1"
    obtain r2 h2 w2 where rest: "write_sources E ?h ss w1 = (r2, h2, w2)" by (metis prod_cases3)
    have "w' = w2" using Cons.prems(1) c r1 rest by (auto split: sum.splits)
    with Cons.IH [OF rest] Cons.prems(2) False
    have "\<exists>s \<in> set ss. it_spec (o_spec ob) = ts_spec s \<and> it_host_ref (o_spec ob) = o_name ?h
     \<and> k = (o_namespace ?h, internal_translation_name ?h (ts_name s))" by simp
    then show ?thesis by (auto simp: frame internal_translation_name_def)
  qed
qed simp

lemma write_sources_ok:
  assumes "lawful_writes E" "write_sources E h ss w = (Inr names, h', w')"
  shows "names = map (\<lambda>s. internal_translation_name h (ts_name s)) ss
    \<and> o_meta h' = o_meta h \<and> o_spec h' = o_spec h
    \<and> active_ops w' = active_ops w \<and> helm_clients w' = helm_clients w
    \<and> conditions (o_status h') = conditions (o_status h)"
  using assms(2)
proof (induction ss arbitrary: h w names)
  case (Cons s ss)
  obtain it h1 w1 where c:
    "create_or_update_internal_translation E (ts_spec s) (ts_name s) (ts_generation s) h w = (Inr it, h1, w1)"
    using Cons.prems by (auto split: sum.splits prod.splits)
  let ?h = "put_attr (translation_attr s) (itoa (ts_generation s)) h1"
  obtain ns where rest: "write_sources E ?h ss w1 = (Inr ns, h', w')" and names: "names = o_name it # ns"
    using Cons.prems c by (auto split: sum.splits prod.splits)
  have "o_name it = internal_translation_name h (ts_name s)"
    using create_translation_object [OF assms(1) c] by (simp add: key_of_def)
  with Cons.IH [OF rest] create_translation_frame [OF c] names show ?case
    by (simp add: internal_translation_name_def)
qed simp

lemma prune_items_calls:
  "calls (prune_items E h keep items w) = calls w
     @ map (\<lambda>it. Delete ''KDexInternalTranslation'' (o_key it)) (filter (must_prune h keep) items)"
  by (induction items arbitrary: w) simp_all

lemma prune_items_frame [frame]:
  "active_ops (prune_items E h keep items w) = active_ops w"
  "helm_clients (prune_items E h keep items w) = helm_clients w"
  by (induction items arbitrary: w) simp_all

section \<open>Properties\<close>

text \<open>
  C3. Precedence. The sources that are served are, in the order of the candidates (default,
  self-attached by name, host-declared), the last candidate of every name: names are distinct,
  every candidate's name is served, and a name is served from the last place that has it.
\<close>
theorem order_sources_precedence:
  "order_translation_sources d self declared = (ordered, collision) \<Longrightarrow>
     map ts_name ordered = remdups (map ts_name (source_candidates d self declared))
   \<and> subseq ordered (source_candidates d self declared)
   \<and> (\<forall>s. s \<in> set ordered \<longleftrightarrow> (\<exists>pre post. source_candidates d self declared = pre @ s # post
            \<and> ts_name s \<notin> ts_name ` set post))"
  using fst_order_sources [of d self declared]
  by (simp add: names_last_of_name subseq_last_of_name last_of_name_last)

theorem order_sources_precedence_witness:
  "let a = \<lparr>ts_kind = ''KDexTranslation'', ts_namespace = ''ns'', ts_name = ''a'', ts_generation = 1,
            ts_spec = []\<rparr>;
       b = a\<lparr>ts_kind := ''KDexClusterTranslation'', ts_namespace := []\<rparr>
   in map ts_name (fst (order_translation_sources None [a] [b]))
        = remdups (map ts_name (source_candidates None [a] [b]))"
  unfolding Let_def by (rule order_sources_precedence [THEN conjunct1]) (simp add: prod_eq_iff)

text \<open>
  The collision text is empty exactly when no two candidates with different identities (kind,
  namespace and name) would share one internal translation.
\<close>
theorem order_sources_collision_iff:
  "snd (order_translation_sources d self declared) = [] \<longleftrightarrow>
     (\<forall>a \<in> set (source_candidates d self declared). \<forall>b \<in> set (source_candidates d self declared).
        ts_name a = ts_name b \<longrightarrow> source_key a = source_key b)"
  unfolding snd_order_sources names_agree_def ..

theorem order_sources_collision_iff_witness:
  "let a = \<lparr>ts_kind = ''KDexTranslation'', ts_namespace = ''ns'', ts_name = ''a'', ts_generation = 1,
            ts_spec = []\<rparr>;
       b = a\<lparr>ts_kind := ''KDexClusterTranslation'', ts_namespace := []\<rparr>
   in snd (order_translation_sources None [a] [b]) \<noteq> []"
  unfolding Let_def
  by (subst order_sources_collision_iff)
    (auto simp: source_candidates_def source_key_def)

text \<open>
  The API server's listing order does not matter: two listings of the same self-attached
  translations, whose names are distinct within the host's namespace, are ordered alike.
\<close>
theorem order_sources_ignores_listing_order:
  assumes "mset self = mset self'" and "distinct (map ts_name self)"
  shows "order_translation_sources d self declared = order_translation_sources d self' declared"
proof -
  have "sort_by (str_key_le ts_name) self' = sort_by (str_key_le ts_name) self"
  proof (rule sort_by_unique [OF total_preorder_str_key])
    show "sorted_wrt (str_key_le ts_name) (sort_by (str_key_le ts_name) self')"
      by (simp add: sorted_sort_by)
    show "mset (sort_by (str_key_le ts_name) self') = mset self" using assms(1) by simp
    fix x y assume "x \<in> set self" "y \<in> set self" "str_key_le ts_name x y" "str_key_le ts_name y x"
    then show "x = y" using assms(2)
      by (auto simp: str_key_le_def distinct_map inj_on_def dest: str_le_antisym)
  qed
  then show ?thesis by (simp add: order_translation_sources_def source_candidates_def)
qed

theorem order_sources_ignores_listing_order_witness:
  "let a = \<lparr>ts_kind = ''KDexTranslation'', ts_namespace = ''ns'', ts_name = ''a'', ts_generation = 1,
            ts_spec = []\<rparr>;
       b = a\<lparr>ts_name := ''b''\<rparr>
   in order_translation_sources None [a, b] [] = order_translation_sources None [b, a] []"
  unfolding Let_def by (rule order_sources_ignores_listing_order) simp_all

text \<open>
  C4. A translation that attached itself to a host cannot word the consent page: every internal
  translation that publishing writes with a \<open>consent.*\<close> key carries the spec of the default
  translation or of one the host declares in its own \<open>translationRefs\<close>.
\<close>
theorem consent_keys_only_from_host:
  assumes "lawful_writes E"
    and "publish_sources E h d self declared w = (res, h', w')"
    and "WriteInternalTranslation k (Some ob) \<in> set (calls w')"
    and "WriteInternalTranslation k (Some ob) \<notin> set (calls w)"
    and "has_consent_key (it_spec (o_spec ob))"
  shows "\<exists>s. (d = Some s \<or> s \<in> set declared) \<and> it_spec (o_spec ob) = ts_spec s"
proof -
  let ?self = "strip_self_attached declared self"
  obtain ordered collision where ord: "order_translation_sources d ?self declared = (ordered, collision)"
    by force
  then have sub: "set ordered \<subseteq> set (source_candidates d ?self declared)"
    using fst_order_sources set_last_of_name by (metis fst_conv)
  obtain r1 h1 w1 where ws: "write_sources E h ordered w = (r1, h1, w1)" by (metis prod_cases3)
  have "WriteInternalTranslation k (Some ob) \<in> set (calls w1)"
    using assms(2,3) ord ws
    by (auto simp: publish_sources_def prune_internal_translations_def prune_items_calls Let_def
        split: sum.splits)
  then obtain s where s: "s \<in> set ordered" "it_spec (o_spec ob) = ts_spec s"
    using write_sources_writes [OF assms(1) ws] assms(4) by blast
  have "s \<in> set (source_candidates d ?self declared)" using sub s(1) by blast
  moreover have "has_consent_key (ts_spec s)" using assms(5) s(2) by simp
  ultimately have "d = Some s \<or> s \<in> set declared"
    using strip_self_attached_no_consent unfolding candidates_cases by blast
  then show ?thesis using s(2) by blast
qed

theorem consent_keys_only_from_host_witness:
  "\<exists>s. (None = Some s \<or> s \<in> {\<lparr>ts_kind = ''KDexTranslation'', ts_namespace = ''ns'', ts_name = ''t'',
        ts_generation = 1, ts_spec = [\<lparr>tr_lang = ''en'', tr_keys = [(''consent.allow'', ''Yes'')]\<rparr>]\<rparr>})
     \<and> [\<lparr>tr_lang = ''en'', tr_keys = [(''consent.allow'', ''Yes'')]\<rparr>] = ts_spec s"
proof -
  let ?spec = "[\<lparr>tr_lang = ''en'', tr_keys = [(''consent.allow'', ''Yes'')]\<rparr>]"
  let ?s = "\<lparr>ts_kind = ''KDexTranslation'', ts_namespace = ''ns'', ts_name = ''t'',
        ts_generation = 1, ts_spec = ?spec\<rparr>"
  let ?h = "sample_obj ''ns'' ''h'' sample_host_spec"
  obtain res h' w' where run: "publish_sources sample_env ?h None [] [?s] start_world = (res, h', w')"
    by (metis prod_cases3)
  obtain res1 h1 w1 where c: "create_or_update_internal_translation sample_env ?spec ''t'' 1 ?h start_world
      = (res1, h1, w1)" by (metis prod_cases3)
  have "\<exists>it. res1 = Inr it"
    by (simp add: create_translation_result [OF c] mutate_internal_translation_def Let_def)
  then obtain it where it: "res1 = Inr it" by blast
  have spec: "it_spec (o_spec it) = ?spec"
    using create_translation_object [OF lawful_sample c [unfolded it]] by simp
  have keys: "(WriteInternalTranslation (''ns'', ''h-t'') (Some it)) \<in> set (calls w1)"
    using create_translation_calls [OF c]
    by (simp add: it Let_def internal_translation_name_def sample_obj_def sample_meta_def)
  have "WriteInternalTranslation (''ns'', ''h-t'') (Some it) \<in> set (calls w')"
    using run c keys
    by (auto simp: publish_sources_def order_translation_sources_def source_candidates_def Let_def it
        strip_self_attached_def walk_down.simps prune_internal_translations_def prune_items_calls
        split: prod.splits sum.splits)
  from consent_keys_only_from_host [OF lawful_sample run this] spec show ?thesis
    by (simp add: start_world_def has_consent_key_def is_consent_key_def has_prefix_def
        consent_prefix_def)
qed

text \<open>
  Dropping the consent keys leaves none, is the identity (and reports nothing) exactly on a
  spec without them, and keeps every other key in place.
\<close>
theorem without_consent_keys_spec:
  "\<not> has_consent_key (fst (without_consent_keys spec))
   \<and> (snd (without_consent_keys spec) = [] \<longleftrightarrow> \<not> has_consent_key spec)
   \<and> (has_consent_key spec \<or> fst (without_consent_keys spec) = spec)
   \<and> map (\<lambda>t. (tr_lang t, filter (\<lambda>kv. \<not> is_consent_key (fst kv)) (tr_keys t)))
        (fst (without_consent_keys spec))
     = map (\<lambda>t. (tr_lang t, filter (\<lambda>kv. \<not> is_consent_key (fst kv)) (tr_keys t))) spec"
proof (intro conjI)
  show "\<not> has_consent_key (fst (without_consent_keys spec))" by (rule without_consent_no_consent)
  show "snd (without_consent_keys spec) = [] \<longleftrightarrow> \<not> has_consent_key spec"
    by (rule without_consent_dropped_iff)
qed (simp_all add: without_consent_keys_eq)

text \<open>
  C5. Pruning deletes exactly the listed internal translations that the host controls, that are
  not being deleted already and whose name is not kept, in listing order; a listed copy of
  another owner is never deleted. It drops from the status exactly the generation attributes
  whose source is not kept.
\<close>
theorem prune_deletes_exactly:
  assumes "prune_internal_translations E h keep w = (h', w')"
    and "e_list_internal_translations E (calls w) (o_key h) = Inr items"
  shows "calls w' = calls w @ ListObjs ''KDexInternalTranslation'' (o_name h)
      # map (\<lambda>it. Delete ''KDexInternalTranslation'' (o_key it))
          (filter (\<lambda>it. o_name it \<notin> keep \<and> \<not> om_deleting (o_meta it)
                        \<and> is_controlled_by (o_meta it) (o_meta h)) items)
    \<and> (\<forall>a. attributes (o_status h') a =
        (if \<exists>source. a = source @ translation_suffix \<and> o_name h @ ''-'' @ source \<notin> keep then None
         else attributes (o_status h) a))"
proof -
  have "stale_translation_attr (o_name h) keep a
     \<longleftrightarrow> (\<exists>source. a = source @ translation_suffix \<and> o_name h @ ''-'' @ source \<notin> keep)" for a
    by (auto simp: stale_translation_attr_def cut_suffix_Some_iff split: option.splits)
  moreover have "filter (must_prune h keep) items = filter (\<lambda>it. o_name it \<notin> keep
      \<and> \<not> om_deleting (o_meta it) \<and> is_controlled_by (o_meta it) (o_meta h)) items"
    by (rule filter_cong) (auto simp: must_prune_def)
  ultimately show ?thesis
    using assms by (auto simp: prune_internal_translations_def prune_items_calls Let_def)
qed

theorem prune_deletes_exactly_witness:
  "calls (snd (prune_internal_translations sample_env (sample_obj ''ns'' ''h'' sample_host_spec) {} start_world))
     = [ListObjs ''KDexInternalTranslation'' ''h'']"
proof -
  let ?h = "sample_obj ''ns'' ''h'' sample_host_spec"
  obtain h' w' where run: "prune_internal_translations sample_env ?h {} start_world = (h', w')" by force
  have items: "e_list_internal_translations sample_env (calls start_world) (o_key ?h) = Inr []"
    by (simp add: sample_env_def)
  from prune_deletes_exactly [OF run items] run show ?thesis
    by (simp add: start_world_def sample_obj_def sample_meta_def)
qed



end
