(* ===== verification/Extensions.thy ===== *)
theory Extensions
  imports Translations
begin

text \<open>
  Host extensions (\<open>internal/controller/kdexhost_extensions.go\<close> and
  \<open>kdexhostextension_controller.go\<close>): which \<open>KDexHostExtension\<close>s a host applies, what the host
  reconciler records for them, and the \<open>Attached\<close> condition the extension reconciler reports.

  The locale \<open>extension_policy\<close> is the contract of \<open>selectExtensions\<close> that both reconcilers rely
  on; it is interpreted on \<open>select_extensions\<close>.
\<close>

section \<open>Selecting extensions\<close>

definition max_host_extensions :: nat where "max_host_extensions = 32"

definition extension_suffix :: string where "extension_suffix = ''.extension.generation''"

definition index_extension_by_host_ref :: "extension \<Rightarrow> string list" where
  "index_extension_by_host_ref e =
     (if ex_host_ref (o_spec e) = [] then [] else [ex_host_ref (o_spec e)])"

definition extension_host_ref_requests :: "extension \<Rightarrow> nsname list" where
  "extension_host_ref_requests e =
     (if ex_host_ref (o_spec e) = [] then [] else [(o_namespace e, ex_host_ref (o_spec e))])"

definition extension_le :: "extension \<Rightarrow> extension \<Rightarrow> bool" where
  "extension_le a b \<longleftrightarrow>
     (if ex_weight (o_spec a) \<noteq> ex_weight (o_spec b) then ex_weight (o_spec a) < ex_weight (o_spec b)
      else str_le (o_name a) (o_name b))"

type_synonym invalid_extension = "extension \<times> go_error"

text \<open>The guard of the loop, and the error of compiling the claim mappings.\<close>

definition is_candidate :: "host \<Rightarrow> ((string \<rightharpoonup> string) \<Rightarrow> bool) \<Rightarrow> extension \<Rightarrow> bool" where
  "is_candidate h matches e \<longleftrightarrow>
     \<not> (ex_host_ref (o_spec e) \<noteq> o_name h \<or> om_deleting (o_meta e) \<or> \<not> matches (om_labels (o_meta e)))"

definition mapping_error :: "env \<Rightarrow> extension \<Rightarrow> go_error option" where
  "mapping_error E e =
     (if ex_claim_mappings (o_spec e) \<noteq> [] then e_mapper_error E (ex_claim_mappings (o_spec e)) else None)"

fun split_candidates :: "env \<Rightarrow> host \<Rightarrow> ((string \<rightharpoonup> string) \<Rightarrow> bool) \<Rightarrow> extension list
    \<Rightarrow> extension list \<times> invalid_extension list" where
  "split_candidates E h matches [] = ([], [])"
| "split_candidates E h matches (e # es) =
     (let (matched, invalid) = split_candidates E h matches es
      in if \<not> is_candidate h matches e then (matched, invalid)
         else case mapping_error E e of
                Some err \<Rightarrow> (matched, (e, err) # invalid)
              | None \<Rightarrow> (e # matched, invalid))"

type_synonym selection = "extension list \<times> extension list \<times> invalid_extension list"

definition select_extensions :: "env \<Rightarrow> host \<Rightarrow> extension list \<Rightarrow> go_error + selection" where
  "select_extensions E h candidates =
     (case hs_extension_selector (o_spec h) of
        None \<Rightarrow> Inr ([], [], [])
      | Some selector \<Rightarrow>
          (case e_selector E selector of
             Inl err \<Rightarrow> Inl err
           | Inr matches \<Rightarrow>
               let (found, invalid) = split_candidates E h matches candidates;
                   matched = sort_by extension_le found
               in if length matched > max_host_extensions
                  then Inr (take max_host_extensions matched, drop max_host_extensions matched, invalid)
                  else Inr (matched, [], invalid)))"

section \<open>The host's side\<close>

definition to_host_extension :: "extension \<Rightarrow> host_extension" where
  "to_host_extension e = \<lparr>he_name = o_name e, he_generation = o_generation e,
     he_weight = ex_weight (o_spec e), he_claim_mappings = ex_claim_mappings (o_spec e),
     he_anonymous = ex_anonymous (o_spec e)\<rparr>"

definition extension_attr :: "extension \<Rightarrow> string" where
  "extension_attr e = o_name e @ extension_suffix"

definition drop_extension_attrs :: "obj_status \<Rightarrow> obj_status" where
  "drop_extension_attrs s = s\<lparr>attributes :=
     (\<lambda>a. if has_suffix a extension_suffix then None else attributes s a)\<rparr>"

definition record_extensions :: "extension list \<Rightarrow> obj_status \<Rightarrow> obj_status" where
  "record_extensions applied s =
     foldl (\<lambda>s e. set_attr (extension_attr e) (itoa (o_generation e)) s) s applied"

definition invalid_selector_error :: "go_error \<Rightarrow> go_error" where
  "invalid_selector_error err =
     (wrap_error ''invalid spec.extensionSelector'' err)\<lparr>err_bad_selector := True\<rparr>"

definition resolve_extensions :: "env \<Rightarrow> host \<Rightarrow> world
    \<Rightarrow> (go_error + host_extension list) \<times> host \<times> world" where
  "resolve_extensions E h w =
     (let w1 = log_call (ListObjs ''KDexHostExtension'' (o_name h)) w
      in case e_list_extensions E (calls w) (o_key h) of
           Inl err \<Rightarrow> (Inl err, h, w1)
         | Inr items \<Rightarrow>
             let h1 = upd_status drop_extension_attrs h
             in case select_extensions E h1 items of
                  Inl err \<Rightarrow> (Inl (invalid_selector_error err), h1, w1)
                | Inr (applied, overflow, invalid) \<Rightarrow>
                    (Inr (map to_host_extension applied),
                     upd_status (record_extensions applied) h1, w1))"

section \<open>The extension's side\<close>

definition contains_extension :: "extension list \<Rightarrow> string \<Rightarrow> bool" where
  "contains_extension es n \<longleftrightarrow> list_ex (\<lambda>e. o_name e = n) es"

fun invalid_err :: "invalid_extension list \<Rightarrow> string \<Rightarrow> go_error option" where
  "invalid_err [] n = None"
| "invalid_err ((e, err) # es) n = (if o_name e = n then Some err else invalid_err es n)"

text \<open>Status, reason and message of the \<open>Attached\<close> condition: the inner switch of \<open>Reconcile\<close>.\<close>

definition attachment :: "env \<Rightarrow> host \<Rightarrow> extension list \<Rightarrow> extension
    \<Rightarrow> cond_status \<times> string \<times> string" where
  "attachment E h siblings ext =
     (let hn = quoted (o_name h)
      in case select_extensions E h siblings of
           Inl err \<Rightarrow> (CondFalse, ''NotSelected'',
             ''KDexHost '' @ hn @ '' extensionSelector is invalid: '' @ err_text err)
         | Inr (applied, overflow, invalid) \<Rightarrow>
             if contains_extension applied (o_name ext) then
               (CondTrue, ''Attached'',
                ''applied to KDexHost '' @ hn @ '' at weight '' @ itoa (ex_weight (o_spec ext)))
             else if contains_extension overflow (o_name ext) then
               (CondFalse, ''LimitExceeded'', ''KDexHost '' @ hn @ '' already applies ''
                  @ itoa (int max_host_extensions) @ '' extensions'')
             else case invalid_err invalid (o_name ext) of
               Some err \<Rightarrow> (CondFalse, ''InvalidClaimMappings'',
                 ''claimMappings do not compile, so KDexHost '' @ hn
                   @ '' does not apply this extension: '' @ err_text err)
             | None \<Rightarrow>
                 if hs_extension_selector (o_spec h) = None then
                   (CondFalse, ''NotSelected'', ''KDexHost '' @ hn @ '' has no extensionSelector'')
                 else
                   (CondFalse, ''NotSelected'',
                    ''KDexHost '' @ hn @ '' extensionSelector does not select this extension''))"

definition attached_condition :: "extension \<Rightarrow> cond_status \<times> string \<times> string \<Rightarrow> condition" where
  "attached_condition ext v = (case v of (status, reason, message) \<Rightarrow>
     \<lparr>cond_type = ''Attached'', cond_value = status, cond_why = ReasonText reason,
      cond_message = message, cond_generation = o_generation ext, cond_transition = 0\<rparr>)"

type_synonym reconcile_result = "(ctrl_result \<times> go_error option) \<times> world"

definition patch_attached :: "env \<Rightarrow> extension \<Rightarrow> cond_status \<times> string \<times> string \<Rightarrow> world
    \<Rightarrow> reconcile_result" where
  "patch_attached E ext v w =
     (let st = o_status ext;
          st' = st\<lparr>conditions := e_set_condition E (calls w) (attached_condition ext v) (conditions st),
                   observed_generation := o_generation ext\<rparr>
      in ((no_result, e_patch_extension_status E (calls w) (o_key ext) st'),
          log_call (PatchExtensionStatus (o_key ext) st') w))"

definition reconcile_extension :: "env \<Rightarrow> nsname \<Rightarrow> world \<Rightarrow> reconcile_result" where
  "reconcile_extension E req w =
     (let w1 = log_call (Get ''KDexHostExtension'' req) w
      in case e_get_extension E (calls w) req of
           Inl err \<Rightarrow> ((no_result, ignore_not_found err), w1)
         | Inr ext \<Rightarrow>
             if om_deleting (o_meta ext) then ((no_result, None), w1)
             else
               let hk = (o_namespace ext, ex_host_ref (o_spec ext));
                   w2 = log_call (Get ''KDexHost'' hk) w1
               in case e_get_host E (calls w1) hk of
                    Inl err \<Rightarrow>
                      if is_not_found err then
                        patch_attached E ext (CondFalse, ''HostNotFound'',
                          ''KDexHost '' @ quoted (ex_host_ref (o_spec ext)) @ '' not found'') w2
                      else ((no_result, Some err), w2)
                  | Inr h \<Rightarrow>
                      let w3 = log_call (ListObjs ''KDexHostExtension'' (o_name h)) w2
                      in case e_list_extensions E (calls w2) (o_key h) of
                           Inl err \<Rightarrow> ((no_result, Some err), w3)
                         | Inr siblings \<Rightarrow> patch_attached E ext (attachment E h siblings ext) w3)"

definition extensions_naming :: "env \<Rightarrow> string \<Rightarrow> string \<Rightarrow> world \<Rightarrow> nsname list" where
  "extensions_naming E ns hostname w =
     (case e_list_extensions E (calls w) (ns, hostname) of
        Inl _ \<Rightarrow> [] | Inr items \<Rightarrow> map o_key items)"

definition extensions_for_host :: "env \<Rightarrow> object_meta \<Rightarrow> world \<Rightarrow> nsname list" where
  "extensions_for_host E m w = extensions_naming E (om_namespace m) (om_name m) w"

definition extensions_for_sibling :: "env \<Rightarrow> extension \<Rightarrow> world \<Rightarrow> nsname list" where
  "extensions_for_sibling E e w = extensions_naming E (o_namespace e) (ex_host_ref (o_spec e)) w"

section \<open>The contract of a selection\<close>

lemma total_preorder_extension [simp]: "total_preorder extension_le"
  using str_le_total str_le_trans
  by (auto simp: total_preorder_def extension_le_def split: if_splits)

lemma extension_le_antisym:
  "extension_le a b \<Longrightarrow> extension_le b a \<Longrightarrow> o_name a = o_name b"
  by (auto simp: extension_le_def split: if_splits dest: str_le_antisym)

definition valid_candidate :: "env \<Rightarrow> host \<Rightarrow> ((string \<rightharpoonup> string) \<Rightarrow> bool) \<Rightarrow> extension \<Rightarrow> bool" where
  "valid_candidate E h matches e \<longleftrightarrow> is_candidate h matches e \<and> mapping_error E e = None"

lemma split_candidates_eq:
  "split_candidates E h matches cs = (filter (valid_candidate E h matches) cs,
     map (\<lambda>e. (e, the (mapping_error E e)))
       (filter (\<lambda>e. is_candidate h matches e \<and> mapping_error E e \<noteq> None) cs))"
  by (induction cs) (auto simp: valid_candidate_def split: option.splits)

lemma select_extensions_eq:
  "select_extensions E h cs = (case hs_extension_selector (o_spec h) of None \<Rightarrow> Inr ([], [], [])
   | Some sel \<Rightarrow> (case e_selector E sel of Inl err \<Rightarrow> Inl err
     | Inr matches \<Rightarrow>
         let m = sort_by extension_le (filter (valid_candidate E h matches) cs)
         in Inr (take max_host_extensions m, drop max_host_extensions m,
              map (\<lambda>e. (e, the (mapping_error E e)))
                (filter (\<lambda>e. is_candidate h matches e \<and> mapping_error E e \<noteq> None) cs))))"
  by (simp add: select_extensions_def split_candidates_eq Let_def split: option.splits sum.splits)

locale extension_policy =
  fixes select :: "host \<Rightarrow> extension list \<Rightarrow> go_error + selection"
    and limit :: nat
  assumes within: "select h cs = Inr (applied, overflow, invalid)
      \<Longrightarrow> mset applied + mset overflow + mset (map fst invalid) \<subseteq># mset cs"
    and bounded: "select h cs = Inr (applied, overflow, invalid) \<Longrightarrow> length applied \<le> limit"
    and full: "select h cs = Inr (applied, overflow, invalid)
      \<Longrightarrow> overflow \<noteq> [] \<Longrightarrow> length applied = limit"
    and ordered: "select h cs = Inr (applied, overflow, invalid)
      \<Longrightarrow> sorted_wrt extension_le (applied @ overflow)"
begin

lemma listed:
  assumes "select h cs = Inr (applied, overflow, invalid)"
  shows "set applied \<union> set overflow \<union> fst ` set invalid \<subseteq> set cs"
  using set_mset_mono [OF within [OF assms]] by (simp add: Un_assoc)

lemma distinct_names:
  assumes "select h cs = Inr (applied, overflow, invalid)" "distinct (map o_name cs)"
  shows "distinct (map o_name (applied @ overflow @ map fst invalid))"
proof -
  have "mset (map o_name (applied @ overflow @ map fst invalid)) \<subseteq># mset (map o_name cs)"
    using image_mset_subseteq_mono [OF within [OF assms(1)], of o_name]
    by (simp add: add.assoc image_image flip: mset_map)
  then show ?thesis
    using assms(2) by (rule distinct_submset)
qed

lemma exclusive:
  assumes "select h cs = Inr (applied, overflow, invalid)" "distinct (map o_name cs)"
  shows "contains_extension applied n \<Longrightarrow> \<not> contains_extension overflow n"
    and "contains_extension applied n \<Longrightarrow> invalid_err invalid n = None"
proof -
  have inv: "invalid_err ies n = None \<longleftrightarrow> n \<notin> o_name ` fst ` set ies" for ies
  proof (induction ies)
    case (Cons x ies)
    then show ?case by (cases x) simp
  qed simp
  note d = distinct_names [OF assms]
  show "contains_extension applied n \<Longrightarrow> \<not> contains_extension overflow n"
    using d by (auto simp: contains_extension_def list_ex_iff)
  show "contains_extension applied n \<Longrightarrow> invalid_err invalid n = None"
    unfolding inv using d by (auto simp: contains_extension_def list_ex_iff image_image)
qed

lemma precedes:
  assumes "select h cs = Inr (applied, overflow, invalid)" "a \<in> set applied" "b \<in> set overflow"
  shows "extension_le a b"
  using ordered [OF assms(1)] assms(2,3) by (auto simp: sorted_wrt_append)

end

lemma select_extensions_subset:
  assumes "select_extensions E h cs = Inr (applied, overflow, invalid)"
  shows "mset applied + mset overflow + mset (map fst invalid) \<subseteq># mset cs"
proof -
  have td: "mset (take n xs) + mset (drop n xs) = mset xs" for n and xs :: "extension list"
    by (metis append_take_drop_id mset_append)
  have "filter_mset P M + filter_mset Q M \<subseteq># M" if "\<And>x. \<not> (P x \<and> Q x)"
    for P Q and M :: "extension multiset"
    using that by (induction M) (auto simp: subset_mset.add_mono intro: subset_mset.trans)
  then have sub: "filter_mset (valid_candidate E h m) (mset cs)
      + filter_mset (\<lambda>e. is_candidate h m e \<and> mapping_error E e \<noteq> None) (mset cs) \<subseteq># mset cs" for m
    by (simp add: valid_candidate_def)
  show ?thesis
  proof (cases "hs_extension_selector (o_spec h)")
    case None
    then show ?thesis using assms by (simp add: select_extensions_eq)
  next
    case (Some sel)
    then obtain m where m: "e_selector E sel = Inr m"
      using assms by (cases "e_selector E sel") (auto simp: select_extensions_eq)
    have "map fst invalid = filter (\<lambda>e. is_candidate h m e \<and> mapping_error E e \<noteq> None) cs"
      using assms Some m by (auto simp: select_extensions_eq Let_def comp_def)
    moreover have "mset applied + mset overflow = filter_mset (valid_candidate E h m) (mset cs)"
      using assms Some m by (auto simp: select_extensions_eq Let_def td)
    ultimately show ?thesis using sub [of m] by (simp only: mset_filter)
  qed
qed

interpretation policy: extension_policy "select_extensions E" max_host_extensions for E
proof unfold_locales
  fix h cs applied overflow invalid
  assume sel: "select_extensions E h cs = Inr (applied, overflow, invalid)"
  show "mset applied + mset overflow + mset (map fst invalid) \<subseteq># mset cs"
    by (rule select_extensions_subset [OF sel])
  show "length applied \<le> max_host_extensions"
    using sel by (auto simp: select_extensions_eq Let_def split: option.splits sum.splits)
  show "sorted_wrt extension_le (applied @ overflow)"
    using sel by (auto simp: select_extensions_eq Let_def sorted_sort_by split: option.splits sum.splits)
  show "overflow \<noteq> [] \<Longrightarrow> length applied = max_host_extensions"
    using sel by (auto simp: select_extensions_eq Let_def split: option.splits sum.splits)
qed

section \<open>Facts about the attributes\<close>

lemma record_extensions_sel [simp]:
  "conditions (record_extensions es s) = conditions s"
  "observed_generation (record_extensions es s) = observed_generation s"
  by (induction es arbitrary: s) (simp_all add: record_extensions_def)

lemma extension_attr_inject [simp]:
  "extension_attr e = n @ extension_suffix \<longleftrightarrow> o_name e = n"
  "n @ extension_suffix = extension_attr e \<longleftrightarrow> n = o_name e"
  by (auto simp: extension_attr_def)

lemma extension_attr_suffix [simp]: "has_suffix (extension_attr e) extension_suffix"
  by (simp add: extension_attr_def)

lemma record_extensions_other:
  "\<not> has_suffix a extension_suffix \<Longrightarrow> attributes (record_extensions es s) a = attributes s a"
  by (induction es arbitrary: s) (auto simp: record_extensions_def)

lemma record_extensions_absent:
  "n \<notin> o_name ` set es
   \<Longrightarrow> attributes (record_extensions es s) (n @ extension_suffix) = attributes s (n @ extension_suffix)"
  by (induction es arbitrary: s) (auto simp: record_extensions_def)

lemma record_extensions_present:
  "distinct (map o_name es) \<Longrightarrow> e \<in> set es
   \<Longrightarrow> attributes (record_extensions es s) (extension_attr e) = Some (itoa (o_generation e))"
proof (induction es arbitrary: s)
  case (Cons x es)
  let ?s = "set_attr (extension_attr x) (itoa (o_generation x)) s"
  have step: "record_extensions (x # es) s = record_extensions es ?s"
    by (simp add: record_extensions_def)
  show ?case
  proof (cases "e = x")
    case True
    then have "o_name e \<notin> o_name ` set es" using Cons.prems(1) by auto
    from record_extensions_absent [OF this, of ?s] True show ?thesis
      by (simp add: step extension_attr_def)
  next
    case False
    then show ?thesis using Cons by (simp add: step)
  qed
qed simp

section \<open>Properties\<close>

text \<open>
  C7. What a host applies: of the candidates that name it, are live, match its selector and
  whose claim mappings compile, the first 32 by weight and then name; the rest overflow. A
  candidate that does not compile is reported as invalid and takes no slot.
\<close>
theorem select_extensions_spec:
  assumes "hs_extension_selector (o_spec h) = Some sel" "e_selector E sel = Inr matches"
    and "select_extensions E h cs = Inr (applied, overflow, invalid)"
  shows "mset applied + mset overflow = filter_mset (valid_candidate E h matches) (mset cs)
    \<and> map fst invalid = filter (\<lambda>e. is_candidate h matches e \<and> mapping_error E e \<noteq> None) cs
    \<and> sorted_wrt extension_le (applied @ overflow)
    \<and> length applied \<le> 32 \<and> (overflow \<noteq> [] \<longrightarrow> length applied = 32)"
proof -
  note p = policy.ordered [OF assms(3)] policy.bounded [OF assms(3)] policy.full [OF assms(3)]
  have "map fst invalid = filter (\<lambda>e. is_candidate h matches e \<and> mapping_error E e \<noteq> None) cs"
    and "applied @ overflow = sort_by extension_le (filter (valid_candidate E h matches) cs)"
    using assms by (auto simp: select_extensions_eq Let_def comp_def)
  moreover from this(2) have "mset applied + mset overflow = filter_mset (valid_candidate E h matches) (mset cs)"
    by (metis mset_append mset_filter mset_sort_by)
  ultimately show ?thesis using p by (simp add: max_host_extensions_def)
qed

definition sample_extension :: "string \<Rightarrow> int \<Rightarrow> extension" where
  "sample_extension n wt = sample_obj ''ns'' n
     \<lparr>ex_host_ref = ''h'', ex_weight = wt, ex_claim_mappings = [], ex_anonymous = []\<rparr>"

definition sample_selecting_host :: host where
  "sample_selecting_host = sample_obj ''ns'' ''h'' (sample_host_spec\<lparr>hs_extension_selector := Some ''all''\<rparr>)"

lemma sample_extension_sel [simp]:
  "o_name (sample_extension n wt) = n" "ex_weight (o_spec (sample_extension n wt)) = wt"
  "o_generation (sample_extension n wt) = 1" "\<not> om_deleting (o_meta (sample_extension n wt))"
  "ex_host_ref (o_spec (sample_extension n wt)) = ''h''"
  "mapping_error E (sample_extension n wt) = None"
  "ex_claim_mappings (o_spec (sample_extension n wt)) = []"
  "o_key (sample_extension n wt) = (''ns'', n)" "o_namespace (sample_extension n wt) = ''ns''"
  by (simp_all add: sample_extension_def sample_obj_def sample_meta_def mapping_error_def key_of_def)

lemma sample_selecting_host_sel [simp]:
  "o_name sample_selecting_host = ''h''" "o_key sample_selecting_host = (''ns'', ''h'')"
  "o_namespace sample_selecting_host = ''ns''"
  "hs_extension_selector (o_spec sample_selecting_host) = Some ''all''"
  "o_status sample_selecting_host = empty_status"
  by (simp_all add: sample_selecting_host_def sample_obj_def sample_meta_def key_of_def)

lemma sample_selection:
  "select_extensions sample_env sample_selecting_host [sample_extension ''b'' 5, sample_extension ''a'' 7]
     = Inr ([sample_extension ''b'' 5, sample_extension ''a'' 7], [], [])"
  by (simp add: select_extensions_def is_candidate_def extension_le_def max_host_extensions_def Let_def)

theorem select_extensions_spec_witness:
  "length [sample_extension ''b'' 5, sample_extension ''a'' 7] \<le> 32
   \<and> sorted_wrt extension_le ([sample_extension ''b'' 5, sample_extension ''a'' 7] @ [])"
proof -
  have sel: "e_selector sample_env ''all'' = Inr (\<lambda>_. True)" by simp
  from select_extensions_spec [OF _ sel sample_selection] show ?thesis by simp
qed

text \<open>
  The listing order does not matter: two listings of the same extensions, with distinct
  names, lead to the same applied and overflowing extensions and the same invalid ones.
\<close>
theorem select_extensions_ignores_listing_order:
  assumes "mset cs = mset cs'" "distinct (map o_name cs)"
    and "select_extensions E h cs = Inr (applied, overflow, invalid)"
  shows "\<exists>invalid'. select_extensions E h cs' = Inr (applied, overflow, invalid')
    \<and> mset invalid' = mset invalid"
proof -
  have same: "sort_by extension_le (filter P cs') = sort_by extension_le (filter P cs)" for P
  proof (rule sort_by_unique [OF total_preorder_extension])
    show "sorted_wrt extension_le (sort_by extension_le (filter P cs'))"
      by (simp add: sorted_sort_by)
    show "mset (sort_by extension_le (filter P cs')) = mset (filter P cs)" using assms(1) by simp
    fix x y assume "x \<in> set (filter P cs)" "y \<in> set (filter P cs)" "extension_le x y" "extension_le y x"
    then show "x = y" using assms(2) extension_le_antisym [of x y]
      by (auto simp: distinct_map inj_on_def)
  qed
  have "mset (map f (filter Q cs')) = mset (map f (filter Q cs))" for f :: "extension \<Rightarrow> invalid_extension" and Q
    using assms(1) by simp
  then show ?thesis using assms(3)
    by (auto simp: select_extensions_eq same Let_def split: option.splits sum.splits)
qed

theorem select_extensions_ignores_listing_order_witness:
  "\<exists>invalid'. select_extensions sample_env sample_selecting_host
       [sample_extension ''a'' 7, sample_extension ''b'' 5]
     = Inr ([sample_extension ''b'' 5, sample_extension ''a'' 7], [], invalid') \<and> mset invalid' = mset []"
  by (rule select_extensions_ignores_listing_order [OF _ _ sample_selection]) simp_all

text \<open>
  C8. What the host records. When the extensions resolve, the internal host carries exactly the
  applied ones in order, and the host's status records the generation of exactly those; every
  other attribute is left alone. A selector that does not parse fails closed: the error is the
  one the reconciler recognises and no extension generation is left.
\<close>
theorem resolve_extensions_records:
  assumes "e_list_extensions E (calls w) (o_key h) = Inr items" "distinct (map o_name items)"
    and "resolve_extensions E h w = (res, h', w')"
  shows "(case select_extensions E h items of
      Inr (applied, overflow, invalid) \<Rightarrow> res = Inr (map to_host_extension applied)
        \<and> (\<forall>n. attributes (o_status h') (n @ extension_suffix)
              = map_of (map (\<lambda>e. (o_name e, itoa (o_generation e))) applied) n)
    | Inl err \<Rightarrow> (\<exists>e. res = Inl e \<and> err_bad_selector e)
        \<and> (\<forall>n. attributes (o_status h') (n @ extension_suffix) = None))
    \<and> (\<forall>a. \<not> has_suffix a extension_suffix \<longrightarrow> attributes (o_status h') a = attributes (o_status h) a)
    \<and> o_meta h' = o_meta h \<and> o_spec h' = o_spec h \<and> conditions (o_status h') = conditions (o_status h)"
proof -
  let ?h1 = "upd_status drop_extension_attrs h"
  have sel: "select_extensions E ?h1 items = select_extensions E h items"
    by (simp add: select_extensions_eq valid_candidate_def [abs_def] is_candidate_def
        split: option.splits sum.splits)
  have drop: "attributes (drop_extension_attrs st) (n @ extension_suffix) = None"
    "\<not> has_suffix a extension_suffix \<Longrightarrow> attributes (drop_extension_attrs st) a = attributes st a"
    "conditions (drop_extension_attrs st) = conditions st" for n a st
    by (simp_all add: drop_extension_attrs_def)
  show ?thesis
  proof (cases "select_extensions E h items")
    case (Inl err)
    then show ?thesis using assms(1,3) sel drop
      by (auto simp: resolve_extensions_def invalid_selector_error_def Let_def)
  next
    case (Inr s)
    obtain applied overflow invalid where s: "s = (applied, overflow, invalid)" by (metis prod_cases3)
    with Inr have run: "res = Inr (map to_host_extension applied)"
      "h' = upd_status (record_extensions applied) ?h1"
      using assms(1,3) sel by (auto simp: resolve_extensions_def Let_def)
    have "distinct (map o_name applied)"
      using policy.distinct_names [OF Inr [unfolded s] assms(2)] by simp
    then have present: "attributes (record_extensions applied st) (n @ extension_suffix)
        = map_of (map (\<lambda>e. (o_name e, itoa (o_generation e))) applied) n"
      if "attributes st (n @ extension_suffix) = None" for n st
    proof (cases "n \<in> o_name ` set applied")
      case True
      then obtain e where e: "e \<in> set applied" "n = o_name e" by blast
      then show ?thesis using record_extensions_present \<open>distinct (map o_name applied)\<close>
        by (simp add: map_of_eq_Some_iff comp_def flip: extension_attr_def)
    next
      case False
      then show ?thesis using that
        by (simp add: record_extensions_absent map_of_eq_None_iff [THEN iffD2] image_image)
    qed
    show ?thesis
      using Inr s run present drop record_extensions_other by auto
  qed
qed

theorem resolve_extensions_records_witness:
  "\<exists>h' w'. resolve_extensions (sample_env\<lparr>e_list_extensions := (\<lambda>_ _. Inr [sample_extension ''a'' 7])\<rparr>)
      sample_selecting_host start_world = (Inr [to_host_extension (sample_extension ''a'' 7)], h', w')
    \<and> attributes (o_status h') ''a.extension.generation'' = Some (itoa 1)"
proof -
  let ?E = "sample_env\<lparr>e_list_extensions := (\<lambda>_ _. Inr [sample_extension ''a'' 7])\<rparr>"
  obtain res h' w' where run: "resolve_extensions ?E sample_selecting_host start_world = (res, h', w')"
    by (metis prod_cases3)
  have sel: "select_extensions ?E sample_selecting_host [sample_extension ''a'' 7]
      = Inr ([sample_extension ''a'' 7], [], [])"
    by (simp add: select_extensions_def is_candidate_def max_host_extensions_def Let_def)
  have r: "res = Inr [to_host_extension (sample_extension ''a'' 7)]
      \<and> (\<forall>n. attributes (o_status h') (n @ extension_suffix) = (map_of [(''a'', itoa 1)]) n)"
    using resolve_extensions_records [OF _ _ run, of "[sample_extension ''a'' 7]"] by (simp add: sel)
  from r [THEN conjunct2, THEN spec, of "''a''"] r have
    "res = Inr [to_host_extension (sample_extension ''a'' 7)]"
    "attributes (o_status h') (''a'' @ extension_suffix) = Some (itoa 1)" by simp_all
  then show ?thesis using run by (simp add: extension_suffix_def)
qed

text \<open>
  C9. The two reconcilers agree: where both see the same host and the same listing of
  extensions, the status that is written says \<open>Attached=True\<close> exactly when the extension is
  among those the host resolves into its internal host.
\<close>
theorem attached_iff_applied:
  assumes "e_get_extension E (calls w) req = Inr ext" "\<not> om_deleting (o_meta ext)"
    and "\<And>cs k. e_get_host E cs k = Inr h" "\<And>cs k. e_list_extensions E cs k = Inr items"
    and "reconcile_extension E req w = (out, w')"
    and "resolve_extensions E h w2 = (res, h', w3)"
  shows "\<exists>c st. last (calls w') = PatchExtensionStatus (o_key ext) st
    \<and> (\<exists>cs. conditions st = e_set_condition E cs c (conditions (o_status ext)))
    \<and> cond_type c = ''Attached'' \<and> cond_generation c = o_generation ext
    \<and> (cond_value c = CondTrue \<longleftrightarrow>
        (\<exists>exts. res = Inr exts \<and> he_name ` set exts \<inter> {o_name ext} \<noteq> {}))"
proof -
  let ?v = "attachment E h items ext"
  have last: "\<exists>st cs. last (calls w') = PatchExtensionStatus (o_key ext) st
      \<and> conditions st = e_set_condition E cs (attached_condition ext ?v) (conditions (o_status ext))"
    using assms(1-5) by (auto simp: reconcile_extension_def patch_attached_def Let_def)
  have sel: "select_extensions E (upd_status drop_extension_attrs h) items = select_extensions E h items"
    by (simp add: select_extensions_eq valid_candidate_def [abs_def] is_candidate_def
        split: option.splits sum.splits)
  have "cond_value (attached_condition ext ?v) = CondTrue \<longleftrightarrow>
      (\<exists>exts. res = Inr exts \<and> he_name ` set exts \<inter> {o_name ext} \<noteq> {})"
  proof (cases "select_extensions E h items")
    case (Inl err)
    then show ?thesis using assms(4,6) sel
      by (auto simp: attachment_def attached_condition_def resolve_extensions_def Let_def)
  next
    case (Inr s)
    obtain applied overflow invalid where s: "s = (applied, overflow, invalid)" by (metis prod_cases3)
    have res: "res = Inr (map to_host_extension applied)"
      using Inr s assms(4,6) sel by (auto simp: resolve_extensions_def Let_def)
    have "cond_value (attached_condition ext ?v) = CondTrue
        \<longleftrightarrow> contains_extension applied (o_name ext)"
      using Inr s by (auto simp: attachment_def attached_condition_def Let_def split: option.splits)
    also have "\<dots> \<longleftrightarrow> o_name ext \<in> he_name ` set (map to_host_extension applied)"
      by (simp add: contains_extension_def list_ex_iff to_host_extension_def image_iff)
        (metis)
    finally show ?thesis using res by auto
  qed
  moreover have "cond_type (attached_condition ext ?v) = ''Attached''"
    "cond_generation (attached_condition ext ?v) = o_generation ext"
    by (simp_all add: attached_condition_def split: prod.splits)
  ultimately show ?thesis using last by blast
qed

theorem attached_iff_applied_witness:
  "\<exists>w' st (c :: condition). snd (reconcile_extension (sample_env\<lparr>e_get_extension := (\<lambda>_ _. Inr (sample_extension ''a'' 7)),
        e_get_host := (\<lambda>_ _. Inr sample_selecting_host),
        e_list_extensions := (\<lambda>_ _. Inr [sample_extension ''a'' 7])\<rparr>) (''ns'', ''a'') start_world) = w'
     \<and> last (calls w') = PatchExtensionStatus (''ns'', ''a'') st \<and> cond_value c = CondTrue"
proof -
  let ?E = "sample_env\<lparr>e_get_extension := (\<lambda>_ _. Inr (sample_extension ''a'' 7)),
        e_get_host := (\<lambda>_ _. Inr sample_selecting_host),
        e_list_extensions := (\<lambda>_ _. Inr [sample_extension ''a'' 7])\<rparr>"
  obtain out w' where run: "reconcile_extension ?E (''ns'', ''a'') start_world = (out, w')"
    by (metis surj_pair)
  obtain res h' w3 where host: "resolve_extensions ?E sample_selecting_host start_world = (res, h', w3)"
    by (metis prod_cases3)
  have "res = Inr [to_host_extension (sample_extension ''a'' 7)]"
    using host by (auto simp: resolve_extensions_def select_extensions_def is_candidate_def
        max_host_extensions_def Let_def)
  then have yes: "\<exists>exts. res = Inr exts \<and> he_name ` set exts \<inter> {o_name (sample_extension ''a'' 7)} \<noteq> {}"
    by (simp add: to_host_extension_def)
  have "\<exists>c st. last (calls w') = PatchExtensionStatus (o_key (sample_extension ''a'' 7)) st
    \<and> (\<exists>cs. conditions st = e_set_condition ?E cs c (conditions (o_status (sample_extension ''a'' 7))))
    \<and> cond_type c = ''Attached'' \<and> cond_generation c = o_generation (sample_extension ''a'' 7)
    \<and> (cond_value c = CondTrue \<longleftrightarrow> (\<exists>exts. res = Inr exts
         \<and> he_name ` set exts \<inter> {o_name (sample_extension ''a'' 7)} \<noteq> {}))"
    by (rule attached_iff_applied [OF _ _ _ _ run host]) simp_all
  then obtain c :: condition and st where "last (calls w') = PatchExtensionStatus (o_key (sample_extension ''a'' 7)) st"
    "cond_value c = CondTrue \<longleftrightarrow> (\<exists>exts. res = Inr exts
         \<and> he_name ` set exts \<inter> {o_name (sample_extension ''a'' 7)} \<noteq> {})"
    by (elim exE conjE) (rule that, assumption, assumption)
  then show ?thesis using run yes by (intro exI [of _ w'] exI [of _ st] exI [of _ c]) simp
qed

end
