(* ===== verification/UtilityPages.thy ===== *)
theory UtilityPages
  imports Translations
begin

text \<open>
  The utility pages of a host (\<open>internal/controller/kdexhost_controller_util.go\<close>, from
  \<open>utilityPageTypes\<close> on, and \<open>createOrUpdateInternalUtilityPage\<close>): the reference used for each
  type, the internal copy written for it, and the deletion of a stale consent page.
\<close>

section \<open>References\<close>

definition utility_page_types :: "utility_page_type list" where
  "utility_page_types = [Announcement, Consent, ErrorPage, Login]"

text \<open>\<open>strings.ToLower(string(pageType))\<close>\<close>

fun page_type_lower :: "utility_page_type \<Rightarrow> string" where
  "page_type_lower Announcement = ''announcement''"
| "page_type_lower Consent = ''consent''"
| "page_type_lower ErrorPage = ''error''"
| "page_type_lower Login = ''login''"

lemma page_type_lower_inject [simp]: "page_type_lower a = page_type_lower b \<longleftrightarrow> a = b"
  by (cases a; cases b) simp_all

fun default_page_name :: "utility_page_type \<Rightarrow> string" where
  "default_page_name Announcement = ''kdex-default-utility-page-announcement''"
| "default_page_name Consent = ''kdex-default-utility-page-consent''"
| "default_page_name ErrorPage = ''kdex-default-utility-page-error''"
| "default_page_name Login = ''kdex-default-utility-page-login''"

definition default_consent_ref :: obj_ref where
  "default_consent_ref = \<lparr>ref_kind = ''KDexClusterUtilityPage'',
     ref_name = default_page_name Consent, ref_namespace = []\<rparr>"

definition stored_utility_page_ref :: "host \<Rightarrow> utility_page_type \<Rightarrow> obj_ref option" where
  "stored_utility_page_ref h t =
     (case hs_utility_pages (o_spec h) of
        None \<Rightarrow> None
      | Some p \<Rightarrow> (case t of Announcement \<Rightarrow> upr_announcement p | Consent \<Rightarrow> upr_consent p
                          | ErrorPage \<Rightarrow> upr_error p | Login \<Rightarrow> upr_login p))"

definition utility_page_ref :: "host \<Rightarrow> utility_page_type \<Rightarrow> obj_ref option" where
  "utility_page_ref h t =
     (let ref = stored_utility_page_ref h t
      in if ref = None \<and> t = Consent then Some default_consent_ref else ref)"

definition is_default_utility_page :: "obj_ref \<Rightarrow> bool" where
  "is_default_utility_page ref \<longleftrightarrow> ref_name ref = default_page_name Announcement
     \<or> ref_name ref = default_page_name Consent \<or> ref_name ref = default_page_name ErrorPage
     \<or> ref_name ref = default_page_name Login"

definition generation_attribute :: "utility_page_type \<Rightarrow> string" where
  "generation_attribute t = page_type_lower t @ ''.utilitypage.generation''"

definition internal_page_name :: "host \<Rightarrow> utility_page_type \<Rightarrow> string" where
  "internal_page_name h t = o_name h @ ''-'' @ page_type_lower t"

section \<open>Writing and deleting the internal page\<close>

fun page_type_text :: "utility_page_type \<Rightarrow> string" where
  "page_type_text Announcement = ''Announcement''"
| "page_type_text Consent = ''Consent''"
| "page_type_text ErrorPage = ''Error''"
| "page_type_text Login = ''Login''"

definition mutate_internal_page :: "env \<Rightarrow> host \<Rightarrow> utility_page_spec \<Rightarrow> utility_page_type \<Rightarrow> int
    \<Rightarrow> internal_utility_page \<Rightarrow> go_error + internal_utility_page" where
  "mutate_internal_page E h spec t gen iu =
     (let m = (if om_created (o_meta iu) = 0
               then (let i = inherit_meta h (o_meta iu)
                     in i\<lparr>om_labels := (om_labels i)(''kdex.dev/utility-page-type'' \<mapsto> page_type_text t)\<rparr>)
               else o_meta iu);
          m' = m\<lparr>om_labels := (om_labels m)(''kdex.dev/generation'' \<mapsto> itoa gen)\<rparr>
      in case e_set_controller E (o_meta h) m' of
           Inl err \<Rightarrow> Inl err
         | Inr m'' \<Rightarrow> Inr (iu\<lparr>o_meta := m'', o_spec := \<lparr>iu_spec = spec, iu_host_ref = o_name h\<rparr>\<rparr>))"

definition create_or_update_internal_page :: "env \<Rightarrow> host \<Rightarrow> utility_page_spec \<Rightarrow> utility_page_type
    \<Rightarrow> int \<Rightarrow> world \<Rightarrow> (go_error + string) \<times> world" where
  "create_or_update_internal_page E h spec t gen w =
     (let key = (o_namespace h, internal_page_name h t);
          res = e_write_internal_page E (calls w) key (mutate_internal_page E h spec t gen);
          w1 = log_call (WriteInternalUtilityPage key (case res of Inl _ \<Rightarrow> None | Inr iu \<Rightarrow> Some iu)) w
      in case res of
           Inl err \<Rightarrow> (Inl err, w1)
         | Inr iu \<Rightarrow>
             let w2 = log_call (Get ''KDexInternalUtilityPage'' (o_key iu)) w1
             in (Inr (internal_page_name h t),
                 case e_get_internal_page E (calls w1) (o_key iu) of
                   Inl _ \<Rightarrow> w2
                 | Inr latest \<Rightarrow> log_call (PatchStatus ''KDexInternalUtilityPage'' (o_key latest)
                     (set_attr ''utilitypage.generation'' (itoa gen) (o_status latest))) w2))"

definition delete_internal_page :: "env \<Rightarrow> host \<Rightarrow> utility_page_type \<Rightarrow> world
    \<Rightarrow> go_error option \<times> host \<times> world" where
  "delete_internal_page E h t w =
     (let h1 = upd_status (del_attr (generation_attribute t)) h;
          key = (o_namespace h, internal_page_name h t);
          w1 = log_call (Get ''KDexInternalUtilityPage'' key) w
      in case e_get_internal_page E (calls w) key of
           Inl err \<Rightarrow> (ignore_not_found err, h1, w1)
         | Inr existing \<Rightarrow>
             if om_deleting (o_meta existing) \<or> \<not> is_controlled_by (o_meta existing) (o_meta h)
             then (None, h1, w1)
             else ((case e_delete E (calls w1) ''KDexInternalUtilityPage'' (o_key existing) of
                      None \<Rightarrow> None | Some err \<Rightarrow> ignore_not_found err),
                   h1, log_call (Delete ''KDexInternalUtilityPage'' (o_key existing)) w1))"

section \<open>One page\<close>

record page_outcome =
  po_ref :: "string option"
  po_unresolved :: bool
  po_result :: ctrl_result
  po_resolve_err :: "go_error option"
  po_write_err :: "go_error option"

definition page_absent :: page_outcome where
  "page_absent = \<lparr>po_ref = None, po_unresolved = False, po_result = no_result,
     po_resolve_err = None, po_write_err = None\<rparr>"

fun page_spec_of :: "kdex_spec \<Rightarrow> utility_page_spec option" where
  "page_spec_of (KDexUtilityPage s) = Some s"
| "page_spec_of (KDexClusterUtilityPage s) = Some s"
| "page_spec_of _ = None"

text \<open>
  An object of another Go type leaves the zero spec, whose type is the empty string and so no
  requested type.
\<close>

definition mismatch_error :: "utility_page_spec option \<Rightarrow> utility_page_type \<Rightarrow> go_error" where
  "mismatch_error s t = plain_error (''utility page type '' @
     (case s of None \<Rightarrow> [] | Some s \<Rightarrow> page_type_text (up_type s)) @
     '' does not match requested type '' @ page_type_text t)"

definition resolve_utility_page :: "env \<Rightarrow> host \<Rightarrow> utility_page_type \<Rightarrow> obj_ref option \<Rightarrow> world
    \<Rightarrow> page_outcome \<times> host \<times> world" where
  "resolve_utility_page E h t ref w =
     (let (r, h1, w1) = host_resolve_ref E h ref w
      in if res_return r \<and> \<not> is_default_utility_page (the ref) then
           (page_absent\<lparr>po_unresolved := True, po_result := res_result r, po_resolve_err := res_err r\<rparr>, h1, w1)
         else case res_value r of
           None \<Rightarrow> (page_absent, h1, w1)
         | Some ob \<Rightarrow>
             (let spec = page_spec_of (o_spec ob)
              in if map_option up_type spec \<noteq> Some t then
                   (page_absent\<lparr>po_unresolved := True, po_resolve_err := Some (mismatch_error spec t)\<rparr>, h1, w1)
                 else case create_or_update_internal_page E h1 (the spec) t (o_generation ob) w1 of
                        (Inl err, w2) \<Rightarrow> (page_absent\<lparr>po_write_err := Some err\<rparr>, h1, w2)
                      | (Inr name, w2) \<Rightarrow>
                          (page_absent\<lparr>po_ref := Some name\<rparr>,
                           put_attr (generation_attribute t) (itoa (o_generation ob)) h1, w2)))"

section \<open>All the pages of a host\<close>

record unresolved_page =
  un_message :: string
  un_requeue :: ctrl_result

record pages_result =
  pr_refs :: "utility_page_type \<rightharpoonup> string"
  pr_consent :: "unresolved_page option"
  pr_return :: bool
  pr_result :: ctrl_result
  pr_err :: "go_error option"

definition pages_stop :: "ctrl_result \<Rightarrow> go_error option \<Rightarrow> pages_result" where
  "pages_stop r e = \<lparr>pr_refs = Map.empty, pr_consent = None, pr_return = True, pr_result = r, pr_err = e\<rparr>"

definition unresolved_message :: "obj_ref \<Rightarrow> go_error option \<Rightarrow> string" where
  "unresolved_message ref err =
     ''consentRef '' @ ref_kind ref @ ''/'' @ ref_name ref
     @ '' did not resolve; serving the built-in consent page''
     @ (case err of None \<Rightarrow> [] | Some e \<Rightarrow> '': '' @ err_text e)"

fun resolve_pages_from :: "env \<Rightarrow> host \<Rightarrow> utility_page_type list \<Rightarrow> (utility_page_type \<rightharpoonup> string)
    \<Rightarrow> unresolved_page option \<Rightarrow> world \<Rightarrow> pages_result \<times> host \<times> world" where
  "resolve_pages_from E h [] refs consent w =
     (\<lparr>pr_refs = refs, pr_consent = consent, pr_return = False, pr_result = no_result, pr_err = None\<rparr>, h, w)"
| "resolve_pages_from E h (t # ts) refs consent w =
     (let ref = utility_page_ref h t;
          (out, h1, w1) = resolve_utility_page E h t ref w
      in case po_write_err out of
           Some err \<Rightarrow> (pages_stop no_result (Some err), h1, w1)
         | None \<Rightarrow>
             if po_unresolved out \<and> t \<noteq> Consent then
               (pages_stop (po_result out) (po_resolve_err out), h1, w1)
             else
               let consent1 = (if po_unresolved out
                     then Some \<lparr>un_message = unresolved_message (the ref) (po_resolve_err out),
                                un_requeue = po_result out\<rparr> else consent)
               in case po_ref out of
                    Some name \<Rightarrow> resolve_pages_from E h1 ts (refs(t \<mapsto> name)) consent1 w1
                  | None \<Rightarrow>
                      if t = Consent then
                        (case delete_internal_page E h1 t w1 of
                           (Some err, h2, w2) \<Rightarrow> (pages_stop no_result (Some err), h2, w2)
                         | (None, h2, w2) \<Rightarrow> resolve_pages_from E h2 ts refs consent1 w2)
                      else resolve_pages_from E h1 ts refs consent1 w1)"

definition resolve_utility_pages :: "env \<Rightarrow> host \<Rightarrow> world \<Rightarrow> pages_result \<times> host \<times> world" where
  "resolve_utility_pages E h w = resolve_pages_from E h utility_page_types Map.empty None w"

section \<open>The watch of the default page\<close>

definition default_consent_page_requests :: "env \<Rightarrow> string \<Rightarrow> world \<Rightarrow> nsname list" where
  "default_consent_page_requests E changed_name w =
     (if changed_name \<noteq> default_page_name Consent then []
      else case e_list_hosts E (calls w) of
             Inl _ \<Rightarrow> []
           | Inr hosts \<Rightarrow> map o_key (filter (\<lambda>h. stored_utility_page_ref h Consent = None) hosts))"

section \<open>Facts about one page\<close>

lemma host_resolve_ref_frame:
  assumes "host_resolve_ref E h ref w = (r, h', w')"
  shows "o_meta h' = o_meta h" "o_spec h' = o_spec h"
    "attributes (o_status h') = attributes (o_status h)" "extends is_read w w'"
  using assms ref.extends_reads by (auto simp: host_resolve_ref_def split: prod.splits)

lemma mutate_internal_pageD:
  assumes "lawful_writes E" "mutate_internal_page E h spec t gen old = Inr iu"
  shows "o_key iu = o_key old" "iu_spec (o_spec iu) = spec" "iu_host_ref (o_spec iu) = o_name h"
    "is_controlled_by (o_meta iu) (o_meta h)"
  using assms(2)
  by (auto simp: mutate_internal_page_def inherit_meta_def key_of_def
      is_controlled_by_def Let_def split: sum.splits if_splits dest!: lawful_controller [OF assms(1)])

text \<open>A written page in the log: its key, spec and owner.\<close>

lemma create_page_write:
  assumes "lawful_writes E" "create_or_update_internal_page E h spec t gen w = (res, w')"
    and "WriteInternalUtilityPage k (Some iu) \<in> set (calls w')"
    and "WriteInternalUtilityPage k (Some iu) \<notin> set (calls w)"
  shows "k = (o_namespace h, internal_page_name h t) \<and> o_key iu = k \<and> iu_spec (o_spec iu) = spec
    \<and> iu_host_ref (o_spec iu) = o_name h \<and> is_controlled_by (o_meta iu) (o_meta h)"
proof -
  have "k = (o_namespace h, internal_page_name h t)"
    and "e_write_internal_page E (calls w) (o_namespace h, internal_page_name h t)
      (mutate_internal_page E h spec t gen) = Inr iu"
    using assms(2-4) by (auto simp: create_or_update_internal_page_def Let_def split: sum.splits)
  moreover from this(2) obtain old where "o_key old = (o_namespace h, internal_page_name h t)"
    and "mutate_internal_page E h spec t gen old = Inr iu"
    using assms(1) unfolding lawful_writes_def by blast
  ultimately show ?thesis using mutate_internal_pageD [OF assms(1)] by metis
qed

text \<open>The outcomes of one page, with what each leaves in the status and in the log.\<close>

lemma resolve_page_frame:
  assumes "resolve_utility_page E h t ref w = (out, h', w')"
  shows "o_meta h' = o_meta h" "o_spec h' = o_spec h"
    "\<exists>cs. calls w' = calls w @ cs"
    "active_ops w' = active_ops w" "helm_clients w' = helm_clients w"
proof -
  obtain r h1 w1 where r: "host_resolve_ref E h ref w = (r, h1, w1)" by (metis prod_cases3)
  note f = host_resolve_ref_frame [OF r]
  show "o_meta h' = o_meta h" "o_spec h' = o_spec h"
    using assms f r
    by (auto simp: resolve_utility_page_def Let_def split: if_splits option.splits sum.splits prod.splits)
  have c: "\<exists>cs. calls w2 = calls w1 @ cs" "active_ops w2 = active_ops w1" "helm_clients w2 = helm_clients w1"
    if "create_or_update_internal_page E g spec t gen w1 = (x, w2)" for x w2 spec gen g
    using that by (auto simp: create_or_update_internal_page_def Let_def split: sum.splits)
  have w1: "\<exists>cs. calls w1 = calls w @ cs" "active_ops w1 = active_ops w" "helm_clients w1 = helm_clients w"
    using f(4) by (auto simp: extends_def)
  have "w' = w1 \<or> (\<exists>g spec gen x. create_or_update_internal_page E g spec t gen w1 = (x, w'))"
    using assms r
    by (auto simp: resolve_utility_page_def Let_def split: if_splits option.splits sum.splits prod.splits)
  then show "\<exists>cs. calls w' = calls w @ cs" "active_ops w' = active_ops w" "helm_clients w' = helm_clients w"
    using c w1 by (metis append_assoc)+
qed

lemma resolve_page_writes:
  assumes "lawful_writes E" "resolve_utility_page E h t ref w = (out, h', w')"
    and "WriteInternalUtilityPage k (Some iu) \<in> set (calls w')"
    and "WriteInternalUtilityPage k (Some iu) \<notin> set (calls w)"
  shows "k = (o_namespace h, internal_page_name h t) \<and> o_key iu = k \<and> up_type (iu_spec (o_spec iu)) = t
    \<and> iu_host_ref (o_spec iu) = o_name h \<and> is_controlled_by (o_meta iu) (o_meta h)"
proof -
  obtain r h1 w1 where r: "host_resolve_ref E h ref w = (r, h1, w1)" by (metis prod_cases3)
  note f = host_resolve_ref_frame [OF r]
  have no: "WriteInternalUtilityPage k (Some iu) \<notin> set (calls w1)"
    using assms(4) extends_calls [OF f(4)] by fastforce
  then obtain gen spec x where spec: "up_type spec = t"
    and c: "create_or_update_internal_page E h1 spec t gen w1 = (x, w')"
    using assms(2,3) r
    by (auto simp: resolve_utility_page_def Let_def split: if_splits option.splits sum.splits prod.splits;
        blast)
  from create_page_write [OF assms(1) c assms(3) no] spec f(1) show ?thesis
    by (simp add: internal_page_name_def)
qed

text \<open>A page with a reference was written; without one nothing was.\<close>

lemma resolve_page_ref:
  assumes "resolve_utility_page E h t ref w = (out, h', w')" "po_ref out = Some name"
  shows "name = internal_page_name h t \<and> po_write_err out = None \<and> \<not> po_unresolved out
    \<and> (\<exists>iu. WriteInternalUtilityPage (o_namespace h, name) (Some iu) \<in> set (calls w'))"
proof -
  obtain r h1 w1 where r: "host_resolve_ref E h ref w = (r, h1, w1)" by (metis prod_cases3)
  note f = host_resolve_ref_frame [OF r]
  show ?thesis using assms r f(1)
    by (auto simp: resolve_utility_page_def create_or_update_internal_page_def internal_page_name_def
        page_absent_def Let_def split: if_splits option.splits sum.splits prod.splits)
qed

lemma delete_page_frame:
  assumes "delete_internal_page E h t w = (err, h', w')"
  shows "o_meta h' = o_meta h" "o_spec h' = o_spec h"
    "attributes (o_status h') (generation_attribute t) = None"
    "\<exists>cs. calls w' = calls w @ cs \<and> (\<forall>k x. WriteInternalUtilityPage k x \<notin> set cs)"
    "active_ops w' = active_ops w" "helm_clients w' = helm_clients w"
  using assms
  by (auto simp: delete_internal_page_def Let_def split: if_splits option.splits sum.splits)

lemma stored_ref_cong: "o_spec g = o_spec h \<Longrightarrow> stored_utility_page_ref g = stored_utility_page_ref h"
  by (simp add: stored_utility_page_ref_def fun_eq_iff)

lemma resolve_unset_page:
  assumes "t \<noteq> Consent" "stored_utility_page_ref g t = None"
  shows "resolve_utility_page E g t (utility_page_ref g t) v
     = (page_absent, with_conditions (conditions (o_status g)) g, v)"
  using assms by (simp add: utility_page_ref_def resolve_utility_page_def host_resolve_ref_def resolve_ref_def)

lemma resolve_pages_step:
  "resolve_utility_page E g t (utility_page_ref g t) v = (out, g1, v1) \<Longrightarrow> po_write_err out = None
   \<Longrightarrow> \<not> po_unresolved out \<Longrightarrow> po_ref out = Some name
   \<Longrightarrow> resolve_pages_from E g (t # ts) refs consent v
       = resolve_pages_from E g1 ts (refs(t \<mapsto> name)) consent v1"
  "t \<noteq> Consent \<Longrightarrow> stored_utility_page_ref g t = None
   \<Longrightarrow> resolve_pages_from E g (t # ts) refs consent v
       = resolve_pages_from E (with_conditions (conditions (o_status g)) g) ts refs consent v"
  by (simp_all add: resolve_unset_page page_absent_def)

lemma resolve_pages_frame:
  assumes "resolve_pages_from E h ts refs consent w = (res, h', w')"
  shows "o_meta h' = o_meta h \<and> o_spec h' = o_spec h \<and> (\<exists>cs. calls w' = calls w @ cs)
    \<and> active_ops w' = active_ops w \<and> helm_clients w' = helm_clients w"
  using assms
proof (induction ts arbitrary: h refs consent w)
  case (Cons t ts)
  obtain out h1 w1 where p: "resolve_utility_page E h t (utility_page_ref h t) w = (out, h1, w1)"
    by (metis prod_cases3)
  obtain d h2 w2 where d: "delete_internal_page E h1 t w1 = (d, h2, w2)" by (metis prod_cases3)
  note fp = resolve_page_frame [OF p] and fd = delete_page_frame [OF d]
  show ?case
    using Cons.prems Cons.IH p d fp fd
    by (auto simp: Let_def split: option.splits if_splits; metis append_assoc)
qed simp

section \<open>Properties\<close>

text \<open>
  C10. Only a page of the right type is ever published: whatever the references resolve to, each
  internal utility page written is the host's page of some type, carries a spec of that same
  type, names the host and is controlled by it.
\<close>
theorem utility_pages_right_type:
  assumes "lawful_writes E" and "resolve_utility_pages E h w = (res, h', w')"
    and "WriteInternalUtilityPage k (Some iu) \<in> set (calls w')"
    and "WriteInternalUtilityPage k (Some iu) \<notin> set (calls w)"
  shows "\<exists>t. k = (o_namespace h, internal_page_name h t) \<and> o_key iu = k
    \<and> up_type (iu_spec (o_spec iu)) = t
    \<and> iu_host_ref (o_spec iu) = o_name h \<and> is_controlled_by (o_meta iu) (o_meta h)"
proof -
  have "\<exists>t. k = (o_namespace g, internal_page_name g t) \<and> o_key iu = k
    \<and> up_type (iu_spec (o_spec iu)) = t
    \<and> iu_host_ref (o_spec iu) = o_name g \<and> is_controlled_by (o_meta iu) (o_meta g)"
    if "resolve_pages_from E g ts refs consent v = (res, h', w')"
      "WriteInternalUtilityPage k (Some iu) \<notin> set (calls v)" for g ts refs consent v
    using that
  proof (induction ts arbitrary: g refs consent v)
    case Nil
    then show ?case using assms(3) by simp
  next
    case (Cons t ts)
    obtain out h1 w1 where p: "resolve_utility_page E g t (utility_page_ref g t) v = (out, h1, w1)"
      by (rule prod_cases3)
    obtain d h2 w2 where d: "delete_internal_page E h1 t w1 = (d, h2, w2)" by (rule prod_cases3)
    note fp = resolve_page_frame [OF p] and fd = delete_page_frame [OF d]
    show ?case
    proof (cases "WriteInternalUtilityPage k (Some iu) \<in> set (calls w1)")
      case True
      from resolve_page_writes [OF assms(1) p True Cons.prems(2)] show ?thesis by blast
    next
      case False
      then have no2: "WriteInternalUtilityPage k (Some iu) \<notin> set (calls w2)" using fd(4) by (cases k) auto
      have names: "internal_page_name h1 = internal_page_name g" "internal_page_name h2 = internal_page_name g"
        using fp(1) fd(1) by (auto simp: internal_page_name_def)
      have "(res, h', w') = (pages_stop (pr_result res) (pr_err res), h1, w1)
          \<or> (res, h', w') = (pages_stop (pr_result res) (pr_err res), h2, w2)
          \<or> (\<exists>refs1 consent1. resolve_pages_from E h1 ts refs1 consent1 w1 = (res, h', w'))
          \<or> (\<exists>refs1 consent1. resolve_pages_from E h2 ts refs1 consent1 w2 = (res, h', w'))"
        using Cons.prems(1) p d
        by (auto simp: Let_def pages_stop_def split: option.splits if_splits)
      then show ?thesis
        using Cons.IH False no2 assms(3) fp(1) fd(1) names by (metis prod.inject)
    qed
  qed
  then show ?thesis using assms(2,4) unfolding resolve_utility_pages_def by blast
qed

theorem utility_pages_right_type_witness:
  "\<exists>k iu. k = (''ns'', ''h-consent'') \<and> up_type (iu_spec (o_spec (iu :: internal_utility_page))) = Consent
     \<and> iu_host_ref (o_spec iu) = ''h''"
proof -
  let ?E = "sample_env\<lparr>e_get_ref := (\<lambda>_ _ k. Inr ((sample_obj (fst k) (snd k)
      (KDexClusterUtilityPage (sample_utility_page_spec Consent)))\<lparr>o_status := ready_status\<rparr>))\<rparr>"
  let ?h = "sample_obj ''ns'' ''h'' sample_host_spec"
  have law: "lawful_writes ?E" by (rule lawful_more [OF lawful_sample])
  obtain res h' w' where run: "resolve_utility_pages ?E ?h start_world = (res, h', w')"
    by (rule prod_cases3)
  let ?ob = "(sample_obj [] (default_page_name Consent)
      (KDexClusterUtilityPage (sample_utility_page_spec Consent)))\<lparr>o_status := ready_status\<rparr>"
  let ?h1 = "with_conditions (conditions (o_status ?h)) ?h"
  have r: "\<exists>g1 w1. host_resolve_ref ?E ?h1 (Some default_consent_ref) start_world = (resolved (Some ?ob), g1, w1)
      \<and> o_meta g1 = o_meta ?h1"
    by (simp add: host_resolve_ref_def resolve_ref_def ref_key_def default_consent_ref_def is_clustered_def
        has_prefix_def is_ready_def ready_status_def sample_set_conditions_def ready_set_def
        sample_condition_def sample_has_def)
  obtain out h2 w2 where p: "resolve_utility_page ?E ?h1 Consent (Some default_consent_ref) start_world
      = (out, h2, w2)" by (rule prod_cases3)
  have "o_spec ?ob = KDexClusterUtilityPage (sample_utility_page_spec Consent)"
    by (simp add: sample_obj_def)
  moreover have "up_type (sample_utility_page_spec Consent) = Consent"
    by (simp add: sample_utility_page_spec_def)
  ultimately have "po_ref out = Some (internal_page_name ?h1 Consent)"
    using p r
    by (auto simp: resolve_utility_page_def create_or_update_internal_page_def mutate_internal_page_def
        page_absent_def internal_page_name_def Let_def)
  note wr = resolve_page_ref [OF p this]
  obtain iu where iu2: "WriteInternalUtilityPage (''ns'', ''h-consent'') (Some iu) \<in> set (calls w2)"
    using wr by (auto simp: internal_page_name_def sample_obj_def sample_meta_def)
  have "\<exists>refs. resolve_pages_from ?E h2 [ErrorPage, Login] refs None w2 = (res, h', w')"
  proof -
    have st: "stored_utility_page_ref ?h t = None" "stored_utility_page_ref ?h1 t = None" for t
      by (simp_all add: stored_utility_page_ref_def sample_obj_def sample_host_spec_def)
    have "utility_page_ref ?h1 Consent = Some default_consent_ref"
      using st by (simp add: utility_page_ref_def)
    then have p': "resolve_utility_page ?E ?h1 Consent (utility_page_ref ?h1 Consent) start_world
        = (out, h2, w2)" using p by simp
    have "resolve_utility_pages ?E ?h start_world
        = resolve_pages_from ?E ?h1 [Consent, ErrorPage, Login] Map.empty None start_world"
      unfolding resolve_utility_pages_def utility_page_types_def
      by (rule resolve_pages_step(2)) (simp_all add: st)
    also have "\<dots> = resolve_pages_from ?E h2 [ErrorPage, Login]
        (Map.empty(Consent \<mapsto> internal_page_name ?h1 Consent)) None w2"
      by (rule resolve_pages_step(1) [OF p']) (use wr \<open>po_ref out = _\<close> in simp_all)
    finally show ?thesis unfolding run by (intro exI) (rule sym)
  qed
  then have in': "WriteInternalUtilityPage (''ns'', ''h-consent'') (Some iu) \<in> set (calls w')"
    using iu2 resolve_pages_frame by fastforce
  have "WriteInternalUtilityPage (''ns'', ''h-consent'') (Some iu) \<notin> set (calls start_world)"
    by (simp add: start_world_def)
  from utility_pages_right_type [OF law run in' this] obtain t where
    t: "(''ns'', ''h-consent'') = (o_namespace ?h, internal_page_name ?h t)"
      "up_type (iu_spec (o_spec iu)) = t" "iu_host_ref (o_spec iu) = o_name ?h" by blast
  then have "page_type_lower t = page_type_lower Consent"
    by (simp add: internal_page_name_def sample_obj_def sample_meta_def)
  then have "t = Consent" unfolding page_type_lower_inject .
  then show ?thesis using t(2,3) by (auto simp: sample_obj_def sample_meta_def)
qed





end
