(* ===== verification/HelmOps.thy ===== *)
theory HelmOps
  imports Resolve
begin

text \<open>
  The Helm side of the host reconciler (\<open>internal/controller/kdexhost_controller_helm.go\<close> and
  \<open>getOrCreateHelmClient\<close>, \<open>deleteHelmClient\<close> of \<open>kdexhost_controller.go\<close>): the table of active
  operations, the cache of Helm clients, the chart that is handed to Helm and the hash that gates
  it, the decision to start a render, the render itself, and the companion charts.

  Every function that takes the mutex is one atomic step of the world. \<open>trySetHelmOperationActive\<close>
  gives the mutex up while it cancels the old operation; the reconciler is the only caller and
  runs one reconcile per host at a time, so no other call for the same host can fall in between
  except a \<open>clear\<close> of the operation being replaced, which the final write overrides.
\<close>

section \<open>The table of active operations\<close>

definition try_set_helm_operation_active :: "nsname \<Rightarrow> nat \<Rightarrow> string \<Rightarrow> world \<Rightarrow> bool \<times> world" where
  "try_set_helm_operation_active key cancel hash w =
     (case active_ops w key of
        Some old \<Rightarrow>
          if ho_hash old = hash then (False, w)
          else let w1 = log_call (CancelRender key (ho_hash old)) w
               in (True, w1\<lparr>active_ops := (active_ops w1)(key \<mapsto> \<lparr>ho_cancel = cancel, ho_hash = hash\<rparr>)\<rparr>)
      | None \<Rightarrow> (True, w\<lparr>active_ops := (active_ops w)(key \<mapsto> \<lparr>ho_cancel = cancel, ho_hash = hash\<rparr>)\<rparr>))"

definition clear_helm_operation_active :: "nsname \<Rightarrow> string \<Rightarrow> world \<Rightarrow> world" where
  "clear_helm_operation_active key hash w =
     (case active_ops w key of
        Some op \<Rightarrow> if ho_hash op = hash then w\<lparr>active_ops := del (active_ops w) key\<rparr> else w
      | None \<Rightarrow> w)"

definition cancel_helm_operation :: "nsname \<Rightarrow> world \<Rightarrow> world" where
  "cancel_helm_operation key w =
     (case active_ops w key of
        Some op \<Rightarrow> log_call (CancelRender key (ho_hash op)) (w\<lparr>active_ops := del (active_ops w) key\<rparr>)
      | None \<Rightarrow> w)"

definition is_helm_operation_active :: "nsname \<Rightarrow> string \<Rightarrow> world \<Rightarrow> bool" where
  "is_helm_operation_active key hash w \<longleftrightarrow>
     (case active_ops w key of Some op \<Rightarrow> ho_hash op = hash | None \<Rightarrow> False)"

section \<open>The cache of Helm clients\<close>

definition helm_client_key :: "string \<Rightarrow> string \<Rightarrow> string" where
  "helm_client_key name namespace = name @ ''-'' @ namespace"

definition delete_helm_client :: "string \<Rightarrow> string \<Rightarrow> world \<Rightarrow> world" where
  "delete_helm_client name namespace w =
     w\<lparr>helm_clients := del (helm_clients w) (helm_client_key name namespace)\<rparr>"

definition get_or_create_helm_client :: "env \<Rightarrow> string \<Rightarrow> string \<Rightarrow> secret list \<Rightarrow> world
    \<Rightarrow> (go_error + helm_client) \<times> world" where
  "get_or_create_helm_client E name namespace secrets w =
     (let key = helm_client_key name namespace;
          hash = e_secrets_hash E secrets
      in case helm_clients w key of
           Some cached \<Rightarrow>
             if ch_hash cached = hash then (Inr (ch_client cached), w)
             else (let w1 = log_call (NewHelmClient namespace) w
                   in case e_new_helm_client E (calls w) namespace secrets of
                        Inl err \<Rightarrow> (Inl err, w1)
                      | Inr c \<Rightarrow> (Inr c, w1\<lparr>helm_clients := (helm_clients w1)
                                     (key \<mapsto> \<lparr>ch_client = c, ch_hash = hash\<rparr>)\<rparr>))
         | None \<Rightarrow>
             (let w1 = log_call (NewHelmClient namespace) w
              in case e_new_helm_client E (calls w) namespace secrets of
                   Inl err \<Rightarrow> (Inl err, w1)
                 | Inr c \<Rightarrow> (Inr c, w1\<lparr>helm_clients := (helm_clients w1)
                                (key \<mapsto> \<lparr>ch_client = c, ch_hash = hash\<rparr>)\<rparr>)))"

section \<open>The chart of a host\<close>

definition build_host_manager_chart_spec :: "env \<Rightarrow> host \<Rightarrow> go_error + chart_spec" where
  "build_host_manager_chart_spec E h =
     (case e_config_values E of
        Inl err \<Rightarrow> Inl err
      | Inr config \<Rightarrow>
          let vals0 = [''config'' \<mapsto> VOpaque config];
              vals1 = (if hs_env (o_spec h) \<noteq> [] then vals0(''env'' \<mapsto> VTable (hs_env (o_spec h))) else vals0);
              hd = e_host_default E;
              manager = (case hs_helm (o_spec h) of None \<Rightarrow> None | Some hh \<Rightarrow> hh_manager hh)
          in case (case hd_values hd of
                     None \<Rightarrow> Inr vals1
                   | Some raw \<Rightarrow> (case e_read_values E raw of
                       Inl err \<Rightarrow> Inl err | Inr defaults \<Rightarrow> Inr (e_coalesce E vals1 defaults))) of
               Inl err \<Rightarrow> Inl err
             | Inr vals2 \<Rightarrow>
                 (case (case manager of
                          None \<Rightarrow> Inr vals2
                        | Some m \<Rightarrow> (case e_read_values E (hm_values m) of
                            Inl err \<Rightarrow> Inl err | Inr overrides \<Rightarrow> Inr (e_coalesce E overrides vals2))) of
                    Inl err \<Rightarrow> Inl err
                  | Inr vals3 \<Rightarrow>
                      Inr \<lparr>cs_release = o_name h, cs_chart = hd_chart hd, cs_namespace = o_namespace h,
                        cs_values = vals3(''focalHost'' \<mapsto> VText (o_name h),
                          ''fullnameOverride'' \<mapsto> VText (o_name h),
                          ''referenceNamespaces'' \<mapsto> VTexts (hs_reference_namespaces (o_spec h)),
                          ''roleRef'' \<mapsto> VTable [(''apiGroup'', ''rbac.authorization.k8s.io''),
                             (''kind'', ''ClusterRole''), (''name'', e_cluster_role E)]),
                        cs_version = (case manager of
                            Some m \<Rightarrow> if hm_version m \<noteq> [] then hm_version m else hd_version hd
                          | None \<Rightarrow> hd_version hd),
                        cs_upgrade_crds = False, cs_labels = []\<rparr>))"

definition companion_charts :: "host \<Rightarrow> companion_chart list" where
  "companion_charts h = (case hs_helm (o_spec h) of None \<Rightarrow> [] | Some hh \<Rightarrow> hh_companions hh)"

definition compute_helm_release_hash :: "env \<Rightarrow> host \<Rightarrow> go_error + string" where
  "compute_helm_release_hash E h =
     (case build_host_manager_chart_spec E h of
        Inl err \<Rightarrow> Inl err
      | Inr spec \<Rightarrow> e_release_hash E \<lparr>hi_release = cs_release spec, hi_chart = cs_chart spec,
          hi_namespace = cs_namespace spec, hi_version = cs_version spec,
          hi_values = cs_values spec, hi_companions = companion_charts h\<rparr>)"

section \<open>Charts through the client\<close>

definition install_or_upgrade :: "env \<Rightarrow> helm_client \<Rightarrow> chart_spec \<Rightarrow> world \<Rightarrow> go_error option \<times> world" where
  "install_or_upgrade E c spec w =
     (e_helm_install_or_upgrade E (calls w) c spec, log_call (HelmInstallOrUpgrade c spec) w)"

definition uninstall :: "env \<Rightarrow> helm_client \<Rightarrow> string \<Rightarrow> world \<Rightarrow> go_error option \<times> world" where
  "uninstall E c name w = (e_helm_uninstall E (calls w) c name, log_call (HelmUninstall c name) w)"

definition companion_labels :: "string \<Rightarrow> (string \<times> string) list" where
  "companion_labels host_name = [(''kdex.dev/companion-of'', host_name)]"

definition reconcile_host_manager_chart :: "env \<Rightarrow> helm_client \<Rightarrow> host \<Rightarrow> world
    \<Rightarrow> go_error option \<times> world" where
  "reconcile_host_manager_chart E c h w =
     (case build_host_manager_chart_spec E h of
        Inl err \<Rightarrow> (Some err, w)
      | Inr spec \<Rightarrow> install_or_upgrade E c spec w)"

definition reconcile_companion_chart :: "env \<Rightarrow> helm_client \<Rightarrow> host \<Rightarrow> companion_chart \<Rightarrow> world
    \<Rightarrow> go_error option \<times> world" where
  "reconcile_companion_chart E c h cc w =
     (let (err, w1) = (if cc_repository cc \<noteq> []
            then (e_helm_add_repository E (calls w) c (cc_name cc) (cc_repository cc),
                  log_call (HelmAddRepository c (cc_name cc) (cc_repository cc)) w)
            else (None, w))
      in case err of
           Some e \<Rightarrow> (Some e, w1)
         | None \<Rightarrow>
             (case e_read_values E (cc_values cc) of
                Inl e \<Rightarrow> (Some e, w1)
              | Inr vals \<Rightarrow> install_or_upgrade E c
                  \<lparr>cs_release = cc_name cc, cs_chart = cc_chart cc, cs_namespace = o_namespace h,
                   cs_values = vals, cs_version = cc_version cc, cs_upgrade_crds = False,
                   cs_labels = companion_labels (o_name h)\<rparr> w1))"

fun reconcile_companions :: "env \<Rightarrow> helm_client \<Rightarrow> host \<Rightarrow> companion_chart list \<Rightarrow> world
    \<Rightarrow> go_error option \<times> world" where
  "reconcile_companions E c h [] w = (None, w)"
| "reconcile_companions E c h (cc # ccs) w =
     (case reconcile_companion_chart E c h cc w of
        (Some err, w1) \<Rightarrow> (Some err, w1)
      | (None, w1) \<Rightarrow> reconcile_companions E c h ccs w1)"

definition list_releases :: "env \<Rightarrow> helm_client \<Rightarrow> (string \<times> string) list \<Rightarrow> world
    \<Rightarrow> (go_error + string list) \<times> world" where
  "list_releases E c lbls w =
     (e_helm_list_releases E (calls w) c lbls, log_call (HelmListReleases c lbls) w)"

fun prune_releases :: "env \<Rightarrow> helm_client \<Rightarrow> string set \<Rightarrow> string list \<Rightarrow> world \<Rightarrow> go_error option \<times> world" where
  "prune_releases E c declared [] w = (None, w)"
| "prune_releases E c declared (r # rs) w =
     (if r \<in> declared then prune_releases E c declared rs w
      else case uninstall E c r w of
             (Some err, w1) \<Rightarrow> (Some (wrap_error (''failed to prune companion chart '' @ r) err), w1)
           | (None, w1) \<Rightarrow> prune_releases E c declared rs w1)"

definition prune_companion_charts :: "env \<Rightarrow> helm_client \<Rightarrow> host \<Rightarrow> world \<Rightarrow> go_error option \<times> world" where
  "prune_companion_charts E c h w =
     (case list_releases E c (companion_labels (o_name h)) w of
        (Inl err, w1) \<Rightarrow> (Some err, w1)
      | (Inr owned, w1) \<Rightarrow>
          if owned = [] then (None, w1)
          else prune_releases E c (cc_name ` set (companion_charts h)) owned w1)"

fun undeclared_targets :: "string set \<Rightarrow> companion_chart list \<Rightarrow> string list" where
  "undeclared_targets seen [] = []"
| "undeclared_targets seen (cc # ccs) =
     (if cc_name cc \<in> seen then undeclared_targets seen ccs
      else cc_name cc # undeclared_targets (insert (cc_name cc) seen) ccs)"

fun uninstall_all :: "env \<Rightarrow> helm_client \<Rightarrow> string list \<Rightarrow> world \<Rightarrow> go_error list \<times> world" where
  "uninstall_all E c [] w = ([], w)"
| "uninstall_all E c (r # rs) w =
     (let (err, w1) = uninstall E c r w;
          (errs, w2) = uninstall_all E c rs w1
      in (case err of None \<Rightarrow> errs | Some e \<Rightarrow> e # errs, w2))"

definition uninstall_companion_charts :: "env \<Rightarrow> helm_client \<Rightarrow> host \<Rightarrow> world \<Rightarrow> go_error option \<times> world" where
  "uninstall_companion_charts E c h w =
     (case list_releases E c (companion_labels (o_name h)) w of
        (Inl err, w1) \<Rightarrow> (Some err, w1)
      | (Inr owned, w1) \<Rightarrow>
          let (errs, w2) = uninstall_all E c (owned @ undeclared_targets (set owned) (companion_charts h)) w1
          in (errors_join errs, w2))"

section \<open>The contract of the operation table\<close>

text \<open>
  What the reconciler and the renders rely on: starting an operation makes it the only active
  one of its host, finishing removes exactly the entry with its hash, teardown removes the
  host's entry whatever its hash.
\<close>

locale operation_table =
  fixes start :: "nsname \<Rightarrow> nat \<Rightarrow> string \<Rightarrow> world \<Rightarrow> bool \<times> world"
    and finish :: "nsname \<Rightarrow> string \<Rightarrow> world \<Rightarrow> world"
    and teardown :: "nsname \<Rightarrow> world \<Rightarrow> world"
    and active :: "nsname \<Rightarrow> string \<Rightarrow> world \<Rightarrow> bool"
  assumes start_fresh: "start k c h w = (b, w') \<Longrightarrow> b \<longleftrightarrow> \<not> active k h w"
    and start_active: "start k c h w = (b, w') \<Longrightarrow> active k' h' w' \<longleftrightarrow>
          (if k' = k then h' = h else active k' h' w)"
    and finish_active: "active k' h' (finish k h w) \<longleftrightarrow> active k' h' w \<and> \<not> (k' = k \<and> h' = h)"
    and teardown_active: "active k' h' (teardown k w) \<longleftrightarrow> active k' h' w \<and> k' \<noteq> k"
begin

lemma superseded_finish:
  assumes "start k c h w = (b, w')" "h' \<noteq> h"
  shows "active k h (finish k h' w')" and "active k h' (finish k h' w') \<longleftrightarrow> False"
  using start_active [OF assms(1)] assms(2) by (auto simp: finish_active)

lemma not_restarted:
  assumes "start k c h w = (b, w')" "start k c' h w' = (b', w'')"
  shows "\<not> b'"
  using start_fresh [OF assms(2)] start_active [OF assms(1)] by simp

lemma hash_reused:
  assumes "start k c1 h w = (b1, w1)" "start k c2 h' w1 = (b2, w2)" "start k c3 h w2 = (b3, w3)" "h' \<noteq> h"
  shows "b3 \<and> \<not> active k h (finish k h w3) \<and> (\<exists>w4. start k c4 h (finish k h w3) = (True, w4))"
proof -
  have "b3" using start_fresh [OF assms(3)] start_active [OF assms(2)] assms(4) by simp
  moreover have na: "\<not> active k h (finish k h w3)" by (simp add: finish_active)
  moreover obtain b4 w4 where s4: "start k c4 h (finish k h w3) = (b4, w4)" by (metis surj_pair)
  moreover have "b4" using start_fresh [OF s4] na by simp
  ultimately show ?thesis by auto
qed

lemma none_after_teardown: "\<not> active k h (teardown k w)"
  by (simp add: teardown_active)

end

interpretation ops: operation_table try_set_helm_operation_active clear_helm_operation_active
    cancel_helm_operation is_helm_operation_active
  by unfold_locales
    (auto simp: try_set_helm_operation_active_def clear_helm_operation_active_def
      cancel_helm_operation_def is_helm_operation_active_def Let_def split: option.splits if_splits)

section \<open>Frames\<close>

lemma clear_helm_sel [simp]:
  "calls (clear_helm_operation_active k h w) = calls w"
  "helm_clients (clear_helm_operation_active k h w) = helm_clients w"
  by (simp_all add: clear_helm_operation_active_def split: option.splits)

lemma get_client_frame:
  assumes "get_or_create_helm_client E name ns secrets w = (r, w')"
  shows "active_ops w' = active_ops w"
    "calls w' = calls w \<or> calls w' = calls w @ [NewHelmClient ns]"
  using assms by (auto simp: get_or_create_helm_client_def Let_def split: option.splits sum.splits if_splits)

lemma prune_releases_calls:
  assumes "prune_releases E c declared rs w = (err, w')"
  shows "\<exists>gone. calls w' = calls w @ map (HelmUninstall c) gone
    \<and> prefix gone (filter (\<lambda>r. r \<notin> declared) rs)
    \<and> (err = None \<longrightarrow> gone = filter (\<lambda>r. r \<notin> declared) rs) \<and> (err \<noteq> None \<longrightarrow> gone \<noteq> [])
    \<and> active_ops w' = active_ops w \<and> helm_clients w' = helm_clients w"
  using assms
proof (induction rs arbitrary: w)
  case (Cons r rs)
  show ?case
  proof (cases "r \<in> declared")
    case True
    then show ?thesis using Cons by simp
  next
    case False
    let ?w1 = "log_call (HelmUninstall c r) w"
    show ?thesis
    proof (cases "e_helm_uninstall E (calls w) c r")
      case None
      then have "prune_releases E c declared rs ?w1 = (err, w')"
        using Cons.prems False by (simp add: uninstall_def)
      from Cons.IH [OF this] obtain gone where
        "calls w' = calls ?w1 @ map (HelmUninstall c) gone"
        "prefix gone (filter (\<lambda>r. r \<notin> declared) rs)"
        "err = None \<longrightarrow> gone = filter (\<lambda>r. r \<notin> declared) rs"
        "active_ops w' = active_ops ?w1" "helm_clients w' = helm_clients ?w1" by blast
      then show ?thesis using False by (intro exI [of _ "r # gone"]) simp
    next
      case (Some e)
      then show ?thesis using Cons.prems False by (intro exI [of _ "[r]"]) (auto simp: uninstall_def)
    qed
  qed
qed simp

lemma uninstall_all_calls:
  assumes "uninstall_all E c rs w = (errs, w')"
  shows "calls w' = calls w @ map (HelmUninstall c) rs
    \<and> active_ops w' = active_ops w \<and> helm_clients w' = helm_clients w
    \<and> (errs = [] \<longleftrightarrow> (\<forall>i < length rs.
         e_helm_uninstall E (calls w @ map (HelmUninstall c) (take i rs)) c (rs ! i) = None))"
  using assms
proof (induction rs arbitrary: w errs)
  case (Cons r rs)
  let ?w1 = "log_call (HelmUninstall c r) w"
  obtain errs2 where rest: "uninstall_all E c rs ?w1 = (errs2, w')"
    and errs: "errs = (case e_helm_uninstall E (calls w) c r of None \<Rightarrow> errs2 | Some e \<Rightarrow> e # errs2)"
    using Cons.prems by (auto simp: uninstall_def split: prod.splits)
  note ih = Cons.IH [OF rest]
  have all: "(\<forall>i < length (r # rs). P i) \<longleftrightarrow> P 0 \<and> (\<forall>i < length rs. P (Suc i))" for P
    by (auto simp: less_Suc_eq_0_disj)
  show ?case unfolding all using ih errs by (auto split: option.splits)
qed simp

lemma undeclared_targets_spec:
  "set (undeclared_targets seen ccs) = cc_name ` set ccs - seen \<and> distinct (undeclared_targets seen ccs)"
  by (induction seen ccs rule: undeclared_targets.induct) auto

section \<open>Properties\<close>

text \<open>
  A client is never used with outdated credentials: the client handed out is cached with the
  digest of exactly these secrets, a new one is made only where no entry with that digest is
  cached, and the entries of other keys are left alone. A failure to make one changes nothing.
\<close>
theorem helm_client_follows_secrets:
  assumes "get_or_create_helm_client E name ns secrets w = (r, w')"
  shows "(\<forall>c. r = Inr c \<longrightarrow> helm_clients w' (helm_client_key name ns)
            = Some \<lparr>ch_client = c, ch_hash = e_secrets_hash E secrets\<rparr>)
    \<and> (\<forall>k. k \<noteq> helm_client_key name ns \<longrightarrow> helm_clients w' k = helm_clients w k)
    \<and> (NewHelmClient ns \<in> set (drop (length (calls w)) (calls w')) \<longleftrightarrow>
        map_option ch_hash (helm_clients w (helm_client_key name ns)) \<noteq> Some (e_secrets_hash E secrets))
    \<and> (\<forall>err. r = Inl err \<longrightarrow> helm_clients w' = helm_clients w)"
  using assms
  by (cases "helm_clients w (helm_client_key name ns)")
    (auto simp: get_or_create_helm_client_def Let_def split: sum.splits if_splits)

theorem helm_client_follows_secrets_witness:
  "\<exists>c w'. get_or_create_helm_client sample_env ''h'' ''ns'' [] start_world = (Inr c, w')
     \<and> helm_clients w' (helm_client_key ''h'' ''ns'') = Some \<lparr>ch_client = c, ch_hash = []\<rparr>"
proof -
  obtain w' where run: "get_or_create_helm_client sample_env ''h'' ''ns'' [] start_world = (Inr 0, w')"
    by (simp add: get_or_create_helm_client_def start_world_def)
  from helm_client_follows_secrets [OF run] run show ?thesis by simp
qed



text \<open>
  C14. A render that was superseded does not disturb its successor: once an operation with another
  hash has been started for the host, the end of the old one leaves the new one active, and it
  remains the only active one, so a reconcile with its hash does not start it again.
\<close>
theorem superseded_render_keeps_successor:
  assumes "try_set_helm_operation_active k c h w = (b, w')" "h' \<noteq> h"
  shows "is_helm_operation_active k h (clear_helm_operation_active k h' w')
    \<and> (\<forall>x. is_helm_operation_active k x (clear_helm_operation_active k h' w') \<longleftrightarrow> x = h)
    \<and> fst (try_set_helm_operation_active k c2 h (clear_helm_operation_active k h' w')) = False"
proof -
  note s = ops.superseded_finish [OF assms]
  obtain b2 w2 where t: "try_set_helm_operation_active k c2 h (clear_helm_operation_active k h' w') = (b2, w2)"
    by (metis surj_pair)
  have "\<forall>x. is_helm_operation_active k x (clear_helm_operation_active k h' w') \<longleftrightarrow> x = h"
    using ops.start_active [OF assms(1)] assms(2) by (auto simp: ops.finish_active)
  then show ?thesis using s ops.start_fresh [OF t] t by simp
qed

theorem superseded_render_keeps_successor_witness:
  "\<exists>w'. try_set_helm_operation_active (''ns'', ''h'') 0 ''new'' start_world = (True, w')
     \<and> is_helm_operation_active (''ns'', ''h'') ''new'' (clear_helm_operation_active (''ns'', ''h'') ''old'' w')"
proof -
  obtain w' where run: "try_set_helm_operation_active (''ns'', ''h'') 0 ''new'' start_world = (True, w')"
    by (simp add: try_set_helm_operation_active_def start_world_def)
  from superseded_render_keeps_successor [OF run, of "''old''"] run show ?thesis by simp
qed

text \<open>
  C15. The hash does not identify an operation: where a host's desired state changes and changes
  back, the render started for the third state is active, and the end of the first render, which
  had the same hash, removes the third one's entry, so that another render of the same state
  can start while the third is still running.
\<close>
theorem reused_hash_clears_newer_render:
  assumes "try_set_helm_operation_active k c1 h w = (b1, w1)"
    and "try_set_helm_operation_active k c2 h' w1 = (b2, w2)"
    and "try_set_helm_operation_active k c3 h w2 = (b3, w3)" and "h' \<noteq> h"
  shows "b3 \<and> \<not> is_helm_operation_active k h (clear_helm_operation_active k h w3)
    \<and> (\<exists>w4. try_set_helm_operation_active k c4 h (clear_helm_operation_active k h w3) = (True, w4))"
  by (rule ops.hash_reused [OF assms])

theorem reused_hash_clears_newer_render_witness:
  "\<exists>w3. \<not> is_helm_operation_active (''ns'', ''h'') ''a'' (clear_helm_operation_active (''ns'', ''h'') ''a'' w3)
     \<and> calls w3 = [CancelRender (''ns'', ''h'') ''a'', CancelRender (''ns'', ''h'') ''b'']"
proof -
  let ?k = "(''ns'', ''h'')"
  obtain w1 where 1: "try_set_helm_operation_active ?k 0 ''a'' start_world = (True, w1)"
    "active_ops w1 ?k = Some \<lparr>ho_cancel = 0, ho_hash = ''a''\<rparr>" "calls w1 = []"
    by (simp add: try_set_helm_operation_active_def start_world_def)
  obtain w2 where 2: "try_set_helm_operation_active ?k 1 ''b'' w1 = (True, w2)"
    "active_ops w2 ?k = Some \<lparr>ho_cancel = 1, ho_hash = ''b''\<rparr>" "calls w2 = [CancelRender ?k ''a'']"
    using 1 by (simp add: try_set_helm_operation_active_def Let_def)
  obtain w3 where 3: "try_set_helm_operation_active ?k 2 ''a'' w2 = (True, w3)"
    "calls w3 = [CancelRender ?k ''a'', CancelRender ?k ''b'']"
    using 2 by (simp add: try_set_helm_operation_active_def Let_def)
  from reused_hash_clears_newer_render [OF 1(1) 2(1) 3(1)] 3 show ?thesis by auto
qed

text \<open>
  Pruning uninstalls only releases that carry the host's label and that the spec no longer
  declares, in listing order; it succeeds only after uninstalling all of them, and stops at the
  first that fails.
\<close>
theorem prune_uninstalls_undeclared:
  assumes "e_helm_list_releases E (calls w) c (companion_labels (o_name h)) = Inr owned"
    and "prune_companion_charts E c h w = (err, w')"
  shows "\<exists>gone. calls w' = calls w @ HelmListReleases c [(''kdex.dev/companion-of'', o_name h)]
        # map (HelmUninstall c) gone
    \<and> prefix gone (filter (\<lambda>r. r \<notin> cc_name ` set (companion_charts h)) owned)
    \<and> (err = None \<longrightarrow> gone = filter (\<lambda>r. r \<notin> cc_name ` set (companion_charts h)) owned)
    \<and> (err \<noteq> None \<longrightarrow> gone \<noteq> [])"
proof (cases "owned = []")
  case True
  then show ?thesis using assms
    by (auto simp: prune_companion_charts_def list_releases_def companion_labels_def)
next
  case False
  then have "prune_releases E c (cc_name ` set (companion_charts h)) owned
      (log_call (HelmListReleases c (companion_labels (o_name h))) w) = (err, w')"
    using assms by (simp add: prune_companion_charts_def list_releases_def)
  from prune_releases_calls [OF this] show ?thesis by (auto simp: companion_labels_def)
qed

theorem prune_uninstalls_undeclared_witness:
  "\<exists>err w'. prune_companion_charts (sample_env\<lparr>e_helm_list_releases := (\<lambda>_ _ _. Inr [''redis''])\<rparr>) 0
      (sample_obj ''ns'' ''h'' sample_host_spec) start_world = (err, w') \<and> HelmUninstall 0 ''redis'' \<in> set (calls w')"
proof -
  let ?E = "sample_env\<lparr>e_helm_list_releases := (\<lambda>_ _ _. Inr [''redis''])\<rparr>"
  let ?h = "sample_obj ''ns'' ''h'' sample_host_spec"
  obtain w' where run: "prune_companion_charts ?E 0 ?h start_world = (None, w')"
    by (simp add: prune_companion_charts_def list_releases_def uninstall_def companion_charts_def
        sample_obj_def sample_host_spec_def)
  have "companion_charts ?h = []"
    by (simp add: companion_charts_def sample_obj_def sample_host_spec_def)
  then show ?thesis
    using prune_uninstalls_undeclared [OF _ run, of "[''redis'']"] run by auto
qed

text \<open>
  Teardown attempts every companion once: everything the host owns and everything it still
  declares is uninstalled, whatever fails on the way, and the call reports success exactly when
  every uninstall did.
\<close>
theorem teardown_attempts_every_companion:
  assumes "e_helm_list_releases E (calls w) c (companion_labels (o_name h)) = Inr owned"
    and "uninstall_companion_charts E c h w = (err, w')"
  shows "\<exists>targets. calls w' = calls w @ HelmListReleases c [(''kdex.dev/companion-of'', o_name h)]
        # map (HelmUninstall c) targets
    \<and> set targets = set owned \<union> cc_name ` set (companion_charts h)
    \<and> (distinct owned \<longrightarrow> distinct targets)
    \<and> (err = None \<longleftrightarrow> (\<forall>i < length targets. e_helm_uninstall E
          (calls w @ HelmListReleases c [(''kdex.dev/companion-of'', o_name h)]
             # map (HelmUninstall c) (take i targets)) c (targets ! i) = None))"
proof -
  let ?targets = "owned @ undeclared_targets (set owned) (companion_charts h)"
  let ?w1 = "log_call (HelmListReleases c (companion_labels (o_name h))) w"
  obtain errs where all: "uninstall_all E c ?targets ?w1 = (errs, w')" and err: "err = errors_join errs"
    using assms by (auto simp: uninstall_companion_charts_def list_releases_def split: prod.splits)
  have "set ?targets = set owned \<union> cc_name ` set (companion_charts h)"
    and "distinct owned \<longrightarrow> distinct ?targets"
    using undeclared_targets_spec [of "set owned" "companion_charts h"] by auto
  then show ?thesis using uninstall_all_calls [OF all] err
    by (intro exI [of _ ?targets]) (simp add: companion_labels_def)
qed

theorem teardown_attempts_every_companion_witness:
  "\<exists>err w'. uninstall_companion_charts (sample_env\<lparr>e_helm_list_releases := (\<lambda>_ _ _. Inr [''redis'']),
        e_helm_uninstall := (\<lambda>_ _ _. Some absent)\<rparr>) 0
      (sample_obj ''ns'' ''h'' sample_host_spec) start_world = (err, w') \<and> err \<noteq> None"
proof -
  let ?E = "sample_env\<lparr>e_helm_list_releases := (\<lambda>_ _ _. Inr [''redis'']),
        e_helm_uninstall := (\<lambda>_ _ _. Some absent)\<rparr>"
  let ?h = "sample_obj ''ns'' ''h'' sample_host_spec"
  obtain err w' where run: "uninstall_companion_charts ?E 0 ?h start_world = (err, w')" by (metis surj_pair)
  obtain targets where t: "set targets = set [''redis''] \<union> cc_name ` set (companion_charts ?h)"
    "err = None \<longleftrightarrow> (\<forall>i < length targets. e_helm_uninstall ?E
          (calls start_world @ HelmListReleases 0 [(''kdex.dev/companion-of'', o_name ?h)]
             # map (HelmUninstall 0) (take i targets)) 0 (targets ! i) = None)"
    using teardown_attempts_every_companion [OF _ run, of "[''redis'']"] by auto
  have "targets \<noteq> []" using t(1) by auto
  then show ?thesis using t(2) run by auto
qed

end
