(* ===== verification/HelmRender.thy ===== *)
theory HelmRender
  imports HelmOps
begin

text \<open>
  When a Helm render starts, what it does and how it ends
  (\<open>internal/controller/kdexhost_controller_helm.go\<close>: \<open>reconcileHelmReleases\<close>,
  \<open>runAsyncHelmReconcile\<close>, \<open>updateHelmStatus\<close>). The render runs in a goroutine of its own; here it
  is a function from the world it starts in. Calls of other goroutines in between are covered by
  the environment, whose answers may change with every call.
\<close>

section \<open>Status attributes\<close>

definition helm_status_attr :: string where "helm_status_attr = ''helm.release.status''"
definition helm_generation_attr :: string where "helm_generation_attr = ''helm.release.generation''"
definition helm_hash_attr :: string where "helm_hash_attr = ''helm.release.hash''"
definition helm_error_attr :: string where "helm_error_attr = ''helm.release.error''"
definition helm_owner_attr :: string where "helm_owner_attr = ''helm.release.owner''"
definition helm_attempt_attr :: string where "helm_attempt_attr = ''helm.release.last-attempt''"

definition in_progress :: string where "in_progress = ''in_progress''"
definition completed :: string where "completed = ''completed''"
definition failed :: string where "failed = ''failed''"

lemmas helm_attr_defs = helm_status_attr_def helm_generation_attr_def helm_hash_attr_def
  helm_error_attr_def helm_owner_attr_def helm_attempt_attr_def
lemmas helm_state_defs = in_progress_def completed_def failed_def

section \<open>Ending a render\<close>

definition failed_statuses :: cond_statuses where
  "failed_statuses = \<lparr>cs_degraded = CondTrue, cs_progressing = CondFalse, cs_ready = CondUnset\<rparr>"

definition completed_statuses :: cond_statuses where
  "completed_statuses = \<lparr>cs_degraded = CondUnset, cs_progressing = CondFalse, cs_ready = CondUnset\<rparr>"

definition helm_end_status :: "env \<Rightarrow> string \<Rightarrow> go_error option \<Rightarrow> host \<Rightarrow> world \<Rightarrow> obj_status" where
  "helm_end_status E hash err h w = o_status
     (put_attr helm_owner_attr (e_controller_id E) (put_attr helm_hash_attr hash
       (case err of
          Some e \<Rightarrow> mark E w failed_statuses ReconcileError (err_text e)
            (put_attr helm_attempt_attr (e_format_time E (e_now E (calls w)))
              (put_attr helm_error_attr (err_text e) (put_attr helm_status_attr failed h)))
        | None \<Rightarrow> mark E w completed_statuses ReconcileSuccess ''Helm installation completed''
            (upd_status (del_attr helm_attempt_attr) (upd_status (del_attr helm_error_attr)
              (put_attr helm_status_attr completed h))))))"

definition update_helm_status :: "env \<Rightarrow> nsname \<Rightarrow> string \<Rightarrow> go_error option \<Rightarrow> world \<Rightarrow> world" where
  "update_helm_status E key hash err w =
     (let w1 = log_call (Get ''KDexHost'' key) w
      in clear_helm_operation_active key hash
           (case e_get_host E (calls w) key of
              Inl _ \<Rightarrow> w1
            | Inr h \<Rightarrow> log_call (PatchHostStatus (o_key h) (o_status h) (helm_end_status E hash err h w1)) w1))"

section \<open>The render\<close>

text \<open>
  With the slot and a fresh copy of the host: client, host-manager chart, companions, then
  the slot is given back and the companions no longer declared are pruned. The flag of the
  result says whether the slot is still held, so that the deferred release acts once.
\<close>

definition render_charts :: "env \<Rightarrow> nsname \<Rightarrow> host \<Rightarrow> secret list \<Rightarrow> world
    \<Rightarrow> go_error option \<times> bool \<times> world" where
  "render_charts E key h secrets w =
     (case get_or_create_helm_client E (o_name h) (o_namespace h) secrets w of
        (Inl err, w1) \<Rightarrow> (Some err, True, w1)
      | (Inr c, w1) \<Rightarrow>
          (case reconcile_host_manager_chart E c h w1 of
             (Some err, w2) \<Rightarrow> (Some err, True, w2)
           | (None, w2) \<Rightarrow>
               (case reconcile_companions E c h (companion_charts h) w2 of
                  (Some err, w3) \<Rightarrow> (Some err, True, w3)
                | (None, w3) \<Rightarrow>
                    (case prune_companion_charts E c h (log_call (GiveSlot key) w3) of
                       (err, w4) \<Rightarrow> (err, False, w4)))))"

definition release_slot :: "nsname \<Rightarrow> bool \<Rightarrow> world \<Rightarrow> world" where
  "release_slot key held w = (if held then log_call (GiveSlot key) w else w)"

definition run_async_helm_reconcile :: "env \<Rightarrow> nsname \<Rightarrow> string \<Rightarrow> secret list \<Rightarrow> world \<Rightarrow> world" where
  "run_async_helm_reconcile E key hash secrets w =
     (let w1 = log_call (Get ''KDexHost'' key) w
      in case e_get_host E (calls w) key of
           Inl _ \<Rightarrow> clear_helm_operation_active key hash w1
         | Inr _ \<Rightarrow>
             if \<not> e_has_helm_factory E then
               update_helm_status E key hash (Some (plain_error ''HelmClientFactory is nil'')) w1
             else if \<not> e_render_slot E (calls w1) key then clear_helm_operation_active key hash w1
             else
               let w2 = log_call (TakeSlot key) w1;
                   w3 = log_call (Get ''KDexHost'' key) w2
               in case e_get_host E (calls w2) key of
                    Inl _ \<Rightarrow> release_slot key True (clear_helm_operation_active key hash w3)
                  | Inr h \<Rightarrow>
                      if om_deleting (o_meta h) then
                        release_slot key True (clear_helm_operation_active key hash w3)
                      else
                        let (err, held, w4) = render_charts E key h secrets w3
                        in release_slot key held (update_helm_status E key hash err w4))"

section \<open>Starting a render\<close>

definition in_backoff :: "env \<Rightarrow> world \<Rightarrow> obj_status \<Rightarrow> bool" where
  "in_backoff E w st \<longleftrightarrow>
     get_attr st helm_attempt_attr \<noteq> [] \<and>
     (case e_parse_time E (get_attr st helm_attempt_attr) of
        None \<Rightarrow> False
      | Some t \<Rightarrow> e_now E (calls w) - t < e_requeue_delay E)"

definition starting_statuses :: cond_statuses where
  "starting_statuses = \<lparr>cs_degraded = CondUnset, cs_progressing = CondTrue, cs_ready = CondFalse\<rparr>"

definition helm_start :: "env \<Rightarrow> world \<Rightarrow> string \<Rightarrow> host \<Rightarrow> host" where
  "helm_start E w hash h =
     mark E w starting_statuses Reconciling ''Helm installation in progress''
       (upd_status (del_attr helm_attempt_attr) (upd_status (del_attr helm_error_attr)
         (put_attr helm_owner_attr (e_controller_id E)
           (put_attr helm_generation_attr (itoa (o_generation h))
             (put_attr helm_hash_attr hash (put_attr helm_status_attr in_progress h))))))"

definition with_generation :: "int \<Rightarrow> host \<Rightarrow> host" where
  "with_generation g h = h\<lparr>o_meta := (o_meta h)\<lparr>om_generation := g\<rparr>\<rparr>"

text \<open>Whether the current state calls for a new render: the four tests in the code's order.\<close>

definition nothing_to_render :: "env \<Rightarrow> nsname \<Rightarrow> string \<Rightarrow> obj_status \<Rightarrow> world \<Rightarrow> bool" where
  "nothing_to_render E key hash st w \<longleftrightarrow>
     (let status = get_attr st helm_status_attr;
          recorded = get_attr st helm_hash_attr
      in status = in_progress \<and> is_helm_operation_active key hash w
       \<or> status = completed \<and> recorded = hash
       \<or> status = failed \<and> recorded = hash \<and> in_backoff E w st)"

definition reconcile_helm_releases :: "env \<Rightarrow> host \<Rightarrow> secret list \<Rightarrow> world
    \<Rightarrow> (go_error + bool) \<times> host \<times> world" where
  "reconcile_helm_releases E h secrets w =
     (let w1 = log_call (Get ''KDexHost'' (o_key h)) w
      in case e_get_host E (calls w) (o_key h) of
           Inl err \<Rightarrow> (Inl (wrap_error ''failed to get latest host'' err), h, w1)
         | Inr latest \<Rightarrow>
             let h1 = with_generation (o_generation latest) h
             in case compute_helm_release_hash E h1 of
                  Inl err \<Rightarrow> (Inl (wrap_error ''failed to compute helm release hash'' err), h1, w1)
                | Inr hash \<Rightarrow>
                    if nothing_to_render E (o_key h1) hash (o_status latest) w1 then (Inr False, h1, w1)
                    else
                      let h2 = helm_start E w1 hash h1;
                          w2 = log_call (PatchHostStatus (o_key latest) (o_status latest) (o_status h2)) w1
                      in case e_patch_host_status E (calls w1) (o_key latest) (o_status latest) (o_status h2) of
                           Some err \<Rightarrow>
                             (Inl (wrap_error ''failed to patch status for helm progress'' err), h2, w2)
                         | None \<Rightarrow>
                             let (fresh, w3) = try_set_helm_operation_active (o_key h1)
                                   (length (calls w2)) hash w2
                             in if \<not> fresh then (Inr False, h2, w3)
                                else (Inr True, h2, log_call (StartRender (o_key h1) hash) w3))"

section \<open>The slot discipline\<close>

text \<open>
  An automaton over the calls: charts are loaded only while the slot is held, releases are only
  uninstalled while it is not, and it is taken and given back alternately.
\<close>

fun slot_run :: "bool \<Rightarrow> call list \<Rightarrow> bool option" where
  "slot_run held [] = Some held"
| "slot_run held (TakeSlot k # cs) = (if held then None else slot_run True cs)"
| "slot_run held (GiveSlot k # cs) = (if held then slot_run False cs else None)"
| "slot_run held (HelmInstallOrUpgrade c s # cs) = (if held then slot_run True cs else None)"
| "slot_run held (HelmAddRepository c n u # cs) = (if held then slot_run True cs else None)"
| "slot_run held (HelmUninstall c n # cs) = (if held then None else slot_run False cs)"
| "slot_run held (_ # cs) = slot_run held cs"

lemma slot_run_append:
  "slot_run held (xs @ ys) = (case slot_run held xs of None \<Rightarrow> None | Some b \<Rightarrow> slot_run b ys)"
  by (induction held xs rule: slot_run.induct) auto

lemma slot_run_uninstalls [simp]: "slot_run False (map (HelmUninstall c) rs) = Some False"
  by (induction rs) simp_all

text \<open>\<open>renders a b w w'\<close>: the calls added take the automaton from \<open>a\<close> to \<open>b\<close>.\<close>

definition renders :: "bool \<Rightarrow> bool \<Rightarrow> world \<Rightarrow> world \<Rightarrow> bool" where
  "renders a b w w' \<longleftrightarrow> (\<exists>cs. calls w' = calls w @ cs \<and> slot_run a cs = Some b)"

lemma renders_refl [simp]: "renders a a w w"
  by (simp add: renders_def)

lemma renders_trans: "renders a b w w' \<Longrightarrow> renders b c w' w'' \<Longrightarrow> renders a c w w''"
  unfolding renders_def by (auto simp: slot_run_append)

lemma renders_log: "slot_run a [c] = Some b \<Longrightarrow> renders a b w (log_call c w)"
  by (simp add: renders_def)

lemma renders_clear [simp]:
  "renders a b w (clear_helm_operation_active k h w') = renders a b w w'"
  by (simp add: renders_def)

lemma get_client_renders: "get_or_create_helm_client E n ns s w = (r, w') \<Longrightarrow> renders a a w w'"
  using get_client_frame(2) by (fastforce simp: renders_def)

lemma manager_renders: "reconcile_host_manager_chart E c h w = (r, w') \<Longrightarrow> renders True True w w'"
  by (auto simp: reconcile_host_manager_chart_def install_or_upgrade_def renders_log split: sum.splits)

lemma companion_renders: "reconcile_companion_chart E c h cc w = (r, w') \<Longrightarrow> renders True True w w'"
  by (auto simp: reconcile_companion_chart_def install_or_upgrade_def renders_def Let_def
      split: sum.splits option.splits if_splits)

lemma companions_render: "reconcile_companions E c h ccs w = (r, w') \<Longrightarrow> renders True True w w'"
proof (induction ccs arbitrary: w)
  case (Cons cc ccs)
  obtain err w1 where "reconcile_companion_chart E c h cc w = (err, w1)" by (metis surj_pair)
  with Cons show ?case
    by (auto split: option.splits dest: companion_renders intro: renders_trans)
qed simp

lemma prune_renders:
  assumes "prune_companion_charts E c h w = (r, w')"
  shows "renders False False w w'"
proof (cases "e_helm_list_releases E (calls w) c (companion_labels (o_name h))")
  case (Inl err)
  then show ?thesis
    using assms by (auto simp: prune_companion_charts_def list_releases_def renders_log)
next
  case (Inr owned)
  let ?w1 = "log_call (HelmListReleases c (companion_labels (o_name h))) w"
  have l: "renders False False w ?w1" by (simp add: renders_log)
  show ?thesis
  proof (cases "owned = []")
    case True
    then show ?thesis using assms Inr l by (auto simp: prune_companion_charts_def list_releases_def)
  next
    case False
    then have "prune_releases E c (cc_name ` set (companion_charts h)) owned ?w1 = (r, w')"
      using assms Inr by (simp add: prune_companion_charts_def list_releases_def)
    from prune_releases_calls [OF this] have "renders False False ?w1 w'"
      unfolding renders_def using slot_run_uninstalls by blast
    with l show ?thesis by (rule renders_trans)
  qed
qed

lemma render_charts_renders:
  "render_charts E key h secrets w = (err, held, w') \<Longrightarrow> renders True held w w'"
proof -
  assume a: "render_charts E key h secrets w = (err, held, w')"
  obtain r w1 where c: "get_or_create_helm_client E (o_name h) (o_namespace h) secrets w = (r, w1)"
    by (metis surj_pair)
  note w1 = get_client_renders [OF c, of True]
  show ?thesis
  proof (cases r)
    case (Inl e)
    then show ?thesis using a c w1 by (simp add: render_charts_def)
  next
    case (Inr cl)
    obtain e2 w2 where m: "reconcile_host_manager_chart E cl h w1 = (e2, w2)" by (metis surj_pair)
    obtain e3 w3 where k: "reconcile_companions E cl h (companion_charts h) w2 = (e3, w3)" by (metis surj_pair)
    obtain e4 w4 where p: "prune_companion_charts E cl h (log_call (GiveSlot key) w3) = (e4, w4)"
      by (metis surj_pair)
    note w2 = renders_trans [OF w1 manager_renders [OF m]]
    note w3 = renders_trans [OF w2 companions_render [OF k]]
    have "renders True False w3 (log_call (GiveSlot key) w3)" by (simp add: renders_log)
    note w4 = renders_trans [OF w3 renders_trans [OF this prune_renders [OF p]]]
    show ?thesis using a c Inr m k p w2 w3 w4 by (auto simp: render_charts_def split: option.splits)
  qed
qed

lemma update_helm_status_renders: "renders a a w (update_helm_status E key hash err w)"
  by (auto simp: update_helm_status_def renders_def Let_def split: sum.splits)

lemma release_slot_renders: "renders held False w (release_slot key held w)"
  by (simp add: release_slot_def renders_log)

lemma release_slot_sel [simp]:
  "active_ops (release_slot k held w) = active_ops w"
  "is_helm_operation_active k' h (release_slot k held w) = is_helm_operation_active k' h w"
  by (simp_all add: release_slot_def is_helm_operation_active_def)

section \<open>Properties\<close>

text \<open>
  The release hash is a sound gate: where the digest has no collision at this hash, two hosts with
  the same hash are rendered alike, call for call, whatever the rest of their specs says. Skipping
  the render of an unchanged hash therefore never skips a change of what Helm would be given.
\<close>
theorem release_hash_gates_render:
  assumes "\<And>i j. e_release_hash E i = Inr hash \<Longrightarrow> e_release_hash E j = Inr hash \<Longrightarrow> i = j"
    and "compute_helm_release_hash E h1 = Inr hash" "compute_helm_release_hash E h2 = Inr hash"
  shows "render_charts E key h1 secrets w = render_charts E key h2 secrets w"
proof -
  obtain s1 s2 where s: "build_host_manager_chart_spec E h1 = Inr s1" "build_host_manager_chart_spec E h2 = Inr s2"
    using assms(2,3) by (auto simp: compute_helm_release_hash_def split: sum.splits)
  have "\<lparr>hi_release = cs_release s1, hi_chart = cs_chart s1, hi_namespace = cs_namespace s1,
      hi_version = cs_version s1, hi_values = cs_values s1, hi_companions = companion_charts h1\<rparr>
    = \<lparr>hi_release = cs_release s2, hi_chart = cs_chart s2, hi_namespace = cs_namespace s2,
      hi_version = cs_version s2, hi_values = cs_values s2, hi_companions = companion_charts h2\<rparr>"
    by (rule assms(1)) (use assms(2,3) s in \<open>simp_all add: compute_helm_release_hash_def\<close>)
  then have eq: "cs_release s1 = cs_release s2" "cs_chart s1 = cs_chart s2" "cs_namespace s1 = cs_namespace s2"
    "cs_version s1 = cs_version s2" "cs_values s1 = cs_values s2" "companion_charts h1 = companion_charts h2"
    by simp_all
  have fixed: "cs_release s = o_name h \<and> cs_namespace s = o_namespace h \<and> \<not> cs_upgrade_crds s \<and> cs_labels s = []"
    if "build_host_manager_chart_spec E h = Inr s" for h s
    using that by (auto simp: build_host_manager_chart_spec_def Let_def split: sum.splits option.splits)
  have names: "o_name h1 = o_name h2" "o_namespace h1 = o_namespace h2" and "s1 = s2"
    using fixed [OF s(1)] fixed [OF s(2)] eq by (auto intro: chart_spec.equality)
  have one: "reconcile_companion_chart E c h1 = reconcile_companion_chart E c h2" for c
    by (simp add: fun_eq_iff reconcile_companion_chart_def names cong: sum.case_cong option.case_cong)
  have comp: "reconcile_companions E c h1 ccs v = reconcile_companions E c h2 ccs v" for c ccs v
    by (induction ccs arbitrary: v) (simp_all add: one split: option.splits prod.splits)
  have man: "reconcile_host_manager_chart E c h1 = reconcile_host_manager_chart E c h2" for c
    by (simp add: fun_eq_iff reconcile_host_manager_chart_def s \<open>s1 = s2\<close>)
  have prune: "prune_companion_charts E c h1 = prune_companion_charts E c h2" for c
    unfolding prune_companion_charts_def names eq(6) ..
  have comps: "reconcile_companions E c h1 (companion_charts h1) = reconcile_companions E c h2 (companion_charts h2)" for c
    by (simp add: fun_eq_iff eq(6) comp)
  show ?thesis unfolding render_charts_def names man prune comps ..
qed

theorem release_hash_gates_render_witness:
  "\<exists>E. compute_helm_release_hash E (sample_obj ''ns'' ''h'' sample_host_spec) = Inr ''x''
     \<and> render_charts E (''ns'', ''h'') (sample_obj ''ns'' ''h'' sample_host_spec) [] start_world
     = render_charts E (''ns'', ''h'')
         (sample_obj ''ns'' ''h'' (sample_host_spec\<lparr>hs_brand_name := ''Other''\<rparr>)) [] start_world"
proof -
  let ?h1 = "sample_obj ''ns'' ''h'' sample_host_spec"
  let ?h2 = "sample_obj ''ns'' ''h'' (sample_host_spec\<lparr>hs_brand_name := ''Other''\<rparr>)"
  have same: "build_host_manager_chart_spec E ?h2 = build_host_manager_chart_spec E ?h1"
    "companion_charts ?h1 = []" "companion_charts ?h2 = []" for E
    by (simp_all add: build_host_manager_chart_spec_def sample_obj_def sample_host_spec_def companion_charts_def
        cong: sum.case_cong option.case_cong)
  have "\<exists>s. build_host_manager_chart_spec sample_env ?h1 = Inr s"
    by (simp add: build_host_manager_chart_spec_def Let_def sample_obj_def sample_host_spec_def)
  then obtain s where s: "build_host_manager_chart_spec sample_env ?h1 = Inr s" by blast
  define i where "i = \<lparr>hi_release = cs_release s, hi_chart = cs_chart s, hi_namespace = cs_namespace s,
      hi_version = cs_version s, hi_values = cs_values s, hi_companions = []\<rparr>"
  let ?F = "sample_env\<lparr>e_release_hash := (\<lambda>j. if j = i then Inr ''x'' else Inl absent)\<rparr>"
  have sF: "build_host_manager_chart_spec ?F ?h1 = Inr s"
    using s by (simp add: build_host_manager_chart_spec_def cong: sum.case_cong option.case_cong)
  have h: "compute_helm_release_hash ?F ?h1 = Inr ''x''" "compute_helm_release_hash ?F ?h2 = Inr ''x''"
    by (simp_all add: compute_helm_release_hash_def same sF flip: i_def)
  have "render_charts ?F (''ns'', ''h'') ?h1 [] start_world = render_charts ?F (''ns'', ''h'') ?h2 [] start_world"
    by (rule release_hash_gates_render [OF _ h]) (simp split: if_splits)
  with h(1) show ?thesis by blast
qed



text \<open>
  C17. Memory is bounded by the render slots: every render loads charts (installs, upgrades, chart
  repositories) only while it holds a slot, uninstalls releases only while it holds none, gives
  back what it took exactly once, and ends with its operation no longer active, whatever fails.
\<close>
theorem render_slot_discipline:
  "(\<exists>cs. calls (run_async_helm_reconcile E key hash secrets w) = calls w @ cs \<and> slot_run False cs = Some False)
   \<and> \<not> is_helm_operation_active key hash (run_async_helm_reconcile E key hash secrets w)"
proof -
  let ?w1 = "log_call (Get ''KDexHost'' key) w"
  let ?w3 = "log_call (Get ''KDexHost'' key) (log_call (TakeSlot key) ?w1)"
  let ?w' = "run_async_helm_reconcile E key hash secrets w"
  have w1: "renders False False w ?w1" and w3: "renders False True w ?w3" by (simp_all add: renders_def)
  have inactive: "\<not> is_helm_operation_active key hash (update_helm_status E key hash err v)" for err v
    by (simp add: update_helm_status_def ops.finish_active Let_def)
  have "renders False False w ?w' \<and> \<not> is_helm_operation_active key hash ?w'"
  proof (cases "e_get_host E (calls w) key")
    case (Inl err)
    then show ?thesis using w1 by (simp add: run_async_helm_reconcile_def ops.finish_active)
  next
    case (Inr h0)
    note read = Inr
    show ?thesis
    proof (cases "e_has_helm_factory E \<and> e_render_slot E (calls ?w1) key")
      case False
      then show ?thesis
        using read w1 inactive renders_trans [OF w1 update_helm_status_renders [of False ?w1 E key hash
            "Some (plain_error ''HelmClientFactory is nil'')"]]
        by (cases "e_has_helm_factory E") (simp_all add: run_async_helm_reconcile_def ops.finish_active Let_def)
    next
      case True
      have stop: "renders False False w (release_slot key True (clear_helm_operation_active key hash ?w3))"
        by (simp add: renders_def release_slot_def)
      show ?thesis
      proof (cases "e_get_host E (calls (log_call (TakeSlot key) ?w1)) key")
        case (Inl err)
        then show ?thesis using read True stop by (simp add: run_async_helm_reconcile_def ops.finish_active Let_def)
      next
        case (Inr h)
        obtain err held w4 where r: "render_charts E key h secrets ?w3 = (err, held, w4)" by (rule prod_cases3)
        note run = renders_trans [OF renders_trans [OF renders_trans [OF w3 render_charts_renders [OF r]]
              update_helm_status_renders [of held w4 E key hash err]]
            release_slot_renders [of held "update_helm_status E key hash err w4" key]]
        show ?thesis using read True stop Inr r run inactive
          by (simp add: run_async_helm_reconcile_def ops.finish_active Let_def)
      qed
    qed
  qed
  then show ?thesis by (simp add: renders_def)
qed

text \<open>
  A render that waited too long does nothing: where the host is gone or terminating when the
  slot is finally held, the render makes no client, hands Helm nothing, writes no status, and
  only gives the slot back and forgets its operation.
\<close>
theorem abandoned_render_touches_nothing:
  assumes "\<And>h. e_get_host E (calls w @ [Get ''KDexHost'' key, TakeSlot key]) key = Inr h
             \<Longrightarrow> om_deleting (o_meta h)"
    and "e_get_host E (calls w) key = Inr h0" "e_has_helm_factory E"
    and "e_render_slot E (calls w @ [Get ''KDexHost'' key]) key"
  shows "calls (run_async_helm_reconcile E key hash secrets w)
      = calls w @ [Get ''KDexHost'' key, TakeSlot key, Get ''KDexHost'' key, GiveSlot key]
    \<and> helm_clients (run_async_helm_reconcile E key hash secrets w) = helm_clients w
    \<and> active_ops (run_async_helm_reconcile E key hash secrets w)
        = active_ops (clear_helm_operation_active key hash w)"
proof -
  have clear: "active_ops (clear_helm_operation_active key hash (log_call c v))
      = active_ops (clear_helm_operation_active key hash v)" for c v
    by (simp add: clear_helm_operation_active_def split: option.splits)
  show ?thesis using assms
    by (cases "e_get_host E (calls w @ [Get ''KDexHost'' key, TakeSlot key]) key")
      (auto simp: run_async_helm_reconcile_def release_slot_def clear Let_def)
qed

theorem abandoned_render_touches_nothing_witness:
  "calls (run_async_helm_reconcile (sample_env\<lparr>e_get_host := (\<lambda>cs _.
       if cs = [] then Inr (sample_obj ''ns'' ''h'' sample_host_spec) else Inl absent)\<rparr>) (''ns'', ''h'') ''x'' [] start_world)
   = [Get ''KDexHost'' (''ns'', ''h''), TakeSlot (''ns'', ''h''), Get ''KDexHost'' (''ns'', ''h''), GiveSlot (''ns'', ''h'')]"
proof -
  let ?E = "sample_env\<lparr>e_get_host := (\<lambda>cs _.
       if cs = [] then Inr (sample_obj ''ns'' ''h'' sample_host_spec) else Inl absent)\<rparr>"
  have "calls start_world = []" by (simp add: start_world_def)
  with abandoned_render_touches_nothing [of ?E start_world "(''ns'', ''h'')"
      "sample_obj ''ns'' ''h'' sample_host_spec" "''x''" "[]"]
  show ?thesis by simp
qed

text \<open>What Helm accepted, and answered, at the point of the call log where it was asked.\<close>

definition accepted :: "env \<Rightarrow> helm_client \<Rightarrow> chart_spec \<Rightarrow> world \<Rightarrow> bool" where
  "accepted E c spec w \<longleftrightarrow> (\<exists>cs rest. calls w = cs @ HelmInstallOrUpgrade c spec # rest
     \<and> e_helm_install_or_upgrade E cs c spec = None)"

definition listed :: "env \<Rightarrow> helm_client \<Rightarrow> (string \<times> string) list \<Rightarrow> string list \<Rightarrow> world \<Rightarrow> bool" where
  "listed E c lbls owned w \<longleftrightarrow> (\<exists>cs rest. calls w = cs @ HelmListReleases c lbls # rest
     \<and> e_helm_list_releases E cs c lbls = Inr owned)"

lemma accepted_later: "accepted E c spec w \<Longrightarrow> renders a b w w' \<Longrightarrow> accepted E c spec w'"
  by (force simp: accepted_def renders_def)

lemma install_accepted: "install_or_upgrade E c spec w = (None, w') \<Longrightarrow> accepted E c spec w'"
  by (fastforce simp: install_or_upgrade_def accepted_def)

text \<open>A companion as it is handed to Helm.\<close>

definition companion_spec :: "companion_chart \<Rightarrow> host \<Rightarrow> chart_spec \<Rightarrow> bool" where
  "companion_spec cc h spec \<longleftrightarrow> cs_release spec = cc_name cc \<and> cs_chart spec = cc_chart cc
     \<and> cs_namespace spec = o_namespace h \<and> cs_version spec = cc_version cc
     \<and> cs_labels spec = companion_labels (o_name h)"

lemma companion_accepted:
  assumes "reconcile_companion_chart E c h cc w = (None, w')"
  shows "\<exists>spec. companion_spec cc h spec \<and> accepted E c spec w'"
proof -
  obtain vals v where "install_or_upgrade E c \<lparr>cs_release = cc_name cc, cs_chart = cc_chart cc,
      cs_namespace = o_namespace h, cs_values = vals, cs_version = cc_version cc,
      cs_upgrade_crds = False, cs_labels = companion_labels (o_name h)\<rparr> v = (None, w')"
    using assms by (auto simp: reconcile_companion_chart_def Let_def split: sum.splits option.splits if_splits)
  from install_accepted [OF this] show ?thesis by (intro exI conjI) (auto simp: companion_spec_def)
qed

lemma companions_accepted:
  "reconcile_companions E c h ccs w = (None, w')
     \<Longrightarrow> \<forall>cc \<in> set ccs. \<exists>spec. companion_spec cc h spec \<and> accepted E c spec w'"
proof (induction ccs arbitrary: w)
  case (Cons cc ccs)
  obtain v where one: "reconcile_companion_chart E c h cc w = (None, v)"
    and more: "reconcile_companions E c h ccs v = (None, w')"
    using Cons.prems by (auto split: prod.splits option.splits)
  show ?case
    using companion_accepted [OF one] accepted_later [OF _ companions_render [OF more]] Cons.IH [OF more] by auto
qed simp

lemma prune_complete:
  assumes "prune_companion_charts E c h w = (None, w')"
  shows "\<exists>owned. listed E c (companion_labels (o_name h)) owned w'
    \<and> (\<forall>r \<in> set owned. r \<notin> cc_name ` set (companion_charts h) \<longrightarrow> HelmUninstall c r \<in> set (calls w'))"
proof -
  let ?w1 = "log_call (HelmListReleases c (companion_labels (o_name h))) w"
  obtain owned where l: "e_helm_list_releases E (calls w) c (companion_labels (o_name h)) = Inr owned"
    using assms by (auto simp: prune_companion_charts_def list_releases_def split: sum.splits)
  have p: "prune_releases E c (cc_name ` set (companion_charts h)) owned ?w1 = (None, w')"
    using assms l by (cases "owned = []") (simp_all add: prune_companion_charts_def list_releases_def)
  from prune_releases_calls [OF p] l show ?thesis by (auto simp: listed_def)
qed

text \<open>
  \<open>completed\<close> means what it says: if the status written at the end of a render records the release as
  completed, then in this render Helm accepted an install or upgrade of the host's own release and of
  every companion the host declares, and pruning uninstalled every release that Helm listed as a
  companion of the host and the host does not declare.
\<close>
theorem completed_means_everything_installed:
  assumes "render_charts E key h secrets w = (err, held, w')"
    and "get_attr (helm_end_status E hash err latest v) helm_status_attr = completed"
  shows "\<exists>c. (\<exists>spec. build_host_manager_chart_spec E h = Inr spec \<and> accepted E c spec w')
    \<and> (\<forall>cc \<in> set (companion_charts h). \<exists>spec. companion_spec cc h spec \<and> accepted E c spec w')
    \<and> (\<exists>owned. listed E c (companion_labels (o_name h)) owned w'
         \<and> (\<forall>r \<in> set owned. r \<notin> cc_name ` set (companion_charts h) \<longrightarrow> HelmUninstall c r \<in> set (calls w')))
    \<and> \<not> held"
proof -
  have none: "err = None"
    using assms(2) by (cases err) (simp_all add: helm_end_status_def get_attr_def helm_attr_defs helm_state_defs)
  obtain c w1 where c: "get_or_create_helm_client E (o_name h) (o_namespace h) secrets w = (Inr c, w1)"
    using assms(1) none by (auto simp: render_charts_def split: sum.splits prod.splits)
  obtain w2 where m: "reconcile_host_manager_chart E c h w1 = (None, w2)"
    using assms(1) none c by (auto simp: render_charts_def split: prod.splits option.splits)
  obtain w3 where k: "reconcile_companions E c h (companion_charts h) w2 = (None, w3)"
    using assms(1) none c m by (auto simp: render_charts_def split: prod.splits option.splits)
  let ?v = "log_call (GiveSlot key) w3"
  have p: "prune_companion_charts E c h ?v = (None, w')" and held: "\<not> held"
    using assms(1) none c m k by (auto simp: render_charts_def split: prod.splits)
  have give: "renders True False w3 ?v" by (simp add: renders_def)
  note tail = renders_trans [OF give prune_renders [OF p]]
  have "\<exists>spec. build_host_manager_chart_spec E h = Inr spec \<and> accepted E c spec w2"
    using m by (auto simp: reconcile_host_manager_chart_def split: sum.splits dest: install_accepted)
  then have "\<exists>spec. build_host_manager_chart_spec E h = Inr spec \<and> accepted E c spec w'"
    using accepted_later [OF _ companions_render [OF k]] accepted_later [OF _ tail] by blast
  moreover have "\<forall>cc \<in> set (companion_charts h). \<exists>spec. companion_spec cc h spec \<and> accepted E c spec w'"
    using companions_accepted [OF k] accepted_later [OF _ tail] by blast
  ultimately show ?thesis using prune_complete [OF p] held by blast
qed

theorem completed_means_everything_installed_witness:
  "\<exists>err held w'. render_charts sample_env (''ns'', ''h'') (sample_obj ''ns'' ''h'' sample_host_spec) [] start_world
      = (err, held, w') \<and> \<not> held"
proof -
  let ?h = "sample_obj ''ns'' ''h'' sample_host_spec"
  obtain err held w' where run: "render_charts sample_env (''ns'', ''h'') ?h [] start_world = (err, held, w')"
    by (rule prod_cases3)
  have "companion_charts ?h = []" by (simp add: companion_charts_def sample_obj_def sample_host_spec_def)
  moreover have "\<exists>s. build_host_manager_chart_spec sample_env ?h = Inr s"
    by (simp add: build_host_manager_chart_spec_def Let_def sample_obj_def sample_host_spec_def)
  ultimately have none: "err = None"
    using run by (auto simp: render_charts_def get_or_create_helm_client_def reconcile_host_manager_chart_def
        install_or_upgrade_def prune_companion_charts_def list_releases_def start_world_def Let_def)
  have "get_attr (helm_end_status sample_env ''x'' err ?h start_world) helm_status_attr = completed"
    unfolding none by (simp add: helm_end_status_def get_attr_def helm_attr_defs)
  from completed_means_everything_installed [OF run this] run show ?thesis by blast
qed

end
