(* ===== verification/HostReconcile.thy ===== *)
theory HostReconcile
  imports Extensions UtilityPages HelmRender
begin

text \<open>
  The host reconciler (\<open>internal/controller/kdexhost_controller.go\<close>, \<open>Reconcile\<close> and
  \<open>createOrUpdateInternalHostResource\<close>): the teardown of a deleted host, the ladder of a live one,
  and the deferred status update that ends both.
\<close>

definition host_finalizer :: string where
  "host_finalizer = ''kdex.dev/kdex-nexus-host-finalizer''"

definition add_finalizer :: "host \<Rightarrow> host" where
  "add_finalizer h = h\<lparr>o_meta := (o_meta h)\<lparr>om_finalizers := om_finalizers (o_meta h) @ [host_finalizer]\<rparr>\<rparr>"

definition remove_finalizer :: "host \<Rightarrow> host" where
  "remove_finalizer h = h\<lparr>o_meta := (o_meta h)\<lparr>om_finalizers :=
     filter (\<lambda>f. f \<noteq> host_finalizer) (om_finalizers (o_meta h))\<rparr>\<rparr>"

text \<open>\<open>r.Update(ctx, &host)\<close>: a successful update leaves the server's answer in memory.\<close>

definition update_host :: "env \<Rightarrow> host \<Rightarrow> world \<Rightarrow> go_error option \<times> host \<times> world" where
  "update_host E h w =
     (case e_update_host E (calls w) h of
        Inl err \<Rightarrow> (Some err, h, log_call (UpdateHost h) w)
      | Inr h' \<Rightarrow> (None, h', log_call (UpdateHost h) w))"

section \<open>Teardown\<close>

fun delete_live :: "env \<Rightarrow> string \<Rightarrow> object_meta list \<Rightarrow> world \<Rightarrow> go_error option \<times> world" where
  "delete_live E kind [] w = (None, w)"
| "delete_live E kind (m # ms) w =
     (if om_deleting m then delete_live E kind ms w
      else let w1 = log_call (Delete kind (key_of m)) w
           in case e_delete E (calls w) kind (key_of m) of
                Some err \<Rightarrow> (Some err, w1)
              | None \<Rightarrow> delete_live E kind ms w1)"

definition blocked_message :: "go_error \<Rightarrow> string" where
  "blocked_message err = ''Deletion is blocked: '' @ err_text err @
     ''. The finalizer is held until every release is gone.''"

text \<open>Once the internal objects are gone: releases, cached client, finalizer.\<close>

definition uninstall_host :: "env \<Rightarrow> nsname \<Rightarrow> host \<Rightarrow> secret list \<Rightarrow> world
    \<Rightarrow> reconcile_out \<times> host \<times> world" where
  "uninstall_host E req h secrets w =
     (case get_or_create_helm_client E (o_name h) (o_namespace h) secrets w of
        (Inl err, w1) \<Rightarrow> ((no_result, Some err), h, w1)
      | (Inr c, w1) \<Rightarrow>
          let (err1, w2) = uninstall E c (o_name h) (cancel_helm_operation req w1);
              (err2, w3) = uninstall_companion_charts E c h w2
          in case errors_join ((case err1 of None \<Rightarrow> [] | Some e \<Rightarrow> [e])
                               @ (case err2 of None \<Rightarrow> [] | Some e \<Rightarrow> [e])) of
               Some err \<Rightarrow>
                 ((no_result, Some err), mark E w3 degraded_set ReconcileError (blocked_message err) h, w3)
             | None \<Rightarrow>
                 let w4 = delete_helm_client (o_name h) (o_namespace h) w3;
                     (uerr, h1, w5) = update_host E (remove_finalizer h) w4
                 in ((no_result, uerr), h1, w5))"

definition reconcile_deletion :: "env \<Rightarrow> nsname \<Rightarrow> host \<Rightarrow> secret list \<Rightarrow> world
    \<Rightarrow> reconcile_out \<times> host \<times> world" where
  "reconcile_deletion E req h secrets w =
     (if host_finalizer \<notin> set (om_finalizers (o_meta h)) then ((no_result, None), h, w)
      else
        let wait = requeue (e_requeue_delay E);
            w1 = log_call (Get ''KDexInternalHost'' req) w
        in case e_get_internal_host E (calls w) req of
             Inr ih \<Rightarrow>
               (case delete_live E ''KDexInternalHost'' [o_meta ih] w1 of
                  (Some err, w2) \<Rightarrow> ((no_result, Some err), h, w2)
                | (None, w2) \<Rightarrow> ((wait, None), h, w2))
           | Inl err \<Rightarrow>
               if \<not> is_not_found err then ((no_result, Some err), h, w1)
               else
                 let w2 = log_call (ListObjs ''KDexInternalUtilityPage'' (o_name h)) w1
                 in case e_list_internal_pages E (calls w1) (o_key h) of
                      Inl err \<Rightarrow> ((no_result, Some err), h, w2)
                    | Inr pages \<Rightarrow>
                        if pages \<noteq> [] then
                          (case delete_live E ''KDexInternalUtilityPage'' (map o_meta pages) w2 of
                             (Some err, w3) \<Rightarrow> ((no_result, Some err), h, w3)
                           | (None, w3) \<Rightarrow> ((wait, None), h, w3))
                        else
                          let w3 = log_call (ListObjs ''KDexInternalTranslation'' (o_name h)) w2
                          in case e_list_internal_translations E (calls w2) (o_key h) of
                               Inl err \<Rightarrow> ((no_result, Some err), h, w3)
                             | Inr translations \<Rightarrow>
                                 if translations \<noteq> [] then
                                   (case delete_live E ''KDexInternalTranslation''
                                           (map o_meta translations) w3 of
                                      (Some err, w4) \<Rightarrow> ((no_result, Some err), h, w4)
                                    | (None, w4) \<Rightarrow> ((wait, None), h, w4))
                                 else uninstall_host E req h secrets w3)"

section \<open>The internal host\<close>

definition mutate_internal_host :: "env \<Rightarrow> host \<Rightarrow> (utility_page_type \<rightharpoonup> string) \<Rightarrow> string list
    \<Rightarrow> host_extension list \<Rightarrow> internal_host \<Rightarrow> go_error + internal_host" where
  "mutate_internal_host E h pages translations extensions ih =
     (let m = o_meta ih;
          m1 = m\<lparr>om_annotations := om_annotations m ++ om_annotations (o_meta h),
                 om_labels := om_labels m ++ om_labels (o_meta h)\<rparr>;
          m2 = (if om_created m1 = 0
                then m1\<lparr>om_labels := (om_labels m1)(''app.kubernetes.io/name'' \<mapsto> kdex_web,
                        ''kdex.dev/instance'' \<mapsto> o_name h)\<rparr>
                else m1);
          m3 = m2\<lparr>om_labels := (om_labels m2)(''kdex.dev/generation'' \<mapsto> itoa (o_generation h))\<rparr>
      in case e_set_controller E (o_meta h) m3 of
           Inl err \<Rightarrow> Inl err
         | Inr m4 \<Rightarrow> Inr (ih\<lparr>o_meta := m4, o_spec := \<lparr>ih_host_spec = o_spec h,
             ih_announcement = pages Announcement, ih_consent = pages Consent,
             ih_error = pages ErrorPage, ih_login = pages Login,
             ih_translations = translations, ih_extensions = extensions\<rparr>\<rparr>))"

definition create_or_update_internal_host :: "env \<Rightarrow> host \<Rightarrow> (utility_page_type \<rightharpoonup> string) \<Rightarrow> string list
    \<Rightarrow> host_extension list \<Rightarrow> world \<Rightarrow> (go_error + internal_host) \<times> host \<times> world" where
  "create_or_update_internal_host E h pages translations extensions w =
     (let res = e_write_internal_host E (calls w) (o_key h)
                  (mutate_internal_host E h pages translations extensions);
          w1 = log_call (WriteInternalHost (o_key h) (case res of Inl _ \<Rightarrow> None | Inr ih \<Rightarrow> Some ih)) w
      in case res of
           Inl err \<Rightarrow> (Inl err, mark E w1 degraded_set ReconcileError (err_text err) h, w1)
         | Inr ih \<Rightarrow> (Inr ih, h, w1))"

section \<open>The readiness ladder\<close>

text \<open>After the mirror is written: the Helm status, the deployment, the internal host.\<close>

definition not_available :: "(string \<times> cond_status) list \<Rightarrow> bool" where
  "not_available = list_ex (\<lambda>c. fst c = ''Available'' \<and> snd c \<noteq> CondTrue)"

definition readiness :: "env \<Rightarrow> nsname \<Rightarrow> host \<Rightarrow> internal_host \<Rightarrow> go_error option \<Rightarrow> string \<Rightarrow> world
    \<Rightarrow> reconcile_out \<times> host \<times> world" where
  "readiness E req h ih selector_err collision w =
     (let wait = requeue (e_requeue_delay E);
          helm_status = get_attr (o_status h) helm_status_attr
      in if helm_status = in_progress then ((wait, None), h, w)
         else if helm_status = failed then ((wait, None), h, w)
         else
           let w1 = log_call (Get ''Deployment'' req) w
           in case e_get_deployment E (calls w) req of
                Inl err \<Rightarrow>
                  if is_not_found err then
                    ((wait, None), mark E w1 progressing_set ReconcileSuccess
                       ''Waiting for deployment to be created by Helm.'' h, w1)
                  else ((no_result, Some err), h, w1)
              | Inr conds \<Rightarrow>
                  if not_available conds then
                    ((wait, None), mark E w1 progressing_set ReconcileSuccess
                       (''Waiting for deployment '' @ fst req @ ''/'' @ snd req @ '' to be ready.'') h, w1)
                  else if e_ready_false E (conditions (o_status ih)) then
                    ((wait, None), mark E w1 progressing_set ReconcileSuccess
                       ''Waiting for internal host to be ready.'' h, w1)
                  else
                    let h1 = (case attributes (o_status ih) ''ingress'' of
                                None \<Rightarrow> h | Some v \<Rightarrow> put_attr ''ingress'' v h)
                    in case selector_err of
                         Some err \<Rightarrow>
                           ((no_result, None), mark E w1 degraded_set ReconcileError (err_text err) h1, w1)
                       | None \<Rightarrow>
                           if collision \<noteq> [] then
                             ((no_result, None), set_translation_collision_condition E w1 h1 collision, w1)
                           else
                             ((no_result, None),
                              mark E w1 ready_set ReconcileSuccess ''Reconciliation successful'' h1, w1))"

section \<open>The live host\<close>

text \<open>
  \<open>refsUnresolved\<close> and \<open>refsRequeue\<close>: whether an optional reference did not resolve, and the
  longest delay one of them asked for.
\<close>

type_synonym pending = "bool \<times> ctrl_result"

definition note_unresolved :: "env \<Rightarrow> world \<Rightarrow> string \<Rightarrow> ctrl_result \<Rightarrow> pending \<Rightarrow> host \<Rightarrow> pending \<times> host" where
  "note_unresolved E w msg r p h =
     ((True, if requeue_after r > requeue_after (snd p) then r else snd p),
      mark E w progressing_set Reconciling msg h)"

definition resolve_optional :: "env \<Rightarrow> obj_ref option \<Rightarrow> string \<Rightarrow> string \<Rightarrow> pending \<Rightarrow> host \<Rightarrow> world
    \<Rightarrow> (pending \<times> host) \<times> world" where
  "resolve_optional E ref default_msg attr p h w =
     (if ref = None then ((p, h), w)
      else
        let (r, h1, w1) = host_resolve_ref E h ref w
        in if res_return r then
             (note_unresolved E w1 (case res_err r of None \<Rightarrow> default_msg | Some err \<Rightarrow> err_text err)
                (res_result r) p h1, w1)
           else case res_value r of
                  None \<Rightarrow> ((p, h1), w1)
                | Some ob \<Rightarrow> ((p, put_attr attr (itoa (o_generation ob)) h1), w1))"

text \<open>A required step that asked to return: a plain requeue, or Degraded with the reason.\<close>

definition stop_ladder :: "env \<Rightarrow> ctrl_result \<Rightarrow> go_error option \<Rightarrow> string \<Rightarrow> host \<Rightarrow> world
    \<Rightarrow> reconcile_out \<times> host \<times> world" where
  "stop_ladder E r err default_msg h w =
     (if err = None \<and> requeue_after r > 0 then ((r, None), h, w)
      else ((r, err), mark E w degraded_set ReconcileSuccess
              (case err of None \<Rightarrow> default_msg | Some e \<Rightarrow> err_text e) h, w))"

definition fail_ladder :: "env \<Rightarrow> cond_reason \<Rightarrow> go_error \<Rightarrow> host \<Rightarrow> world \<Rightarrow> reconcile_out \<times> host \<times> world" where
  "fail_ladder E why err h w = ((no_result, Some err), mark E w degraded_set why (err_text err) h, w)"

text \<open>From the extensions on: extensions, Helm, the mirror, then the readiness ladder.\<close>

definition reconcile_mirror :: "env \<Rightarrow> nsname \<Rightarrow> secret list \<Rightarrow> (utility_page_type \<rightharpoonup> string) \<Rightarrow> pending
    \<Rightarrow> string list \<Rightarrow> string \<Rightarrow> host \<Rightarrow> world \<Rightarrow> reconcile_out \<times> host \<times> world" where
  "reconcile_mirror E req secrets pages p translations collision h w =
     (case resolve_extensions E h w of
        (exts, h1, w1) \<Rightarrow>
          (case (case exts of
                   Inr extensions \<Rightarrow> Inr (extensions, None)
                 | Inl err \<Rightarrow> if err_bad_selector err then Inr ([], Some err) else Inl err) of
             Inl err \<Rightarrow> fail_ladder E ReconcileError err h1 w1
           | Inr (extensions, selector_err) \<Rightarrow>
               (case reconcile_helm_releases E h1 secrets w1 of
                  (Inl err, h2, w2) \<Rightarrow> fail_ladder E ReconcileSuccess err h2 w2
                | (Inr helm_op, h2, w2) \<Rightarrow>
                    (case create_or_update_internal_host E h2 pages translations extensions w2 of
                       (Inl err, h3, w3) \<Rightarrow> fail_ladder E ReconcileSuccess err h3 w3
                     | (Inr ih, h3, w3) \<Rightarrow>
                         if fst p then ((snd p, None), h3, w3)
                         else readiness E req h3 ih selector_err collision w3))))"

definition reconcile_live :: "env \<Rightarrow> nsname \<Rightarrow> host \<Rightarrow> secret list \<Rightarrow> world
    \<Rightarrow> reconcile_out \<times> host \<times> world" where
  "reconcile_live E req h secrets w =
     (case resolve_utility_pages E (mark E w reconciling_set Reconciling ''Reconciling'' h) w of
        (pg, h1, w1) \<Rightarrow>
          if pr_return pg then
            stop_ladder E (pr_result pg) (pr_err pg) ''failed to resolve utility pages'' h1 w1
          else
            let (p2, h2) = (case pr_consent pg of
                   None \<Rightarrow> ((False, no_result), h1)
                 | Some u \<Rightarrow> note_unresolved E w1 (un_message u) (un_requeue u) (False, no_result) h1);
                ((p3, h3), w3) = resolve_optional E (hs_theme_ref (o_spec h2)) ''failed to resolve theme''
                   ''theme.generation'' p2 h2 w1;
                ((p4, h4), w4) = resolve_optional E (hs_script_library_ref (o_spec h3))
                   ''failed to resolve script library'' ''scriptLibrary.generation'' p3 h3 w3;
                (tl, h5, w5) = resolve_translations E h4 w4
            in if tl_return tl then
                 stop_ladder E (tl_result tl) (tl_err tl) ''failed to resolve translations'' h5 w5
               else reconcile_mirror E req secrets (pr_refs pg) p4 (tl_refs tl) (tl_collision tl) h5 w5)"

section \<open>The deferred status update\<close>

definition merged_status :: "env \<Rightarrow> world \<Rightarrow> host \<Rightarrow> host \<Rightarrow> obj_status" where
  "merged_status E w latest h =
     (let h1 = upd_status (\<lambda>s. s\<lparr>attributes := (\<lambda>k.
            if has_prefix k ''helm.release.'' \<and> attributes (o_status latest) k \<noteq> None
            then attributes (o_status latest) k else attributes s k)\<rparr>) h;
          h2 = (if get_attr (o_status latest) helm_status_attr = failed
                   \<and> e_degraded_true E (conditions (o_status latest))
                then mark E w degraded_set ReconcileError (get_attr (o_status latest) helm_error_attr) h1
                else h1)
      in (o_status h2)\<lparr>observed_generation := o_generation h\<rparr>)"

definition deferred_status :: "env \<Rightarrow> nsname \<Rightarrow> host \<Rightarrow> reconcile_out \<Rightarrow> world \<Rightarrow> reconcile_out \<times> world" where
  "deferred_status E req h out w =
     (let (res, err) = out
      in if (case err of None \<Rightarrow> False | Some e \<Rightarrow> is_not_found e) then ((res, err), w)
         else
           let w1 = log_call (Get ''KDexHost'' req) w
           in case e_get_host E (calls w) req of
                Inl _ \<Rightarrow> ((res, err), w1)
              | Inr latest \<Rightarrow>
                  let st = merged_status E w1 latest h;
                      w2 = log_call (PatchHostStatus (o_key latest) (o_status latest) st) w1
                  in case e_patch_host_status E (calls w1) (o_key latest) (o_status latest) st of
                       None \<Rightarrow> ((res, err), w2)
                     | Some e \<Rightarrow>
                         if is_conflict e then ((requeue conflict_delay, err), w2)
                         else if \<not> is_not_found e then ((no_result, Some e), w2)
                         else ((res, err), w2))"

section \<open>Reconcile\<close>

definition reconcile_host_body :: "env \<Rightarrow> nsname \<Rightarrow> host \<Rightarrow> world \<Rightarrow> reconcile_out \<times> host \<times> world" where
  "reconcile_host_body E req h w =
     (case resolve_secrets E (o_status h) (o_namespace h) (hs_secret_selector (o_spec h)) w of
        (Inl err, st, w1) \<Rightarrow> fail_ladder E ReconcileSuccess err (h\<lparr>o_status := st\<rparr>) w1
      | (Inr secrets, st, w1) \<Rightarrow>
          let h1 = h\<lparr>o_status := st\<rparr>
          in if om_deleting (o_meta h) then reconcile_deletion E req h1 secrets w1
             else if host_finalizer \<notin> set (om_finalizers (o_meta h)) then
               (case update_host E (add_finalizer h1) w1 of
                  (Some err, h2, w2) \<Rightarrow> ((no_result, Some err), h2, w2)
                | (None, h2, w2) \<Rightarrow> ((requeue (e_requeue_delay E), None), h2, w2))
             else reconcile_live E req h1 secrets w1)"

definition reconcile_host :: "env \<Rightarrow> nsname \<Rightarrow> world \<Rightarrow> reconcile_out \<times> world" where
  "reconcile_host E req w =
     (let w1 = log_call (Get ''KDexHost'' req) w
      in case e_get_host E (calls w) req of
           Inl err \<Rightarrow> ((no_result, ignore_not_found err), w1)
         | Inr h \<Rightarrow>
             (case reconcile_host_body E req h w1 of
                (out, h', w2) \<Rightarrow> deferred_status E req h' out w2))"

section \<open>Facts about teardown\<close>

text \<open>
  \<open>quiet w w'\<close>: the calls added neither update the host nor touch its status, and none is lost.
\<close>

fun writes_host :: "call \<Rightarrow> bool" where
  "writes_host (UpdateHost _) = True"
| "writes_host (PatchHostStatus _ _ _) = True"
| "writes_host _ = False"

definition quiet :: "world \<Rightarrow> world \<Rightarrow> bool" where
  "quiet w w' \<longleftrightarrow> (\<exists>cs. calls w' = calls w @ cs \<and> (\<forall>c \<in> set cs. \<not> writes_host c))"

lemma quiet_refl [simp]: "quiet w w"
  by (simp add: quiet_def)

lemma quiet_trans: "quiet w w' \<Longrightarrow> quiet w' w'' \<Longrightarrow> quiet w w''"
  by (fastforce simp: quiet_def)

lemma quiet_log: "\<not> writes_host c \<Longrightarrow> quiet w (log_call c w)"
  by (simp add: quiet_def)

lemma quiet_calls: "quiet w w' \<Longrightarrow> c \<in> set (calls w') \<Longrightarrow> writes_host c \<Longrightarrow> c \<in> set (calls w)"
  by (auto simp: quiet_def)

lemma quiet_get_client: "get_or_create_helm_client E n ns ss w = (r, w') \<Longrightarrow> quiet w w'"
  using get_client_frame(2) by (fastforce simp: quiet_def)

lemma quiet_cancel [simp]: "quiet w (cancel_helm_operation k w)"
  by (simp add: cancel_helm_operation_def quiet_def split: option.splits)

lemma quiet_uninstall: "uninstall E c n w = (r, w') \<Longrightarrow> quiet w w'"
  by (auto simp: uninstall_def quiet_log)

lemma uninstall_frame [simp]:
  "uninstall E c n w = (r, w') \<Longrightarrow> active_ops w' = active_ops w"
  by (auto simp: uninstall_def)

lemma uninstall_companions_frame:
  assumes "uninstall_companion_charts E c h w = (r, w')"
  shows "quiet w w'" "active_ops w' = active_ops w"
proof -
  let ?w1 = "log_call (HelmListReleases c (companion_labels (o_name h))) w"
  have "quiet w w' \<and> active_ops w' = active_ops w"
  proof (cases "e_helm_list_releases E (calls w) c (companion_labels (o_name h))")
    case (Inl err)
    then show ?thesis using assms by (auto simp: uninstall_companion_charts_def list_releases_def quiet_log)
  next
    case (Inr owned)
    then obtain errs where "uninstall_all E c (owned @ undeclared_targets (set owned) (companion_charts h)) ?w1 = (errs, w')"
      using assms by (auto simp: uninstall_companion_charts_def list_releases_def split: prod.splits)
    from uninstall_all_calls [OF this] show ?thesis by (auto simp: quiet_def)
  qed
  then show "quiet w w'" "active_ops w' = active_ops w" by simp_all
qed

lemma quiet_delete_live: "delete_live E kind ms w = (r, w') \<Longrightarrow> quiet w w'"
proof (induction ms arbitrary: w)
  case (Cons m ms)
  have "quiet w (log_call (Delete kind (key_of m)) w)" by (simp add: quiet_log)
  with Cons show ?case
    by (auto simp: Let_def split: option.splits if_splits intro: quiet_trans)
qed simp

text \<open>Releasing the finalizer: everything that must have succeeded before.\<close>

lemma uninstall_host_releases:
  assumes "uninstall_host E req h secrets w = (out, h', w')"
    and "UpdateHost u \<in> set (calls w')" "UpdateHost u \<notin> set (calls w)"
  shows "u = remove_finalizer h
    \<and> (\<exists>c cs. e_helm_uninstall E cs c (o_name h) = None)
    \<and> (\<exists>c v v'. uninstall_companion_charts E c h v = (None, v'))
    \<and> active_ops w' req = None
    \<and> helm_clients w' (helm_client_key (o_name h) (o_namespace h)) = None"
proof -
  obtain r w1 where g: "get_or_create_helm_client E (o_name h) (o_namespace h) secrets w = (r, w1)"
    by (metis surj_pair)
  note q1 = quiet_get_client [OF g]
  show ?thesis
  proof (cases r)
    case (Inl err)
    then show ?thesis using assms g quiet_calls [OF q1] by (auto simp: uninstall_host_def)
  next
    case (Inr c)
    obtain err1 w2 where u1: "uninstall E c (o_name h) (cancel_helm_operation req w1) = (err1, w2)"
      by (metis surj_pair)
    obtain err2 w3 where u2: "uninstall_companion_charts E c h w2 = (err2, w3)" by (metis surj_pair)
    have q3: "quiet w w3"
      using q1 quiet_cancel quiet_uninstall [OF u1] uninstall_companions_frame(1) [OF u2]
      by (meson quiet_trans)
    have no: "UpdateHost u \<notin> set (calls w3)" using quiet_calls [OF q3] assms(3) by auto
    have ops: "active_ops w3 req = None"
      using uninstall_companions_frame(2) [OF u2] uninstall_frame [OF u1]
      by (simp add: cancel_helm_operation_def split: option.splits)
    obtain uerr h1 w5 where up: "update_host E (remove_finalizer h) (delete_helm_client (o_name h) (o_namespace h) w3)
        = (uerr, h1, w5)" by (rule prod_cases3)
    have w5: "w5 = log_call (UpdateHost (remove_finalizer h)) (delete_helm_client (o_name h) (o_namespace h) w3)"
      using up by (auto simp: update_host_def split: sum.splits)
    have run: "(out, h', w') = (case errors_join ((case err1 of None \<Rightarrow> [] | Some e \<Rightarrow> [e])
          @ (case err2 of None \<Rightarrow> [] | Some e \<Rightarrow> [e])) of
        Some err \<Rightarrow> ((no_result, Some err), mark E w3 degraded_set ReconcileError (blocked_message err) h, w3)
      | None \<Rightarrow> ((no_result, uerr), h1, w5))"
      using assms(1) g Inr u1 u2 up by (simp add: uninstall_host_def split: option.splits)
    then have w': "w' = w5" and none: "err1 = None" "err2 = None"
      using no assms(2) by (auto split: option.splits)
    have "u = remove_finalizer h" using w' w5 assms(2) no by (simp add: delete_helm_client_def)
    moreover have "e_helm_uninstall E (calls (cancel_helm_operation req w1)) c (o_name h) = None"
      using u1 none by (simp add: uninstall_def)
    ultimately show ?thesis using u2 none w' w5 ops by (auto simp: delete_helm_client_def)
  qed
qed

lemma deletion_releases:
  assumes "reconcile_deletion E req h secrets w = (out, h', w')"
    and "UpdateHost u \<in> set (calls w')" "UpdateHost u \<notin> set (calls w)"
  shows "u = remove_finalizer h
    \<and> (\<exists>cs err. e_get_internal_host E cs req = Inl err \<and> is_not_found err)
    \<and> (\<exists>cs. e_list_internal_pages E cs (o_key h) = Inr [])
    \<and> (\<exists>cs. e_list_internal_translations E cs (o_key h) = Inr [])
    \<and> (\<exists>c cs. e_helm_uninstall E cs c (o_name h) = None)
    \<and> (\<exists>c v v'. uninstall_companion_charts E c h v = (None, v'))
    \<and> active_ops w' req = None
    \<and> helm_clients w' (helm_client_key (o_name h) (o_namespace h)) = None"
proof -
  have fin: "host_finalizer \<in> set (om_finalizers (o_meta h))"
    using assms by (auto simp: reconcile_deletion_def split: if_splits)
  let ?w1 = "log_call (Get ''KDexInternalHost'' req) w"
  let ?w2 = "log_call (ListObjs ''KDexInternalUtilityPage'' (o_name h)) ?w1"
  let ?w3 = "log_call (ListObjs ''KDexInternalTranslation'' (o_name h)) ?w2"
  have stay: False if "delete_live E kind ms v = (r, w')" "quiet w v" for kind ms v r
    using quiet_calls [OF quiet_trans [OF that(2) quiet_delete_live [OF that(1)]] assms(2)] assms(3) by simp
  have q: "quiet w ?w1" "quiet w ?w2" "quiet w ?w3" by (auto simp: quiet_def)
  have stay0: "w' \<noteq> ?w1" "w' \<noteq> ?w2" "w' \<noteq> ?w3" using assms(2,3) by auto
  have waiting: "\<exists>r. delete_live E kind ms v = (r, w')"
    if "(case delete_live E kind ms v of (Some err, w2) \<Rightarrow> ((no_result, Some err), h, w2)
         | (None, w2) \<Rightarrow> ((requeue (e_requeue_delay E), None), h, w2)) = (out, h', w')" for kind ms v
    using that by (auto split: prod.splits option.splits)
  have "\<exists>err. e_get_internal_host E (calls w) req = Inl err \<and> is_not_found err"
  proof (cases "e_get_internal_host E (calls w) req")
    case (Inl err)
    then show ?thesis using assms(1) fin stay0 by (auto simp: reconcile_deletion_def Let_def split: if_splits)
  next
    case (Inr ih)
    then show ?thesis using assms(1) fin stay [OF _ q(1)] waiting
      by (simp add: reconcile_deletion_def Let_def del: delete_live.simps) blast
  qed
  then obtain err where nf: "e_get_internal_host E (calls w) req = Inl err" "is_not_found err" by blast
  have pages: "e_list_internal_pages E (calls ?w1) (o_key h) = Inr []"
  proof (cases "e_list_internal_pages E (calls ?w1) (o_key h)")
    case (Inl err)
    then show ?thesis using assms(1) fin nf stay0 by (simp add: reconcile_deletion_def Let_def)
  next
    case (Inr items)
    then show ?thesis using assms(1) fin nf stay [OF _ q(2)] waiting
      by (cases "items = []") (simp, simp add: reconcile_deletion_def Let_def del: delete_live.simps, blast)
  qed
  have trs: "e_list_internal_translations E (calls ?w2) (o_key h) = Inr []"
  proof (cases "e_list_internal_translations E (calls ?w2) (o_key h)")
    case (Inl err)
    then show ?thesis using assms(1) fin nf pages stay0 by (simp add: reconcile_deletion_def Let_def)
  next
    case (Inr items)
    then show ?thesis using assms(1) fin nf pages stay [OF _ q(3)] waiting
      by (cases "items = []") (simp, simp add: reconcile_deletion_def Let_def del: delete_live.simps, blast)
  qed
  have "uninstall_host E req h secrets ?w3 = (out, h', w')"
    using assms(1) fin nf pages trs by (simp add: reconcile_deletion_def)
  from uninstall_host_releases [OF this assms(2)] assms(3) nf pages trs show ?thesis by auto
qed

end
