(* ===== verification/HostLadder.thy ===== *)
theory HostLadder
  imports HostReconcile
begin

text \<open>
  What the steps of the host reconciler have in common, and the properties of the whole
  reconcile. The locale \<open>ladder_step\<close> is the contract of a step: it leaves the host's identity
  and spec alone, never updates the host object itself, and never makes a host that is not
  Ready look Ready. It is interpreted for every step of the ladder.
\<close>

section \<open>The contract of a step\<close>

definition unready :: "env \<Rightarrow> host \<Rightarrow> bool" where
  "unready E h \<longleftrightarrow> \<not> e_ready_true E (conditions (o_status h))"

definition no_update :: "world \<Rightarrow> world \<Rightarrow> bool" where
  "no_update w w' \<longleftrightarrow> (\<exists>cs. calls w' = calls w @ cs \<and> (\<forall>u. UpdateHost u \<notin> set cs))"

lemma no_update_refl [simp]: "no_update w w"
  by (simp add: no_update_def)

lemma no_update_trans: "no_update w w' \<Longrightarrow> no_update w' w'' \<Longrightarrow> no_update w w''"
  by (fastforce simp: no_update_def)

lemma no_update_log [simp]: "no_update w (log_call c w) \<longleftrightarrow> (\<forall>u. c \<noteq> UpdateHost u)"
  by (auto simp: no_update_def)

lemma no_update_extends: "extends P w w' \<Longrightarrow> (\<And>u. \<not> P (UpdateHost u)) \<Longrightarrow> no_update w w'"
  by (fastforce simp: extends_def no_update_def)

lemma no_update_keeps: "no_update w w' \<Longrightarrow> c \<in> set (calls w) \<Longrightarrow> c \<in> set (calls w')"
  by (auto simp: no_update_def)

text \<open>The contract as one composable relation between two states of a reconcile.\<close>

definition step_ok :: "env \<Rightarrow> host \<Rightarrow> world \<Rightarrow> host \<Rightarrow> world \<Rightarrow> bool" where
  "step_ok E h w h' w' \<longleftrightarrow> (lawful_conditions E \<longrightarrow> unready E h \<longrightarrow> unready E h')
     \<and> o_spec h' = o_spec h \<and> o_key h' = o_key h \<and> no_update w w'"

lemma step_ok_refl [simp]: "step_ok E h w h w"
  by (simp add: step_ok_def)

lemma step_ok_trans: "step_ok E h w h1 w1 \<Longrightarrow> step_ok E h1 w1 h2 w2 \<Longrightarrow> step_ok E h w h2 w2"
  unfolding step_ok_def by (auto intro: no_update_trans)

locale ladder_step =
  fixes E :: env and step :: "host \<Rightarrow> world \<Rightarrow> 'a \<times> host \<times> world"
  assumes step_unready: "lawful_conditions E \<Longrightarrow> step h w = (r, h', w') \<Longrightarrow> unready E h \<Longrightarrow> unready E h'"
    and step_identity: "step h w = (r, h', w') \<Longrightarrow> o_spec h' = o_spec h \<and> o_key h' = o_key h"
    and step_quiet: "step h w = (r, h', w') \<Longrightarrow> no_update w w'"
begin

lemma ok: "step h w = (r, h', w') \<Longrightarrow> step_ok E h w h' w'"
  using step_unready step_identity step_quiet by (simp add: step_ok_def)

lemma keeps_calls: "step h w = (r, h', w') \<Longrightarrow> c \<in> set (calls w) \<Longrightarrow> c \<in> set (calls w')"
  using step_quiet no_update_keeps by blast

lemma never_updates: "step h w = (r, h', w') \<Longrightarrow> UpdateHost u \<in> set (calls w') \<Longrightarrow> UpdateHost u \<in> set (calls w)"
  using step_quiet by (fastforce simp: no_update_def)

end

section \<open>The steps\<close>

lemma lawful_ready:
  "lawful_conditions E \<Longrightarrow> e_ready_true E (e_set_conditions E cs s y m old) \<longleftrightarrow>
     (if cs_ready s = CondUnset then e_ready_true E old else cs_ready s = CondTrue)"
  by (simp add: lawful_conditions_def)

lemma unready_mark:
  "lawful_conditions E \<Longrightarrow> cs_ready s \<noteq> CondTrue \<Longrightarrow> unready E h \<or> cs_ready s \<noteq> CondUnset
   \<Longrightarrow> unready E (mark E w s why msg h)"
  unfolding unready_def lawful_conditions_def by auto

lemma unready_upd [simp]:
  "unready E (put_attr k v h) = unready E h"
  "unready E (upd_status (del_attr k) h) = unready E h"
  "unready E (with_generation g h) = unready E h"
  by (simp_all add: unready_def put_attr_def with_generation_def)

lemma cs_ready_sets [simp]:
  "cs_ready degraded_set = CondFalse" "cs_ready progressing_set = CondFalse"
  "cs_ready reconciling_set = CondUnknown" "cs_ready ready_set = CondTrue"
  "cs_ready starting_statuses = CondFalse"
  by (simp_all add: degraded_set_def progressing_set_def reconciling_set_def ready_set_def
      starting_statuses_def)

lemma resolve_ref_unready:
  assumes "lawful_conditions E" "resolve_ref E rk ns ref conds w = (r, conds', w')"
    and "\<not> e_ready_true E conds"
  shows "\<not> e_ready_true E conds'"
  using assms(2,3)
  by (auto simp: resolve_ref_def lawful_ready [OF assms(1)] is_ready_def Let_def split: resolve_splits)

interpretation ref_step: ladder_step E "\<lambda>h. host_resolve_ref E h ref" for E ref
proof unfold_locales
  fix h w r h' w' assume run: "host_resolve_ref E h ref w = (r, h', w')"
  show "unready E h'" if "lawful_conditions E" "unready E h"
    using run that resolve_ref_unready by (auto simp: host_resolve_ref_def unready_def split: prod.splits)
  show "o_spec h' = o_spec h \<and> o_key h' = o_key h" using host_resolve_ref_frame [OF run] by simp
  show "no_update w w'" using host_resolve_ref_frame(4) [OF run] by (rule no_update_extends) simp
qed

lemma create_page_quiet: "create_or_update_internal_page E h spec t gen w = (r, w') \<Longrightarrow> no_update w w'"
  by (auto simp: create_or_update_internal_page_def no_update_def Let_def split: sum.splits)

interpretation one_page: ladder_step E "\<lambda>h. resolve_utility_page E h t ref" for E t ref
proof unfold_locales
  fix h w out h' w' assume run: "resolve_utility_page E h t ref w = (out, h', w')"
  obtain r h1 w1 where r: "host_resolve_ref E h ref w = (r, h1, w1)" by (rule prod_cases3)
  have h': "h' = h1 \<or> (\<exists>k v. h' = put_attr k v h1)"
    using run r by (auto simp: resolve_utility_page_def Let_def split: if_splits option.splits sum.splits prod.splits)
  have w': "w' = w1 \<or> (\<exists>g spec gen x. create_or_update_internal_page E g spec t gen w1 = (x, w'))"
    using run r by (auto simp: resolve_utility_page_def Let_def split: if_splits option.splits sum.splits prod.splits)
  show "unready E h'" if "lawful_conditions E" "unready E h"
    using ref_step.step_unready [OF that(1) r that(2)] h' by auto
  show "o_spec h' = o_spec h \<and> o_key h' = o_key h" using resolve_page_frame(1,2) [OF run] by simp
  show "no_update w w'"
    using ref_step.step_quiet [OF r] w' create_page_quiet by (metis no_update_trans)
qed

interpretation delete_page: ladder_step E "\<lambda>h. delete_internal_page E h t" for E t
  by unfold_locales
    (auto simp: delete_internal_page_def no_update_def Let_def split: sum.splits if_splits)

interpretation pages_loop: ladder_step E "\<lambda>h. resolve_pages_from E h ts refs consent" for E ts refs consent
proof unfold_locales
  fix h w out h' w' assume "resolve_pages_from E h ts refs consent w = (out, h', w')"
  then have "(lawful_conditions E \<longrightarrow> unready E h \<longrightarrow> unready E h')
      \<and> o_spec h' = o_spec h \<and> o_key h' = o_key h \<and> no_update w w'"
  proof (induction ts arbitrary: h refs consent w)
    case (Cons t ts)
    obtain po h1 w1 where p: "resolve_utility_page E h t (utility_page_ref h t) w = (po, h1, w1)" by (rule prod_cases3)
    obtain d h2 w2 where d: "delete_internal_page E h1 t w1 = (d, h2, w2)" by (rule prod_cases3)
    have s1: "(lawful_conditions E \<longrightarrow> unready E h \<longrightarrow> unready E h1) \<and> o_spec h1 = o_spec h \<and> o_key h1 = o_key h \<and> no_update w w1"
      using one_page.step_unready [OF _ p] one_page.step_identity [OF p] one_page.step_quiet [OF p] by blast
    have s2: "(lawful_conditions E \<longrightarrow> unready E h \<longrightarrow> unready E h2) \<and> o_spec h2 = o_spec h \<and> o_key h2 = o_key h \<and> no_update w w2"
      using s1 delete_page.step_unready [OF _ d] delete_page.step_identity [OF d] delete_page.step_quiet [OF d]
      by (metis no_update_trans)
    have "(h' = h1 \<and> w' = w1) \<or> (h' = h2 \<and> w' = w2)
        \<or> (\<exists>refs1 consent1. resolve_pages_from E h1 ts refs1 consent1 w1 = (out, h', w'))
        \<or> (\<exists>refs1 consent1. resolve_pages_from E h2 ts refs1 consent1 w2 = (out, h', w'))"
      using Cons.prems p d by (auto simp: Let_def split: option.splits if_splits)
    then show ?case
    proof (elim disjE exE)
      fix refs1 consent1 assume "resolve_pages_from E h1 ts refs1 consent1 w1 = (out, h', w')"
      from Cons.IH [OF this] s1 show ?thesis by (metis no_update_trans)
    next
      fix refs1 consent1 assume "resolve_pages_from E h2 ts refs1 consent1 w2 = (out, h', w')"
      from Cons.IH [OF this] s2 show ?thesis by (metis no_update_trans)
    qed (use s1 s2 in simp_all)
  qed simp
  then show "lawful_conditions E \<Longrightarrow> unready E h \<Longrightarrow> unready E h'"
    "o_spec h' = o_spec h \<and> o_key h' = o_key h" "no_update w w'" by simp_all
qed

interpretation pages_step: ladder_step E "resolve_utility_pages E" for E
  unfolding resolve_utility_pages_def [abs_def] by (rule pages_loop.ladder_step_axioms)

text \<open>The translations.\<close>

interpretation sources_step: ladder_step E "\<lambda>h. resolve_sources E h refs" for E refs
proof unfold_locales
  fix h w r h' w' assume "resolve_sources E h refs w = (r, h', w')"
  then have "(lawful_conditions E \<longrightarrow> unready E h \<longrightarrow> unready E h')
      \<and> o_spec h' = o_spec h \<and> o_key h' = o_key h \<and> no_update w w'"
  proof (induction refs arbitrary: h w r h' w')
    case (Cons ref refs)
    obtain r1 h1 w1 where one: "host_resolve_ref E h (Some ref) w = (r1, h1, w1)" by (rule prod_cases3)
    obtain r2 h2 w2 where rest: "resolve_sources E h1 refs w1 = (r2, h2, w2)" by (rule prod_cases3)
    have "(h' = h1 \<and> w' = w1) \<or> (h' = h2 \<and> w' = w2)"
      using Cons.prems one rest by (auto split: if_splits)
    with Cons.IH [OF rest] ref_step.step_unready [OF _ one] ref_step.step_identity [OF one]
      ref_step.step_quiet [OF one] show ?case by (metis no_update_trans)
  qed simp
  then show "lawful_conditions E \<Longrightarrow> unready E h \<Longrightarrow> unready E h'"
    "o_spec h' = o_spec h \<and> o_key h' = o_key h" "no_update w w'" by simp_all
qed

interpretation translation_step: ladder_step E "\<lambda>h. create_or_update_internal_translation E spec name gen h"
  for E spec name gen
  by unfold_locales
    (auto simp: create_or_update_internal_translation_def no_update_def Let_def intro!: unready_mark
      split: sum.splits)

interpretation write_step: ladder_step E "\<lambda>h. write_sources E h ss" for E ss
proof unfold_locales
  fix h w r h' w' assume "write_sources E h ss w = (r, h', w')"
  then have "(lawful_conditions E \<longrightarrow> unready E h \<longrightarrow> unready E h')
      \<and> o_spec h' = o_spec h \<and> o_key h' = o_key h \<and> no_update w w'"
  proof (induction ss arbitrary: h w r h' w')
    case (Cons s ss)
    obtain r1 h1 w1 where one: "create_or_update_internal_translation E (ts_spec s) (ts_name s) (ts_generation s) h w
        = (r1, h1, w1)" by (rule prod_cases3)
    let ?h1 = "put_attr (translation_attr s) (itoa (ts_generation s)) h1"
    obtain r2 h2 w2 where rest: "write_sources E ?h1 ss w1 = (r2, h2, w2)" by (rule prod_cases3)
    have "(h' = h1 \<and> w' = w1) \<or> (h' = h2 \<and> w' = w2)"
      using Cons.prems one rest by (auto split: sum.splits)
    moreover note Cons.IH [OF rest, unfolded unready_upd] translation_step.step_unready [OF _ one]
      translation_step.step_identity [OF one] translation_step.step_quiet [OF one]
    ultimately show ?case by (auto intro: no_update_trans)
  qed simp
  then show "lawful_conditions E \<Longrightarrow> unready E h \<Longrightarrow> unready E h'"
    "o_spec h' = o_spec h \<and> o_key h' = o_key h" "no_update w w'" by simp_all
qed

lemma prune_step:
  assumes "prune_internal_translations E h keep w = (h', w')"
  shows "unready E h' = unready E h" "o_spec h' = o_spec h" "o_key h' = o_key h" "no_update w w'"
  using assms
  by (auto simp: prune_internal_translations_def unready_def no_update_def prune_items_calls Let_def
      split: sum.splits)

interpretation publish_step: ladder_step E "\<lambda>h. publish_sources E h d self declared" for E d self declared
proof unfold_locales
  fix h w r h' w' assume run: "publish_sources E h d self declared w = (r, h', w')"
  obtain ordered collision where ord: "order_translation_sources d (strip_self_attached declared self) declared
      = (ordered, collision)" by (metis surj_pair)
  obtain r1 h1 w1 where one: "write_sources E h ordered w = (r1, h1, w1)" by (rule prod_cases3)
  have "(h' = h1 \<and> w' = w1) \<or> (\<exists>keep. prune_internal_translations E h1 keep w1 = (h', w'))"
    using run ord one by (auto simp: publish_sources_def split: sum.splits prod.splits)
  moreover note write_step.step_unready [OF _ one] write_step.step_identity [OF one] write_step.step_quiet [OF one]
  ultimately show "lawful_conditions E \<Longrightarrow> unready E h \<Longrightarrow> unready E h'"
    "o_spec h' = o_spec h \<and> o_key h' = o_key h" "no_update w w'"
    using prune_step by (auto intro: no_update_trans)
qed

interpretation translations_step: ladder_step E "resolve_translations E" for E
proof unfold_locales
  fix h w r h' w' assume run: "resolve_translations E h w = (r, h', w')"
  obtain r1 h1 w1 where one: "host_resolve_ref E h (Some default_translation_ref) w = (r1, h1, w1)" by (rule prod_cases3)
  let ?w2 = "log_call (ListObjs ''KDexTranslation'' (o_name h1)) w1"
  note s1 = ref_step.step_unready [OF _ one] ref_step.step_identity [OF one] ref_step.step_quiet [OF one]
  have "(lawful_conditions E \<longrightarrow> unready E h \<longrightarrow> unready E h') \<and> o_spec h' = o_spec h \<and> o_key h' = o_key h \<and> no_update w w'"
  proof (cases "res_return r1")
    case True
    then show ?thesis using run one s1 by (simp add: resolve_translations_def)
  next
    case False
    have q2: "no_update w ?w2" using s1(3) by (rule no_update_trans) simp
    show ?thesis
    proof (cases "e_list_translations E (calls w1) (o_key h1)")
      case (Inl err)
      then show ?thesis using run one s1 q2 False by (auto simp: resolve_translations_def Let_def)
    next
      case (Inr attached)
      obtain r3 h3 w3 where s3: "resolve_sources E h1 (attached_refs attached) ?w2 = (r3, h3, w3)" by (rule prod_cases3)
      obtain r4 h4 w4 where s4: "resolve_sources E h3 (hs_translation_refs (o_spec h3)) w3 = (r4, h4, w4)"
        by (rule prod_cases3)
      have "(h' = h3 \<and> w' = w3) \<or> (h' = h4 \<and> w' = w4)
          \<or> (\<exists>d self declared. publish_sources E h4 d self declared w4 = (r, h', w'))"
        using run one False Inr s3 s4 by (auto simp: resolve_translations_def Let_def split: if_splits)
      moreover have ok3: "step_ok E h w h3 w3"
        using s1 q2 sources_step.ok [OF s3] by (auto simp: step_ok_def intro: no_update_trans)
      moreover have ok4: "step_ok E h w h4 w4" by (rule step_ok_trans [OF ok3 sources_step.ok [OF s4]])
      ultimately have "step_ok E h w h' w'"
      proof (elim disjE exE)
        fix d self declared assume "publish_sources E h4 d self declared w4 = (r, h', w')"
        from step_ok_trans [OF ok4 publish_step.ok [OF this]] show ?thesis .
      qed simp_all
      then show ?thesis by (simp add: step_ok_def)
    qed
  qed
  then show "lawful_conditions E \<Longrightarrow> unready E h \<Longrightarrow> unready E h'"
    "o_spec h' = o_spec h \<and> o_key h' = o_key h" "no_update w w'" by simp_all
qed

text \<open>Extensions, Helm, the mirror and the optional references.\<close>

interpretation extensions_step: ladder_step E "resolve_extensions E" for E
  by unfold_locales
    (auto simp: resolve_extensions_def drop_extension_attrs_def unready_def no_update_def Let_def
      split: sum.splits prod.splits)

lemma helm_start_unready: "lawful_conditions E \<Longrightarrow> unready E (helm_start E w hash h)"
  unfolding helm_start_def by (rule unready_mark) simp_all

lemma helm_start_identity: "o_spec (helm_start E w hash h) = o_spec h" "o_meta (helm_start E w hash h) = o_meta h"
  by (simp_all add: helm_start_def)

lemma try_set_quiet: "try_set_helm_operation_active k c hash w = (b, w') \<Longrightarrow> no_update w w'"
  by (auto simp: try_set_helm_operation_active_def no_update_def Let_def split: option.splits if_splits)

interpretation helm_step: ladder_step E "\<lambda>h. reconcile_helm_releases E h secrets" for E secrets
proof unfold_locales
  fix h w r h' w' assume run: "reconcile_helm_releases E h secrets w = (r, h', w')"
  let ?w1 = "log_call (Get ''KDexHost'' (o_key h)) w"
  have cases: "h' = h \<or> (\<exists>g. h' = with_generation g h) \<or> (\<exists>g hash. h' = helm_start E ?w1 hash (with_generation g h))"
    using run by (auto simp: reconcile_helm_releases_def Let_def split: sum.splits if_splits option.splits prod.splits)
  have gen: "o_spec (with_generation g h) = o_spec h \<and> o_key (with_generation g h) = o_key h" for g
    by (simp add: with_generation_def key_of_def)
  show "o_spec h' = o_spec h \<and> o_key h' = o_key h"
    using cases gen by (elim disjE exE) (simp_all add: helm_start_identity)
  show "unready E h'" if "lawful_conditions E" "unready E h"
    using cases that by (elim disjE exE) (simp_all add: helm_start_unready)
  show "no_update w w'"
  proof (cases "e_get_host E (calls w) (o_key h)")
    case (Inl err)
    then show ?thesis using run by (auto simp: reconcile_helm_releases_def)
  next
    case (Inr latest)
    let ?h1 = "with_generation (o_generation latest) h"
    note g = Inr
    show ?thesis
    proof (cases "compute_helm_release_hash E ?h1")
      case (Inl err)
      then show ?thesis using run g by (auto simp: reconcile_helm_releases_def Let_def)
    next
      case (Inr hash)
      let ?w2 = "log_call (PatchHostStatus (o_key latest) (o_status latest) (o_status (helm_start E ?w1 hash ?h1))) ?w1"
      obtain b w3 where t: "try_set_helm_operation_active (o_key ?h1) (length (calls ?w2)) hash ?w2 = (b, w3)"
        by (metis surj_pair)
      have q: "no_update w ?w1" "no_update w ?w2" by (simp_all add: no_update_def)
      have w3: "no_update w w3" "no_update w (log_call (StartRender (o_key ?h1) hash) w3)"
        using no_update_trans [OF q(2) try_set_quiet [OF t]] by (auto intro: no_update_trans)
      show ?thesis using run g Inr t q w3
        by (auto simp: reconcile_helm_releases_def Let_def split: if_splits option.splits)
    qed
  qed
qed

interpretation mirror_step: ladder_step E "\<lambda>h. create_or_update_internal_host E h pages refs exts"
  for E pages refs exts
  by unfold_locales
    (auto simp: create_or_update_internal_host_def no_update_def Let_def intro!: unready_mark split: sum.splits)

section \<open>The frame of a whole reconcile\<close>

lemma resolve_secrets_frame:
  assumes "resolve_secrets E st ns sel w = (r, st', w')"
  shows "no_update w w'" "conditions st' = conditions st"
proof -
  have "conditions (foldl (\<lambda>s x. set_attr (secret_attr x) (itoa (o_generation x)) s) st xs) = conditions st" for xs st
    by (induction xs arbitrary: st) simp_all
  then show "no_update w w'" "conditions st' = conditions st"
    using assms by (auto simp: resolve_secrets_def no_update_def Let_def split: option.splits sum.splits)
qed

lemma deferred_status_quiet:
  assumes "deferred_status E req h out w = (out', w')"
  shows "no_update w w'" "active_ops w' = active_ops w" "helm_clients w' = helm_clients w"
  using assms
  by (auto simp: deferred_status_def no_update_def Let_def split: prod.splits option.splits sum.splits if_splits)

section \<open>Properties\<close>

text \<open>
  C19. The finalizer goes last. If the reconcile of a host that is being deleted updates the host
  object, it removes the finalizer and by then the internal host is gone, no internal utility
  page or translation is listed, Helm has uninstalled the host's release and every companion
  it owns or declares, no render of the host is active and its Helm client is forgotten.
\<close>
theorem finalizer_released_last:
  assumes "e_get_host E (calls w) req = Inr h" "om_deleting (o_meta h)"
    and "reconcile_host E req w = (out, w')"
    and "UpdateHost u \<in> set (calls w')" "UpdateHost u \<notin> set (calls w)"
  shows "host_finalizer \<notin> set (om_finalizers (o_meta u)) \<and> o_key u = o_key h
    \<and> (\<exists>cs err. e_get_internal_host E cs req = Inl err \<and> is_not_found err)
    \<and> (\<exists>cs. e_list_internal_pages E cs (o_key h) = Inr [])
    \<and> (\<exists>cs. e_list_internal_translations E cs (o_key h) = Inr [])
    \<and> (\<exists>c cs. e_helm_uninstall E cs c (o_name h) = None)
    \<and> (\<exists>c g v v'. o_meta g = o_meta h \<and> o_spec g = o_spec h
         \<and> uninstall_companion_charts E c g v = (None, v'))
    \<and> active_ops w' req = None
    \<and> helm_clients w' (helm_client_key (o_name h) (o_namespace h)) = None"
proof -
  let ?w1 = "log_call (Get ''KDexHost'' req) w"
  obtain out1 h' w2 where body: "reconcile_host_body E req h ?w1 = (out1, h', w2)" by (rule prod_cases3)
  have def: "deferred_status E req h' out1 w2 = (out, w')"
    using assms(1,3) body by (simp add: reconcile_host_def Let_def)
  note q = deferred_status_quiet [OF def]
  have in2: "UpdateHost u \<in> set (calls w2)" using q(1) assms(4) by (fastforce simp: no_update_def)
  obtain r st w3 where sec: "resolve_secrets E (o_status h) (o_namespace h) (hs_secret_selector (o_spec h)) ?w1
      = (r, st, w3)" by (rule prod_cases3)
  have no3: "UpdateHost u \<notin> set (calls w3)"
    using resolve_secrets_frame(1) [OF sec] assms(5) by (fastforce simp: no_update_def)
  then obtain secrets where "r = Inr secrets"
    using body sec in2 by (cases r) (auto simp: reconcile_host_body_def fail_ladder_def)
  then have del: "reconcile_deletion E req (h\<lparr>o_status := st\<rparr>) secrets w3 = (out1, h', w2)"
    using body sec assms(2) by (simp add: reconcile_host_body_def)
  note rel = deletion_releases [OF del in2 no3]
  then have "host_finalizer \<notin> set (om_finalizers (o_meta u))" "o_key u = o_key h"
    by (auto simp: remove_finalizer_def key_of_def)
  moreover obtain c v v' where "uninstall_companion_charts E c (h\<lparr>o_status := st\<rparr>) v = (None, v')"
    using rel by blast
  then have "\<exists>c g v v'. o_meta g = o_meta h \<and> o_spec g = o_spec h \<and> uninstall_companion_charts E c g v = (None, v')"
    by (intro exI [of _ c] exI [of _ "h\<lparr>o_status := st\<rparr>"] exI [of _ v] exI [of _ v']) simp
  ultimately show ?thesis using rel q(2,3) by simp
qed

definition sample_deleted_host :: host where
  "sample_deleted_host = (sample_obj ''ns'' ''h'' sample_host_spec)\<lparr>o_meta :=
     (sample_meta ''ns'' ''h'')\<lparr>om_deleting := True, om_finalizers := [host_finalizer]\<rparr>\<rparr>"

lemma sample_deleted_sel [simp]:
  "o_name sample_deleted_host = ''h''" "o_namespace sample_deleted_host = ''ns''"
  "o_key sample_deleted_host = (''ns'', ''h'')" "om_deleting (o_meta sample_deleted_host)"
  "om_finalizers (o_meta sample_deleted_host) = [host_finalizer]"
  "o_spec sample_deleted_host = sample_host_spec" "hs_secret_selector sample_host_spec = None"
  "hs_helm sample_host_spec = None"
  by (simp_all add: sample_deleted_host_def sample_obj_def sample_meta_def key_of_def sample_host_spec_def)

theorem finalizer_released_last_witness:
  "\<exists>out w' u. reconcile_host (sample_env\<lparr>e_get_host := (\<lambda>_ _. Inr sample_deleted_host)\<rparr>) (''ns'', ''h'') start_world
      = (out, w') \<and> UpdateHost u \<in> set (calls w') \<and> host_finalizer \<notin> set (om_finalizers (o_meta u))"
proof -
  let ?E = "sample_env\<lparr>e_get_host := (\<lambda>_ _. Inr sample_deleted_host)\<rparr>"
  let ?req = "(''ns'', ''h'')"
  obtain out w' where run: "reconcile_host ?E ?req start_world = (out, w')" by (metis surj_pair)
  let ?u = "remove_finalizer sample_deleted_host"
  let ?w1 = "log_call (Get ''KDexHost'' ?req) start_world"
  have sec: "resolve_secrets ?E (o_status sample_deleted_host) ''ns'' None ?w1 = (Inr [], o_status sample_deleted_host, ?w1)"
    by (simp add: resolve_secrets_def)
  have same: "sample_deleted_host\<lparr>o_status := o_status sample_deleted_host\<rparr> = sample_deleted_host" by simp
  obtain out1 h' w2 where del: "reconcile_deletion ?E ?req sample_deleted_host [] ?w1 = (out1, h', w2)"
    by (rule prod_cases3)
  have "UpdateHost ?u \<in> set (calls w2)"
    using del by (auto simp: reconcile_deletion_def uninstall_host_def get_or_create_helm_client_def
        uninstall_def uninstall_companion_charts_def list_releases_def companion_charts_def update_host_def
        is_not_found_def absent_def start_world_def Let_def)
  moreover have "deferred_status ?E ?req h' out1 w2 = (out, w')"
    using run del sec same by (simp add: reconcile_host_def reconcile_host_body_def Let_def)
  from deferred_status_quiet(1) [OF this] have "set (calls w2) \<subseteq> set (calls w')"
    by (auto simp: no_update_def)
  ultimately have u: "UpdateHost ?u \<in> set (calls w')" by blast
  have read: "e_get_host ?E (calls start_world) ?req = Inr sample_deleted_host" by simp
  have "UpdateHost ?u \<notin> set (calls start_world)" by (simp add: start_world_def)
  from finalizer_released_last [OF read _ run u this] u run show ?thesis by auto
qed

end
