(* ===== verification/HostReady.thy ===== *)
theory HostReady
  imports HostLadder
begin

text \<open>
  What a host that ends a reconcile Ready has been through, and two ways in which the ladder
  reports less than it should.
\<close>

section \<open>The last rung\<close>

lemma unready_marks:
  "lawful_conditions E \<Longrightarrow> unready E (mark E w progressing_set y m h)"
  "lawful_conditions E \<Longrightarrow> unready E (mark E w degraded_set y m h)"
  "lawful_conditions E \<Longrightarrow> unready E (mark E w reconciling_set y m h)"
  by (rule unready_mark; simp)+

lemma readiness_ready:
  assumes "lawful_conditions E" "unready E h" "\<not> unready E h'"
    and run: "readiness E req h ih selector_err collision w = (out, h', w')"
  shows "out = (no_result, None) \<and> selector_err = None \<and> collision = []
    \<and> get_attr (o_status h) helm_status_attr \<notin> {in_progress, failed}
    \<and> (\<exists>cs conds. e_get_deployment E cs req = Inr conds \<and> \<not> not_available conds)
    \<and> \<not> e_ready_false E (conditions (o_status ih)) \<and> w' = log_call (Get ''Deployment'' req) w"
proof -
  let ?status = "get_attr (o_status h) helm_status_attr"
  note no = assms(2,3) unready_marks [OF assms(1)]
  have st: "?status \<notin> {in_progress, failed}"
    using run no by (auto simp: readiness_def Let_def split: if_splits)
  show ?thesis
  proof (cases "e_get_deployment E (calls w) req")
    case (Inl err)
    then show ?thesis using run no st by (auto simp: readiness_def Let_def split: if_splits)
  next
    case (Inr conds)
    have avail: "\<not> not_available conds"
      using run no st Inr by (auto simp: readiness_def Let_def split: if_splits)
    have internal: "\<not> e_ready_false E (conditions (o_status ih))"
      using run no st Inr avail by (auto simp: readiness_def Let_def split: if_splits)
    have rest: "selector_err = None" "collision = []"
      using run no st Inr avail internal
      by (auto simp: readiness_def Let_def set_translation_collision_condition_def split: if_splits option.splits)
    then show ?thesis using run st Inr avail internal by (auto simp: readiness_def Let_def)
  qed
qed

text \<open>A reconcile step that leaves the Helm status alone found nothing to render.\<close>

lemma helm_idle:
  assumes "reconcile_helm_releases E h secrets w = (Inr b, h', w')"
    and "get_attr (o_status h') helm_status_attr \<noteq> in_progress"
  shows "\<exists>cs latest hash v. e_get_host E cs (o_key h) = Inr latest
    \<and> h' = with_generation (o_generation latest) h
    \<and> compute_helm_release_hash E h' = Inr hash
    \<and> nothing_to_render E (o_key h) hash (o_status latest) v"
proof -
  let ?w1 = "log_call (Get ''KDexHost'' (o_key h)) w"
  have key: "o_key (with_generation g h) = o_key h" for g by (simp add: with_generation_def key_of_def)
  have started: "get_attr (o_status (helm_start E v hash g)) helm_status_attr = in_progress" for v hash g
    by (simp add: helm_start_def get_attr_def helm_attr_defs)
  obtain latest where g: "e_get_host E (calls w) (o_key h) = Inr latest"
    using assms(1) by (cases "e_get_host E (calls w) (o_key h)") (auto simp: reconcile_helm_releases_def)
  let ?h1 = "with_generation (o_generation latest) h"
  obtain hash where hash: "compute_helm_release_hash E ?h1 = Inr hash"
    using assms(1) g by (cases "compute_helm_release_hash E ?h1") (auto simp: reconcile_helm_releases_def Let_def)
  have "nothing_to_render E (o_key h) hash (o_status latest) ?w1 \<and> h' = ?h1"
  proof (cases "nothing_to_render E (o_key h) hash (o_status latest) ?w1")
    case True
    then show ?thesis using assms(1) g hash by (simp add: reconcile_helm_releases_def Let_def key)
  next
    case False
    then show ?thesis using assms g hash started
      by (auto simp: reconcile_helm_releases_def Let_def key split: option.splits prod.splits if_splits)
  qed
  then show ?thesis using g hash by metis
qed

text \<open>From the extensions on.\<close>

lemma mirror_written:
  assumes "lawful_writes E" "create_or_update_internal_host E h pages translations extensions w = (Inr ih, h', w')"
  shows "h' = h \<and> ih_host_spec (o_spec ih) = o_spec h \<and> ih_translations (o_spec ih) = translations
    \<and> ih_extensions (o_spec ih) = extensions
    \<and> WriteInternalHost (o_key h) (Some ih) \<in> set (calls w')"
proof -
  have "e_write_internal_host E (calls w) (o_key h) (mutate_internal_host E h pages translations extensions) = Inr ih"
    using assms(2) by (auto simp: create_or_update_internal_host_def Let_def split: sum.splits)
  then obtain old where "mutate_internal_host E h pages translations extensions old = Inr ih"
    using assms(1) unfolding lawful_writes_def by blast
  then have "ih_host_spec (o_spec ih) = o_spec h \<and> ih_translations (o_spec ih) = translations
      \<and> ih_extensions (o_spec ih) = extensions"
    by (auto simp: mutate_internal_host_def Let_def split: sum.splits)
  then show ?thesis using assms(2)
    by (auto simp: create_or_update_internal_host_def Let_def split: sum.splits)
qed

definition settled :: "env \<Rightarrow> nsname \<Rightarrow> host \<Rightarrow> world \<Rightarrow> bool" where
  "settled E req h w \<longleftrightarrow>
     (\<exists>cs latest g hash v. e_get_host E cs (o_key h) = Inr latest
        \<and> o_spec g = o_spec h \<and> o_key g = o_key h \<and> o_generation g = o_generation latest
        \<and> compute_helm_release_hash E g = Inr hash
        \<and> nothing_to_render E (o_key h) hash (o_status latest) v)
   \<and> (\<exists>ih. WriteInternalHost (o_key h) (Some ih) \<in> set (calls w) \<and> ih_host_spec (o_spec ih) = o_spec h
        \<and> \<not> e_ready_false E (conditions (o_status ih)))
   \<and> (\<exists>cs conds. e_get_deployment E cs req = Inr conds \<and> \<not> not_available conds)"

lemma mirror_ready:
  assumes "lawful_conditions E" "lawful_writes E" "unready E h" "\<not> unready E h'"
    and run: "reconcile_mirror E req secrets pages p translations collision h w = (out, h', w')"
  shows "out = (no_result, None) \<and> \<not> fst p \<and> collision = [] \<and> settled E req h w'"
proof -
  obtain exts h1 w1 where e: "resolve_extensions E h w = (exts, h1, w1)" by (rule prod_cases3)
  obtain op h2 w2 where k: "reconcile_helm_releases E h1 secrets w1 = (op, h2, w2)" by (rule prod_cases3)
  have fail: False if "fail_ladder E why err g v = (out, h', w')" for why err g v
    using that unready_marks [OF assms(1)] assms(4) by (auto simp: fail_ladder_def)
  note u1 = extensions_step.step_unready [OF assms(1) e assms(3)]
  note u2 = helm_step.step_unready [OF assms(1) k u1]
  note i1 = extensions_step.step_identity [OF e] and i2 = helm_step.step_identity [OF k]
  obtain extensions selector_err where x: "(case exts of Inr extensions \<Rightarrow> Inr (extensions, None)
      | Inl err \<Rightarrow> if err_bad_selector err then Inr ([], Some err) else Inl err) = Inr (extensions, selector_err)"
  proof (cases "case exts of Inr extensions \<Rightarrow> Inr (extensions, None)
      | Inl err \<Rightarrow> if err_bad_selector err then Inr ([], Some err) else Inl err")
    case (Inl err)
    then have False using run e fail by (simp add: reconcile_mirror_def)
    then show ?thesis ..
  qed (use that in auto)
  obtain b where op: "op = Inr b"
  proof (cases op)
    case (Inl err)
    then have "fail_ladder E ReconcileSuccess err h2 w2 = (out, h', w')"
      using run e x k by (simp add: reconcile_mirror_def)
    then show ?thesis using fail by blast
  qed (use that in auto)
  obtain wr h3 w3 where m: "create_or_update_internal_host E h2 pages translations extensions w2 = (wr, h3, w3)"
    by (rule prod_cases3)
  obtain ih where wr: "wr = Inr ih"
  proof (cases wr)
    case (Inl err)
    then have "fail_ladder E ReconcileSuccess err h3 w3 = (out, h', w')"
      using run e x k op m by (simp add: reconcile_mirror_def)
    then show ?thesis using fail by blast
  qed (use that in auto)
  note written = mirror_written [OF assms(2) m [unfolded wr]]
  then have u3: "unready E h3" using u2 by simp
  have np: "\<not> fst p" using run e x k op m wr u3 assms(4) by (auto simp: reconcile_mirror_def)
  then have r: "readiness E req h3 ih selector_err collision w3 = (out, h', w')"
    using run e x k op m wr by (simp add: reconcile_mirror_def)
  note last = readiness_ready [OF assms(1) u3 assms(4) r]
  have "get_attr (o_status h2) helm_status_attr \<noteq> in_progress" using last written by auto
  from helm_idle [OF k [unfolded op] this] obtain cs latest hash v where
    idle: "e_get_host E cs (o_key h1) = Inr latest" "h2 = with_generation (o_generation latest) h1"
      "compute_helm_release_hash E h2 = Inr hash" "nothing_to_render E (o_key h1) hash (o_status latest) v"
    by blast
  have gen: "o_generation h2 = o_generation latest" using idle(2) by (simp add: with_generation_def)
  have "WriteInternalHost (o_key h) (Some ih) \<in> set (calls w')" using written last i1 i2 by simp
  with idle gen i1 i2 last written np show ?thesis unfolding settled_def by auto metis
qed

text \<open>The optional references.\<close>

definition ref_ok :: "env \<Rightarrow> string \<Rightarrow> obj_ref \<Rightarrow> bool" where
  "ref_ok E ns ref \<longleftrightarrow> (\<exists>cs ob. e_get_ref E cs (ref_kind ref) (ref_key ''KDexHost'' ns ref) = Inr ob
     \<and> e_ready_true E (conditions (o_status ob)))"

lemma host_resolve_ref_ok:
  assumes "host_resolve_ref E h (Some ref) w = (r, h', w')" "\<not> res_return r"
  shows "ref_ok E (o_namespace h) ref"
proof -
  obtain conds where r: "resolve_ref E ''KDexHost'' (o_namespace h) (Some ref) (conditions (o_status h)) w = (r, conds, w')"
    using assms(1) by (auto simp: host_resolve_ref_def split: prod.splits)
  then obtain ob where "res_value r = Some ob"
    using resolve_ref_NoneD [OF r assms(2)] by (cases "res_value r") auto
  from resolve_ref_SomeD [OF r assms(2) this] show ?thesis by (auto simp: ref_ok_def)
qed

lemma step_ok_sel:
  assumes "step_ok E h w h' w'"
  shows "o_spec h' = o_spec h" "o_key h' = o_key h" "o_namespace h' = o_namespace h"
    "lawful_conditions E \<Longrightarrow> unready E h \<Longrightarrow> unready E h'"
  using assms by (auto simp: step_ok_def key_of_def)

lemma optional_step:
  assumes "lawful_conditions E" "resolve_optional E ref msg attr p h w = ((p', h'), w')"
  shows "step_ok E h w h' w' \<and> (\<not> fst p' \<longrightarrow> \<not> fst p \<and> (\<forall>rf. ref = Some rf \<longrightarrow> ref_ok E (o_namespace h) rf))"
proof (cases ref)
  case None
  then show ?thesis using assms by (simp add: resolve_optional_def)
next
  case (Some rf)
  obtain r h1 w1 where one: "host_resolve_ref E h (Some rf) w = (r, h1, w1)" by (rule prod_cases3)
  note ok = ref_step.ok [OF one]
  have marked: "step_ok E h w (mark E w1 progressing_set Reconciling m h1) w1" for m
    using ok unready_marks(1) [OF assms(1)] by (simp add: step_ok_def)
  have noted: "step_ok E h w (put_attr k v h1) w1" for k v
    using ok by (simp add: step_ok_def)
  show ?thesis
  proof (cases "res_return r")
    case True
    then show ?thesis using assms Some one marked
      by (auto simp: resolve_optional_def note_unresolved_def Let_def split: option.splits)
  next
    case False
    then show ?thesis using assms Some one ok noted host_resolve_ref_ok [OF one]
      by (auto simp: resolve_optional_def split: option.splits)
  qed
qed

section \<open>The whole ladder\<close>

text \<open>The rungs above the mirror, of a reconcile that ends Ready.\<close>

lemma live_rungs:
  assumes "lawful_conditions E" "reconcile_live E req h secrets w = (out, h', w')" "\<not> unready E h'"
  defines "start \<equiv> mark E w reconciling_set Reconciling ''Reconciling'' h"
  shows "\<exists>pages p tl g v h1 w1. step_ok E start w g v \<and> resolve_translations E g v = (tl, h1, w1) \<and> step_ok E start w h1 w1
    \<and> \<not> tl_return tl \<and> unready E h1
    \<and> reconcile_mirror E req secrets pages p (tl_refs tl) (tl_collision tl) h1 w1 = (out, h', w')
    \<and> (\<not> fst p \<longrightarrow> (\<forall>ref \<in> set_option (hs_theme_ref (o_spec h)) \<union> set_option (hs_script_library_ref (o_spec h)).
         ref_ok E (o_namespace h) ref))"
proof -
  let ?h0 = "mark E w reconciling_set Reconciling ''Reconciling'' h"
  have u0: "unready E ?h0" by (rule unready_marks(3) [OF assms(1)])
  have stop: False if "stop_ladder E r err msg g v = (out, h', w')" "unready E g" for r err msg g v
    using that assms(3) unready_marks(2) [OF assms(1)]
    by (auto simp: stop_ladder_def split: if_splits)
  obtain pg h1 w1 where pg: "resolve_utility_pages E ?h0 w = (pg, h1, w1)" by (rule prod_cases3)
  have s1: "step_ok E ?h0 w h1 w1" by (rule pages_step.ok [OF pg])
  have go: "\<not> pr_return pg"
    using assms(2) pg stop step_ok_sel(4) [OF s1 assms(1) u0] by (auto simp: reconcile_live_def)
  obtain p2 h2 where c: "(case pr_consent pg of None \<Rightarrow> ((False, no_result), h1)
      | Some u \<Rightarrow> note_unresolved E w1 (un_message u) (un_requeue u) (False, no_result) h1) = (p2, h2)"
    by (rule prod.exhaust)
  have "step_ok E h1 w1 h2 w1"
    using c unready_marks(1) [OF assms(1)]
    by (auto simp: note_unresolved_def step_ok_def split: option.splits)
  with s1 have s2: "step_ok E ?h0 w h2 w1" by (rule step_ok_trans)
  obtain p3 h3 w3 where t: "resolve_optional E (hs_theme_ref (o_spec h2)) ''failed to resolve theme''
      ''theme.generation'' p2 h2 w1 = ((p3, h3), w3)" by (metis surj_pair)
  note ot = optional_step [OF assms(1) t]
  then have s3: "step_ok E ?h0 w h3 w3" using s2 step_ok_trans by blast
  obtain p4 h4 w4 where l: "resolve_optional E (hs_script_library_ref (o_spec h3))
      ''failed to resolve script library'' ''scriptLibrary.generation'' p3 h3 w3 = ((p4, h4), w4)" by (metis surj_pair)
  note os = optional_step [OF assms(1) l]
  then have s4: "step_ok E ?h0 w h4 w4" using s3 step_ok_trans by blast
  obtain tl h5 w5 where tr: "resolve_translations E h4 w4 = (tl, h5, w5)" by (rule prod_cases3)
  have s5: "step_ok E ?h0 w h5 w5" by (rule step_ok_trans [OF s4 translations_step.ok [OF tr]])
  note u5 = step_ok_sel(4) [OF s5 assms(1) u0]
  have rest: "(if tl_return tl then stop_ladder E (tl_result tl) (tl_err tl) ''failed to resolve translations'' h5 w5
      else reconcile_mirror E req secrets (pr_refs pg) p4 (tl_refs tl) (tl_collision tl) h5 w5) = (out, h', w')"
    using assms(2) pg go c t l tr by (simp add: reconcile_live_def)
  then have keep: "\<not> tl_return tl" using stop u5 by auto
  with rest have mirror: "reconcile_mirror E req secrets (pr_refs pg) p4 (tl_refs tl) (tl_collision tl) h5 w5 = (out, h', w')"
    by simp
  note spec = step_ok_sel [OF s2] step_ok_sel [OF s3]
  have refs: "ref_ok E (o_namespace h) ref"
    if "\<not> fst p4" "ref \<in> set_option (hs_theme_ref (o_spec h)) \<union> set_option (hs_script_library_ref (o_spec h))" for ref
    using that ot os spec by auto
  show ?thesis unfolding start_def
    by (rule exI [of _ "pr_refs pg"], rule exI [of _ p4], rule exI [of _ tl], rule exI [of _ h4], rule exI [of _ w4],
        rule exI [of _ h5], rule exI [of _ w5]) (use s4 tr s5 keep u5 mirror refs in blast)
qed


text \<open>A cluster in which one host has everything it needs.\<close>

definition sample_ready :: "string \<Rightarrow> kdex_spec \<Rightarrow> any_obj" where
  "sample_ready n s = (sample_obj [] n s)\<lparr>o_status := ready_status\<rparr>"

definition settled_host :: host where
  "settled_host = (sample_obj ''ns'' ''h'' sample_host_spec)\<lparr>o_status := empty_status\<lparr>attributes :=
     [''helm.release.status'' \<mapsto> completed, ''helm.release.hash'' \<mapsto> ''h1.0.0'']\<rparr>\<rparr>"

definition settled_env :: env where
  "settled_env = sample_env\<lparr>
     e_get_ref := (\<lambda>_ k key. if k = ''KDexClusterTranslation''
        then Inr (sample_ready ''kdex-default-translation'' (KDexClusterTranslation []))
        else Inr (sample_ready (snd key) (KDexClusterUtilityPage (sample_utility_page_spec
          (if snd key = default_page_name Announcement then Announcement
           else if snd key = default_page_name Consent then Consent
           else if snd key = default_page_name Login then Login else ErrorPage))))),
     e_get_host := (\<lambda>_ _. Inr settled_host),
     e_get_deployment := (\<lambda>_ _. Inr [(''Available'', CondTrue)])\<rparr>"

lemma settled_run:
  "case reconcile_live settled_env (''ns'', ''h'') settled_host [] start_world of
     (out, h', w') \<Rightarrow> sample_has ''Ready'' CondTrue (conditions (o_status h'))"
  by code_simp

lemma settled_env_lawful: "lawful_conditions settled_env" "lawful_writes settled_env"
  using lawful_conditions_sample lawful_sample
  by (simp_all add: settled_env_def lawful_conditions_def lawful_writes_def)


section \<open>What the ladder does not report\<close>

lemma not_clustered_host [simp]: "\<not> is_clustered ''KDexHost''"
  by (simp add: is_clustered_def has_prefix_def)


definition host_without_page :: host where
  "host_without_page = (sample_obj ''ns'' ''h'' (sample_host_spec\<lparr>hs_utility_pages :=
     Some \<lparr>upr_announcement = Some \<lparr>ref_kind = ''KDexUtilityPage'', ref_name = ''news'', ref_namespace = []\<rparr>,
       upr_consent = None, upr_error = None, upr_login = None\<rparr>\<rparr>))
     \<lparr>o_meta := (sample_meta ''ns'' ''h'')\<lparr>om_finalizers := [host_finalizer]\<rparr>\<rparr>"



definition no_theme_env :: env where
  "no_theme_env = settled_env\<lparr>e_get_ref := (\<lambda>_ _ _. Inl absent)\<rparr>"

lemma no_theme_run:
  "fst (reconcile_mirror no_theme_env (''ns'', ''h'') [] Map.empty (True, no_result) [] [] settled_host start_world)
     = (no_result, None)"
  by code_simp


end
