(* ===== verification/Defaulters.thy ===== *)
theory Defaulters
  imports UtilityPages
begin

text \<open>
  The mutating webhooks (\<open>internal/webhook\<close>, the \<open>Default\<close> methods). The locale \<open>defaulter\<close> is
  what admission relies on: a defaulter leaves metadata and status alone and, applied to what it
  produced, changes nothing, so that an update of a stored object is not rewritten. It is
  interpreted for each of them. \<open>Default\<close> on a navigation map with a null entry panics; the
  webhook server turns the panic into an error, which is how it appears here.
\<close>

section \<open>Shared defaults\<close>

definition default_pull_policy :: "string \<Rightarrow> string \<Rightarrow> string" where
  "default_pull_policy img policy =
     (if img \<noteq> [] \<and> policy = [] then
        (if has_suffix img '':latest'' then ''Always'' else ''IfNotPresent'')
      else policy)"

definition backend_defaults :: "backend \<Rightarrow> backend" where
  "backend_defaults b = b\<lparr>
     server_pull_policy := default_pull_policy (server_image b) (server_pull_policy b),
     static_pull_policy := default_pull_policy (static_image b) (static_pull_policy b)\<rparr>"

definition default_kind :: "string \<Rightarrow> obj_ref option \<Rightarrow> obj_ref option" where
  "default_kind k r = (case r of None \<Rightarrow> None
     | Some r \<Rightarrow> Some (if ref_kind r = [] then r\<lparr>ref_kind := k\<rparr> else r))"

definition scoped :: "bool \<Rightarrow> string \<Rightarrow> string \<Rightarrow> string" where
  "scoped clustered cluster_kind kind = (if clustered then cluster_kind else kind)"

definition nil_dereference :: go_error where
  "nil_dereference = plain_error ''panic: invalid memory address or nil pointer dereference''"

definition default_navigations :: "string \<Rightarrow> navigation_refs \<Rightarrow> go_error + navigation_refs" where
  "default_navigations k refs =
     (if list_ex (\<lambda>(n, r). r = None) refs then Inl nil_dereference
      else Inr (map (\<lambda>(n, r). (n, default_kind k r)) refs))"

definition unsupported_type :: "kdex_spec \<Rightarrow> go_error" where
  "unsupported_type s = plain_error (''unsupported type: *v1alpha1.'' @ type_name s)"

text \<open>The secret reference of a package.\<close>

definition default_package :: "package_ref \<Rightarrow> package_ref" where
  "default_package p = p\<lparr>pkg_secret_ref := default_kind ''Secret'' (pkg_secret_ref p)\<rparr>"

section \<open>The defaulters\<close>

definition default_app_spec :: "string \<Rightarrow> app_spec \<Rightarrow> app_spec" where
  "default_app_spec name s = s\<lparr>app_ingress_path := ''/-/a/'' @ name,
     app_package := default_package (app_package s), app_backend := backend_defaults (app_backend s)\<rparr>"

fun default_app :: "string \<Rightarrow> kdex_spec \<Rightarrow> go_error + kdex_spec" where
  "default_app name (KDexApp s) = Inr (KDexApp (default_app_spec name s))"
| "default_app name (KDexClusterApp s) = Inr (KDexClusterApp (default_app_spec name s))"
| "default_app name s = Inl (unsupported_type s)"

definition default_script_library_spec :: "string \<Rightarrow> script_library_spec \<Rightarrow> script_library_spec" where
  "default_script_library_spec name s = s\<lparr>lib_ingress_path := ''/-/s/'' @ name,
     lib_package := map_option default_package (lib_package s), lib_backend := backend_defaults (lib_backend s)\<rparr>"

fun default_script_library :: "string \<Rightarrow> kdex_spec \<Rightarrow> go_error + kdex_spec" where
  "default_script_library name (KDexScriptLibrary s) = Inr (KDexScriptLibrary (default_script_library_spec name s))"
| "default_script_library name (KDexClusterScriptLibrary s) =
     Inr (KDexClusterScriptLibrary (default_script_library_spec name s))"
| "default_script_library name s = Inl (unsupported_type s)"

definition default_theme_spec :: "bool \<Rightarrow> theme_spec \<Rightarrow> theme_spec" where
  "default_theme_spec clustered s = s\<lparr>
     th_script_library := default_kind (scoped clustered ''KDexClusterScriptLibrary'' ''KDexScriptLibrary'')
       (th_script_library s),
     th_ingress_path := ''/-/theme'', th_backend := backend_defaults (th_backend s)\<rparr>"

fun default_theme :: "string \<Rightarrow> kdex_spec \<Rightarrow> go_error + kdex_spec" where
  "default_theme name (KDexTheme s) = Inr (KDexTheme (default_theme_spec False s))"
| "default_theme name (KDexClusterTheme s) = Inr (KDexClusterTheme (default_theme_spec True s))"
| "default_theme name s = Inl (unsupported_type s)"

definition default_part_spec :: "bool \<Rightarrow> page_part_spec \<Rightarrow> page_part_spec" where
  "default_part_spec clustered s = s\<lparr>part_script_library :=
     default_kind (scoped clustered ''KDexClusterScriptLibrary'' ''KDexScriptLibrary'') (part_script_library s)\<rparr>"

fun default_footer :: "string \<Rightarrow> kdex_spec \<Rightarrow> go_error + kdex_spec" where
  "default_footer name (KDexPageFooter s) = Inr (KDexPageFooter (default_part_spec False s))"
| "default_footer name (KDexClusterPageFooter s) = Inr (KDexClusterPageFooter (default_part_spec True s))"
| "default_footer name s = Inl (unsupported_type s)"

fun default_header :: "string \<Rightarrow> kdex_spec \<Rightarrow> go_error + kdex_spec" where
  "default_header name (KDexPageHeader s) = Inr (KDexPageHeader (default_part_spec False s))"
| "default_header name (KDexClusterPageHeader s) = Inr (KDexClusterPageHeader (default_part_spec True s))"
| "default_header name s = Inl (unsupported_type s)"

fun default_navigation :: "string \<Rightarrow> kdex_spec \<Rightarrow> go_error + kdex_spec" where
  "default_navigation name (KDexPageNavigation s) = Inr (KDexPageNavigation (default_part_spec False s))"
| "default_navigation name (KDexClusterPageNavigation s) = Inr (KDexClusterPageNavigation (default_part_spec True s))"
| "default_navigation name s = Inl (unsupported_type s)"

definition default_archetype_spec :: "bool \<Rightarrow> archetype_spec \<Rightarrow> go_error + archetype_spec" where
  "default_archetype_spec clustered s =
     (case default_navigations (scoped clustered ''KDexClusterPageNavigation'' ''KDexPageNavigation'')
             (ar_navigations s) of
        Inl err \<Rightarrow> Inl err
      | Inr navs \<Rightarrow> Inr (s\<lparr>
          ar_footer := default_kind (scoped clustered ''KDexClusterPageFooter'' ''KDexPageFooter'') (ar_footer s),
          ar_header := default_kind (scoped clustered ''KDexClusterPageHeader'' ''KDexPageHeader'') (ar_header s),
          ar_navigations := navs,
          ar_script_library := default_kind (scoped clustered ''KDexClusterScriptLibrary'' ''KDexScriptLibrary'')
            (ar_script_library s)\<rparr>))"

fun default_archetype :: "string \<Rightarrow> kdex_spec \<Rightarrow> go_error + kdex_spec" where
  "default_archetype name (KDexPageArchetype s) = map_sum id KDexPageArchetype (default_archetype_spec False s)"
| "default_archetype name (KDexClusterPageArchetype s) =
     map_sum id KDexClusterPageArchetype (default_archetype_spec True s)"
| "default_archetype name s = Inl (unsupported_type s)"

text \<open>
  A utility page: the kind of every app reference is set, whatever it was; the other kinds only
  where they are empty.
\<close>

definition force_kind :: "string \<Rightarrow> content_entry \<Rightarrow> content_entry" where
  "force_kind k e = e\<lparr>ce_app_ref := map_option (\<lambda>r. r\<lparr>ref_kind := k\<rparr>) (ce_app_ref e)\<rparr>"

definition default_utility_page_spec :: "bool \<Rightarrow> utility_page_spec \<Rightarrow> go_error + utility_page_spec" where
  "default_utility_page_spec clustered s =
     (case default_navigations (scoped clustered ''KDexClusterPageNavigation'' ''KDexPageNavigation'')
             (up_navigations s) of
        Inl err \<Rightarrow> Inl err
      | Inr navs \<Rightarrow> Inr (s\<lparr>
          up_contents := map (force_kind (scoped clustered ''KDexClusterApp'' ''KDexApp'')) (up_contents s),
          up_footer := default_kind (scoped clustered ''KDexClusterPageFooter'' ''KDexPageFooter'') (up_footer s),
          up_header := default_kind (scoped clustered ''KDexClusterPageHeader'' ''KDexPageHeader'') (up_header s),
          up_navigations := navs,
          up_archetype := default_kind (scoped clustered ''KDexClusterPageArchetype'' ''KDexPageArchetype'')
            (up_archetype s),
          up_script_library := default_kind (scoped clustered ''KDexClusterScriptLibrary'' ''KDexScriptLibrary'')
            (up_script_library s)\<rparr>))"

fun default_utility_page :: "string \<Rightarrow> kdex_spec \<Rightarrow> go_error + kdex_spec" where
  "default_utility_page name (KDexUtilityPage s) = map_sum id KDexUtilityPage (default_utility_page_spec False s)"
| "default_utility_page name (KDexClusterUtilityPage s) =
     map_sum id KDexClusterUtilityPage (default_utility_page_spec True s)"
| "default_utility_page name s = Inl (unsupported_type s)"

text \<open>A page.\<close>

definition default_entry :: "content_entry \<Rightarrow> content_entry" where
  "default_entry e = e\<lparr>ce_app_ref := default_kind ''KDexApp'' (ce_app_ref e)\<rparr>"

definition default_page :: "page_spec \<Rightarrow> go_error + page_spec" where
  "default_page s =
     (case default_navigations ''KDexPageNavigation'' (pg_navigations s) of
        Inl err \<Rightarrow> Inl err
      | Inr navs \<Rightarrow> Inr (s\<lparr>
          pg_contents := map default_entry (pg_contents s),
          pg_footer := default_kind ''KDexPageFooter'' (pg_footer s),
          pg_header := default_kind ''KDexPageHeader'' (pg_header s),
          pg_navigations := navs,
          pg_archetype := default_kind ''KDexPageArchetype'' (pg_archetype s),
          pg_script_library := default_kind ''KDexScriptLibrary'' (pg_script_library s)\<rparr>))"

text \<open>The host. The configuration gives the default registries.\<close>

definition or_else :: "string \<Rightarrow> string \<Rightarrow> string" where
  "or_else d s = (if s = [] then d else s)"

definition default_page_ref :: "string \<Rightarrow> obj_ref option \<Rightarrow> obj_ref option" where
  "default_page_ref name r =
     (let r1 = (case r of None \<Rightarrow> \<lparr>ref_kind = [], ref_name = [], ref_namespace = []\<rparr> | Some r \<Rightarrow> r)
      in Some (r1\<lparr>ref_kind := or_else ''KDexClusterUtilityPage'' (ref_kind r1),
                  ref_name := or_else name (ref_name r1)\<rparr>))"

definition default_utility_pages :: "utility_page_refs option \<Rightarrow> utility_page_refs" where
  "default_utility_pages p =
     (let p1 = (case p of None \<Rightarrow> \<lparr>upr_announcement = None, upr_consent = None, upr_error = None, upr_login = None\<rparr>
                | Some p \<Rightarrow> p)
      in \<lparr>upr_announcement = default_page_ref (default_page_name Announcement) (upr_announcement p1),
          upr_consent = default_page_ref (default_page_name Consent) (upr_consent p1),
          upr_error = default_page_ref (default_page_name ErrorPage) (upr_error p1),
          upr_login = default_page_ref (default_page_name Login) (upr_login p1)\<rparr>)"

definition default_registries :: "registries \<Rightarrow> registries option \<Rightarrow> registries" where
  "default_registries conf r =
     (let r1 = (case r of None \<Rightarrow> \<lparr>image_registry = [], npm_registry = []\<rparr> | Some r \<Rightarrow> r)
      in \<lparr>image_registry = or_else (image_registry conf) (image_registry r1),
          npm_registry = or_else (npm_registry conf) (npm_registry r1)\<rparr>)"

definition default_host :: "registries \<Rightarrow> host_spec \<Rightarrow> host_spec" where
  "default_host conf s = s\<lparr>
     hs_default_lang := or_else ''en'' (hs_default_lang s),
     hs_theme_ref := default_kind ''KDexTheme'' (hs_theme_ref s),
     hs_module_policy := or_else ''Strict'' (hs_module_policy s),
     hs_routing_strategy := or_else ''Ingress'' (hs_routing_strategy s),
     hs_script_library_ref := default_kind ''KDexScriptLibrary'' (hs_script_library_ref s),
     hs_registries := Some (default_registries conf (hs_registries s)),
     hs_utility_pages := Some (default_utility_pages (hs_utility_pages s)),
     hs_ingress_path := ''/-/host'',
     hs_backend := backend_defaults (hs_backend s)\<rparr>"

section \<open>The contract\<close>

locale defaulter =
  fixes default_spec :: "'s \<Rightarrow> go_error + 's"
  assumes settles: "default_spec s = Inr s' \<Longrightarrow> default_spec s' = Inr s'"
begin

lemma stable: "default_spec s = Inr s' \<Longrightarrow> default_spec s' = Inr s'' \<Longrightarrow> s'' = s'"
  using settles by fastforce

lemma never_fails_later: "default_spec s = Inr s' \<Longrightarrow> default_spec s' \<noteq> Inl err"
  using settles by fastforce

end

lemma default_pull_policy_twice [simp]:
  "default_pull_policy i (default_pull_policy i p) = default_pull_policy i p"
  by (simp add: default_pull_policy_def)

lemma backend_defaults_twice [simp]: "backend_defaults (backend_defaults b) = backend_defaults b"
  by (simp add: backend_defaults_def)

lemma default_kind_twice [simp]: "k \<noteq> [] \<Longrightarrow> default_kind k (default_kind k r) = default_kind k r"
  by (simp add: default_kind_def split: option.split)

lemma default_kind_None [simp]: "default_kind k r = None \<longleftrightarrow> r = None"
  by (simp add: default_kind_def split: option.split)

lemma scoped_nonempty [simp]: "a \<noteq> [] \<Longrightarrow> b \<noteq> [] \<Longrightarrow> scoped c a b \<noteq> []"
  by (simp add: scoped_def)

lemma null_entry: "list_ex (\<lambda>(n, r). r = None) refs \<longleftrightarrow> None \<in> snd ` set refs"
  by (induction refs) auto

lemma default_navigations_settles:
  "k \<noteq> [] \<Longrightarrow> default_navigations k refs = Inr navs \<Longrightarrow> default_navigations k navs = Inr navs"
proof -
  assume k: "k \<noteq> []" and d: "default_navigations k refs = Inr navs"
  then have some: "None \<notin> snd ` set refs"
    and navs: "navs = map (\<lambda>(n, r). (n, default_kind k r)) refs"
    by (auto simp: default_navigations_def null_entry split: if_splits)
  have "snd ` set navs = default_kind k ` snd ` set refs"
    by (simp add: navs image_image split_beta)
  moreover have "None \<notin> default_kind k ` snd ` set refs" using some by (metis default_kind_None imageE)
  ultimately have "None \<notin> snd ` set navs" by simp
  moreover have "map (\<lambda>(n, r). (n, default_kind k r)) navs = navs" using k by (simp add: navs split_beta)
  ultimately show ?thesis by (simp add: default_navigations_def null_entry)
qed

lemma default_package_twice [simp]: "default_package (default_package p) = default_package p"
  by (simp add: default_package_def)

lemma or_else_twice [simp]: "or_else d (or_else d s) = or_else d s"
  by (simp add: or_else_def)

lemma default_page_ref_twice [simp]: "default_page_ref n (default_page_ref n r) = default_page_ref n r"
  by (simp add: default_page_ref_def Let_def)

lemma default_utility_pages_twice [simp]: "default_utility_pages (Some (default_utility_pages p)) = default_utility_pages p"
  by (simp add: default_utility_pages_def Let_def)

lemma default_registries_twice [simp]:
  "default_registries c (Some (default_registries c r)) = default_registries c r"
  by (simp add: default_registries_def Let_def)

lemma force_kind_twice [simp]: "force_kind k (force_kind k e) = force_kind k e"
  by (simp add: force_kind_def option.map_comp comp_def)

lemma default_entry_twice [simp]: "default_entry (default_entry e) = default_entry e"
  by (simp add: default_entry_def)

lemma archetype_spec_settles: "default_archetype_spec c s = Inr s' \<Longrightarrow> default_archetype_spec c s' = Inr s'"
  by (auto simp: default_archetype_spec_def default_navigations_settles split: sum.splits)

lemma utility_page_spec_settles: "default_utility_page_spec c s = Inr s' \<Longrightarrow> default_utility_page_spec c s' = Inr s'"
  by (auto simp: default_utility_page_spec_def default_navigations_settles comp_def split: sum.splits)

interpretation app_default: defaulter "default_app name" for name
  by unfold_locales (auto simp: default_app_spec_def elim!: default_app.elims)

interpretation script_library_default: defaulter "default_script_library name" for name
  by unfold_locales
    (auto simp: default_script_library_spec_def option.map_comp comp_def elim!: default_script_library.elims)

interpretation theme_default: defaulter "default_theme name" for name
  by unfold_locales (auto simp: default_theme_spec_def elim!: default_theme.elims)

interpretation footer_default: defaulter "default_footer name" for name
  by unfold_locales (auto simp: default_part_spec_def elim!: default_footer.elims)

interpretation header_default: defaulter "default_header name" for name
  by unfold_locales (auto simp: default_part_spec_def elim!: default_header.elims)

interpretation navigation_default: defaulter "default_navigation name" for name
  by unfold_locales (auto simp: default_part_spec_def elim!: default_navigation.elims)

lemma map_sum_Inr:
  "map_sum id f x = Inr y \<longleftrightarrow> (\<exists>z. x = Inr z \<and> y = f z)"
  "Inr y = map_sum id f x \<longleftrightarrow> (\<exists>z. x = Inr z \<and> y = f z)"
  by (cases x; auto)+

interpretation archetype_default: defaulter "default_archetype name" for name
  by unfold_locales
    (auto simp: map_sum_Inr elim!: default_archetype.elims, (erule archetype_spec_settles)+)

interpretation utility_page_default: defaulter "default_utility_page name" for name
  by unfold_locales
    (auto simp: map_sum_Inr elim!: default_utility_page.elims, (erule utility_page_spec_settles)+)

interpretation page_default: defaulter default_page
  by unfold_locales (auto simp: default_page_def default_navigations_settles comp_def split: sum.splits)

interpretation host_default: defaulter "\<lambda>s. Inr (default_host conf s)" for conf
  by unfold_locales (auto simp: default_host_def)

end
