(* ===== verification/Validators.thy ===== *)
theory Validators
  imports Defaulters
begin

text \<open>
  The validating webhooks (\<open>internal/webhook\<close>, the \<open>validate\<close> methods, and
  \<open>internal/validation/validation.go\<close>). A verdict is an error or nil. The template renderer, the
  resource methods and the tag writers of \<open>kdex.dev/crds\<close>, the message catalog of
  \<open>golang.org/x/text\<close>, the linter and \<open>strconv.Quote\<close> are the fields of \<open>checks\<close>.
\<close>

record resources =            \<comment> \<open>\<open>GetResourceImage\<close>, \<open>GetResourcePath\<close>, \<open>GetResourceURLs\<close>\<close>
  rp_image :: string
  rp_path :: string
  rp_urls :: "string list"

text \<open>
  A JSON document. \<open>runtime.RawExtension\<close> holds bytes that the code only ever hands to
  \<open>json.Unmarshal\<close>: a raw value is what they parse to, or \<open>None\<close> where they are not JSON.
\<close>

datatype json = JNull | JBool bool | JNum string | JStr string | JArr "json list" | JObj "(string \<times> json) list"

type_synonym raw_extension = "json option"

record lint_result =
  lr_severity :: string
  lr_name :: string
  lr_message :: string

record checks =
  ck_content :: "string \<Rightarrow> string \<Rightarrow> go_error option"  \<comment> \<open>\<open>render.ValidateContent\<close>\<close>
  ck_render :: "string \<Rightarrow> string \<Rightarrow> go_error option"   \<comment> \<open>\<open>Renderer.RenderOne\<close> on the default data\<close>
  ck_assets :: "string \<Rightarrow> string"                     \<comment> \<open>\<open>Assets.String\<close>\<close>
  ck_script_tag :: "package_ref \<Rightarrow> string"
  ck_head_tag :: "script_def \<Rightarrow> string"
  ck_foot_tag :: "script_def \<Rightarrow> string"
  ck_app_resources :: "app_spec \<Rightarrow> resources"
  ck_library_resources :: "script_library_spec \<Rightarrow> resources"
  ck_theme_resources :: "theme_spec \<Rightarrow> resources"
  ck_host_resources :: "host_spec \<Rightarrow> resources"
  ck_selector :: "label_selector \<Rightarrow> go_error option"
  ck_set_string :: "(string \<times> string \<times> string) list \<Rightarrow> string \<Rightarrow> string \<Rightarrow> string \<Rightarrow> go_error option"
     \<comment> \<open>\<open>catalog.Builder.SetString\<close> after the given calls\<close>
  ck_quote :: "string \<Rightarrow> string"
  ck_base_path :: "string \<Rightarrow> bool"
  ck_base_regex :: string
  ck_item_path :: "string \<Rightarrow> bool"
  ck_item_regex :: string
  ck_lint :: "json \<Rightarrow> go_error + lint_result list"

section \<open>Shared checks\<close>

definition validate_assets :: "checks \<Rightarrow> string \<Rightarrow> go_error option" where
  "validate_assets K a = ck_render K ''theme-assets'' (ck_assets K a)"

definition relative_url :: "string \<Rightarrow> bool" where
  "relative_url u \<longleftrightarrow> u \<noteq> [] \<and> \<not> contains_str u ''://''"

definition validate_resource_provider :: "resources \<Rightarrow> go_error option" where
  "validate_resource_provider r =
     (case (if rp_image r = [] then find relative_url (rp_urls r) else None) of
        Some u \<Rightarrow> Some (plain_error (u @ '' contains relative url but no image was provided''))
      | None \<Rightarrow>
          if rp_image r \<noteq> [] \<and> rp_path r = [] then
            Some (plain_error ''ingressPath must be specified when an image is specified'')
          else
            case (if rp_image r \<noteq> [] \<and> rp_path r \<noteq> []
                  then find (\<lambda>u. relative_url u \<and> \<not> has_prefix u (rp_path r)) (rp_urls r) else None) of
              Some u \<Rightarrow> Some (plain_error (u @ '' is not prefixed by ingressPath: '' @ rp_path r))
            | None \<Rightarrow> None)"

text \<open>Tags go into one buffer, each non-empty one after the separator, which starts out as \<open>sep\<close>.\<close>

fun write_tags :: "string \<Rightarrow> string \<Rightarrow> string list \<Rightarrow> string" where
  "write_tags buf sep [] = buf"
| "write_tags buf sep (t # ts) =
     (if t = [] then write_tags buf sep ts else write_tags (buf @ sep @ t) [CHR 0x0A] ts)"

definition validate_tags :: "checks \<Rightarrow> package_ref option \<Rightarrow> script_def list \<Rightarrow> go_error option" where
  "validate_tags K p scripts =
     (let head = (case p of
            None \<Rightarrow> write_tags [] [] (map (ck_head_tag K) scripts)
          | Some q \<Rightarrow> write_tags (ck_script_tag K q) [CHR 0x0A] (map (ck_head_tag K) scripts))
      in case ck_render K ''head-scripts'' head of
           Some err \<Rightarrow> Some (wrap_error ''failed to validate head scripts'' err)
         | None \<Rightarrow>
             (case ck_render K ''foot-scripts'' (write_tags [] [] (map (ck_foot_tag K) scripts)) of
                Some err \<Rightarrow> Some (wrap_error ''failed to validate foot scripts'' err)
              | None \<Rightarrow> None))"

definition package_name_error :: "package_ref option \<Rightarrow> go_error option" where
  "package_name_error p =
     (case p of
        None \<Rightarrow> None
      | Some q \<Rightarrow>
          if pkg_name q = [] then Some (plain_error ''package reference name is required'')
          else if \<not> has_prefix (pkg_name q) ''@'' \<or> \<not> contains_str (pkg_name q) ''/'' then
            Some (plain_error (''invalid package name, must be scoped with @scope/name: '' @ pkg_name q))
          else None)"

definition validate_library :: "checks \<Rightarrow> script_library_spec \<Rightarrow> go_error option" where
  "validate_library K s =
     (case package_name_error (lib_package s) of
        Some err \<Rightarrow> Some err
      | None \<Rightarrow> validate_tags K (lib_package s) (lib_scripts s))"

definition secret_ref_error :: "string \<Rightarrow> bool \<Rightarrow> obj_ref option \<Rightarrow> go_error option" where
  "secret_ref_error what cluster r =
     (case r of
        None \<Rightarrow> None
      | Some s \<Rightarrow>
          if ref_name s = [] then Some (plain_error ''spec.packageReference.secretRef.name is required'')
          else if cluster \<and> ref_namespace s = [] then
            Some (plain_error (''spec.packageReference.secretRef.namespace is required for cluster scoped '' @ what))
          else None)"

section \<open>The validators\<close>

definition validate_app_spec :: "checks \<Rightarrow> bool \<Rightarrow> app_spec \<Rightarrow> go_error option" where
  "validate_app_spec K cluster s =
     (let sl = \<lparr>lib_package = Some (app_package s), lib_scripts = app_scripts s, lib_backend = app_backend s,
                lib_ingress_path = []\<rparr>
      in case secret_ref_error ''apps'' cluster (pkg_secret_ref (app_package s)) of
           Some err \<Rightarrow> Some err
         | None \<Rightarrow>
             (case validate_library K sl of
                Some err \<Rightarrow> Some err
              | None \<Rightarrow> validate_resource_provider (ck_app_resources K s)))"

fun validate_app :: "checks \<Rightarrow> kdex_spec \<Rightarrow> go_error option" where
  "validate_app K (KDexApp s) = validate_app_spec K False s"
| "validate_app K (KDexClusterApp s) = validate_app_spec K True s"
| "validate_app K s = Some (unsupported_type s)"

definition validate_script_library_spec :: "checks \<Rightarrow> bool \<Rightarrow> script_library_spec \<Rightarrow> go_error option" where
  "validate_script_library_spec K cluster s =
     (case secret_ref_error ''script libraries'' cluster (Option.bind (lib_package s) pkg_secret_ref) of
        Some err \<Rightarrow> Some err
      | None \<Rightarrow>
          (case validate_library K s of
             Some err \<Rightarrow> Some err
           | None \<Rightarrow> validate_resource_provider (ck_library_resources K s)))"

fun validate_script_library :: "checks \<Rightarrow> kdex_spec \<Rightarrow> go_error option" where
  "validate_script_library K (KDexScriptLibrary s) = validate_script_library_spec K False s"
| "validate_script_library K (KDexClusterScriptLibrary s) = validate_script_library_spec K True s"
| "validate_script_library K s = Some (unsupported_type s)"

definition validate_theme_spec :: "checks \<Rightarrow> theme_spec \<Rightarrow> go_error option" where
  "validate_theme_spec K s =
     (case validate_assets K (th_assets s) of
        Some err \<Rightarrow> Some err
      | None \<Rightarrow> validate_resource_provider (ck_theme_resources K s))"

fun validate_theme :: "checks \<Rightarrow> kdex_spec \<Rightarrow> go_error option" where
  "validate_theme K (KDexTheme s) = validate_theme_spec K s"
| "validate_theme K (KDexClusterTheme s) = validate_theme_spec K s"
| "validate_theme K s = Some (unsupported_type s)"

definition validate_content :: "checks \<Rightarrow> string \<Rightarrow> string \<Rightarrow> go_error option" where
  "validate_content K name content =
     map_option (wrap_error ''invalid go template in spec.content'') (ck_content K name content)"

fun validate_page_content :: "checks \<Rightarrow> string \<Rightarrow> kdex_spec \<Rightarrow> go_error option" where
  "validate_page_content K name (KDexPageArchetype s) = validate_content K name (ar_content s)"
| "validate_page_content K name (KDexPageFooter s) = validate_content K name (part_content s)"
| "validate_page_content K name (KDexPageHeader s) = validate_content K name (part_content s)"
| "validate_page_content K name (KDexPageNavigation s) = validate_content K name (part_content s)"
| "validate_page_content K name (KDexClusterPageArchetype s) = validate_content K name (ar_content s)"
| "validate_page_content K name (KDexClusterPageFooter s) = validate_content K name (part_content s)"
| "validate_page_content K name (KDexClusterPageHeader s) = validate_content K name (part_content s)"
| "validate_page_content K name (KDexClusterPageNavigation s) = validate_content K name (part_content s)"
| "validate_page_content K name s = Some (unsupported_type s)"

definition entry_error :: "checks \<Rightarrow> nat \<Rightarrow> content_entry \<Rightarrow> go_error option" where
  "entry_error K i e =
     (case (if ce_raw_html e \<noteq> [] then ck_content K (ce_slot e) (ce_raw_html e) else None) of
        Some err \<Rightarrow> Some (wrap_error (''invalid go template in spec.contentEntries['' @ nat_digits i @ ''].rawHTML'') err)
      | None \<Rightarrow>
          (case ce_app_ref e of
             None \<Rightarrow> None
           | Some r \<Rightarrow> if ref_name r = [] then
               Some (plain_error (''spec.contentEntries['' @ nat_digits i @ ''].appRef.name is required'')) else None))"

fun validate_entries :: "checks \<Rightarrow> nat \<Rightarrow> content_entry list \<Rightarrow> go_error option" where
  "validate_entries K i [] = None"
| "validate_entries K i (e # es) =
     (case entry_error K i e of Some err \<Rightarrow> Some err | None \<Rightarrow> validate_entries K (Suc i) es)"

fun validate_utility_page :: "checks \<Rightarrow> kdex_spec \<Rightarrow> go_error option" where
  "validate_utility_page K (KDexUtilityPage s) = validate_entries K 0 (up_contents s)"
| "validate_utility_page K (KDexClusterUtilityPage s) = validate_entries K 0 (up_contents s)"
| "validate_utility_page K s = Some (unsupported_type s)"

definition validate_page :: "checks \<Rightarrow> page_spec \<Rightarrow> go_error option" where
  "validate_page K s =
     (if pg_base_path s = ''/'' \<and> pg_parent s \<noteq> None then
        Some (plain_error (''page with basePath '' @ [CHR 0x27, CHR ''/'', CHR 0x27] @ '' must not specify a parent page''))
      else validate_entries K 0 (pg_contents s))"

definition validate_host :: "checks \<Rightarrow> host_spec \<Rightarrow> go_error option" where
  "validate_host K s =
     (if hs_brand_name s = [] then Some (plain_error (''spec.brandName: Invalid value: '' @ [CHR 0x22, CHR 0x22]))
      else
        case validate_assets K (hs_assets s) of
          Some err \<Rightarrow> Some err
        | None \<Rightarrow>
            (case validate_resource_provider (ck_host_resources K s) of
               Some err \<Rightarrow> Some err
             | None \<Rightarrow>
                 map_option (wrap_error ''spec.extensionSelector'')
                   (Option.bind (hs_extension_selector s) (ck_selector K))))"

text \<open>
  A translation. The first loop ranges over the keys of the first language, which Go iterates over in
  any order; \<open>tr_keys\<close> is one such order. The second sets every message in a scratch catalog, the
  keys of each language sorted.
\<close>

fun count_keys :: "translation \<Rightarrow> string list \<Rightarrow> nat \<Rightarrow> go_error + nat" where
  "count_keys t [] n = Inr n"
| "count_keys t (k # ks) n =
     (if map_of (tr_keys t) k = None then
        Inl (plain_error (''language '' @ tr_lang t @ '' is missing key '' @ k))
      else count_keys t ks (Suc n))"

fun check_languages :: "translation \<Rightarrow> translation list \<Rightarrow> go_error option" where
  "check_languages first [] = None"
| "check_languages first (t # ts) =
     (case count_keys t (map fst (tr_keys first)) 0 of
        Inl err \<Rightarrow> Some err
      | Inr n \<Rightarrow>
          if n \<noteq> length (tr_keys first) then
            Some (plain_error (''language '' @ tr_lang t @ '' has different number of keys than '' @ tr_lang first))
          else check_languages first ts)"

definition message_of :: "translation \<Rightarrow> string \<Rightarrow> string" where
  "message_of t k = (case map_of (tr_keys t) k of None \<Rightarrow> [] | Some v \<Rightarrow> v)"

definition catalog_entries :: "translation_spec \<Rightarrow> (string \<times> string \<times> string) list" where
  "catalog_entries ts =
     concat (map (\<lambda>t. map (\<lambda>k. (tr_lang t, k, message_of t k)) (sort_strings (map fst (tr_keys t)))) ts)"

fun set_strings :: "checks \<Rightarrow> (string \<times> string \<times> string) list \<Rightarrow> (string \<times> string \<times> string) list \<Rightarrow> go_error option" where
  "set_strings K earlier [] = None"
| "set_strings K earlier ((lang, k, v) # rest) =
     (case ck_set_string K earlier lang k v of
        Some err \<Rightarrow> Some (wrap_error (''language '' @ lang @ '' key '' @ ck_quote K k @ '': value is not a valid message'') err)
      | None \<Rightarrow> set_strings K (earlier @ [(lang, k, v)]) rest)"

definition validate_translation_spec :: "checks \<Rightarrow> translation_spec \<Rightarrow> go_error option" where
  "validate_translation_spec K ts =
     (case ts of
        [] \<Rightarrow> Some (plain_error ''no translations'')
      | first # _ \<Rightarrow>
          (case check_languages first ts of
             Some err \<Rightarrow> Some err
           | None \<Rightarrow> set_strings K [] (catalog_entries ts)))"

fun validate_translation :: "checks \<Rightarrow> kdex_spec \<Rightarrow> go_error option" where
  "validate_translation K (KDexTranslation s) = validate_translation_spec K (nt_spec s)"
| "validate_translation K (KDexClusterTranslation s) = validate_translation_spec K s"
| "validate_translation K s = Some (unsupported_type s)"

section \<open>Admission\<close>

text \<open>What a validating webhook answers to a request: a deletion is never refused.\<close>

datatype 's admission = Create 's | Update 's 's | Delete 's

fun review :: "('s \<Rightarrow> go_error option) \<Rightarrow> 's admission \<Rightarrow> go_error option" where
  "review validate (Create ob) = validate ob"
| "review validate (Update old new) = validate new"
| "review validate (Delete ob) = None"

text \<open>The webhooks the controllers register. Translations have no defaulter.\<close>

definition default_registered :: "string \<Rightarrow> kdex_spec \<Rightarrow> go_error + kdex_spec" where
  "default_registered name s =
     (case s of
        KDexApp _ \<Rightarrow> default_app name s | KDexClusterApp _ \<Rightarrow> default_app name s
      | KDexPageArchetype _ \<Rightarrow> default_archetype name s | KDexClusterPageArchetype _ \<Rightarrow> default_archetype name s
      | KDexPageFooter _ \<Rightarrow> default_footer name s | KDexClusterPageFooter _ \<Rightarrow> default_footer name s
      | KDexPageHeader _ \<Rightarrow> default_header name s | KDexClusterPageHeader _ \<Rightarrow> default_header name s
      | KDexPageNavigation _ \<Rightarrow> default_navigation name s | KDexClusterPageNavigation _ \<Rightarrow> default_navigation name s
      | KDexScriptLibrary _ \<Rightarrow> default_script_library name s
      | KDexClusterScriptLibrary _ \<Rightarrow> default_script_library name s
      | KDexTheme _ \<Rightarrow> default_theme name s | KDexClusterTheme _ \<Rightarrow> default_theme name s
      | KDexUtilityPage _ \<Rightarrow> default_utility_page name s | KDexClusterUtilityPage _ \<Rightarrow> default_utility_page name s
      | _ \<Rightarrow> Inr s)"

definition validate_registered :: "checks \<Rightarrow> string \<Rightarrow> kdex_spec \<Rightarrow> go_error option" where
  "validate_registered K name s =
     (case s of
        KDexApp _ \<Rightarrow> validate_app K s | KDexClusterApp _ \<Rightarrow> validate_app K s
      | KDexScriptLibrary _ \<Rightarrow> validate_script_library K s | KDexClusterScriptLibrary _ \<Rightarrow> validate_script_library K s
      | KDexTheme _ \<Rightarrow> validate_theme K s | KDexClusterTheme _ \<Rightarrow> validate_theme K s
      | KDexTranslation _ \<Rightarrow> validate_translation K s | KDexClusterTranslation _ \<Rightarrow> validate_translation K s
      | KDexUtilityPage _ \<Rightarrow> validate_utility_page K s | KDexClusterUtilityPage _ \<Rightarrow> validate_utility_page K s
      | OtherKind _ \<Rightarrow> None
      | _ \<Rightarrow> validate_page_content K name s)"

text \<open>An admitted object: the API server calls the defaulter, then the validator on what it produced.\<close>

definition admit :: "checks \<Rightarrow> string \<Rightarrow> kdex_spec \<Rightarrow> go_error + kdex_spec" where
  "admit K name s =
     (case default_registered name s of
        Inl err \<Rightarrow> Inl err
      | Inr s' \<Rightarrow> (case review (validate_registered K name) (Create s') of Some err \<Rightarrow> Inl err | None \<Rightarrow> Inr s'))"

end
