(* ===== verification/FunctionSpec.thy ===== *)
theory FunctionSpec
  imports Validators "HOL-Library.AList"
begin

text \<open>
  The validator of functions (\<open>internal/webhook/kdexfunction_validator.go\<close>): the structural checks, the
  OpenAPI document synthesized from the paths and schemas of the function, and the verdict of the
  linter on it. The two path expressions (\<open>BasePathRegex\<close>, \<open>ItemPathRegex\<close>) and the linter are fields
  of \<open>checks\<close>. The document only holds values that come from JSON, so \<open>json.Marshal\<close> does not fail
  on it.
\<close>

record path_item =
  pi_description :: string
  pi_summary :: string
  pi_connect :: "raw_extension option"
  pi_delete :: "raw_extension option"
  pi_get :: "raw_extension option"
  pi_head :: "raw_extension option"
  pi_options :: "raw_extension option"
  pi_patch :: "raw_extension option"
  pi_post :: "raw_extension option"
  pi_put :: "raw_extension option"
  pi_trace :: "raw_extension option"
  pi_parameters :: "raw_extension list"

record function_spec =
  fn_host_ref :: string
  fn_base_path :: string
  fn_paths :: "(string \<times> path_item) list"
  fn_schemas :: "(string \<times> raw_extension) list"

section \<open>JSON\<close>

text \<open>
  \<open>json.Unmarshal\<close> into a \<open>map[string]any\<close> succeeds on an object and on \<open>null\<close>, which leaves the map
  nil and is written as \<open>null\<close> again. Into an \<open>any\<close> it succeeds on every JSON text.
\<close>

fun unmarshal_map :: "raw_extension \<Rightarrow> json option" where
  "unmarshal_map (Some (JObj kvs)) = Some (JObj kvs)"
| "unmarshal_map (Some JNull) = Some JNull"
| "unmarshal_map _ = None"

fun member :: "json \<Rightarrow> string \<Rightarrow> json option" where
  "member (JObj kvs) k = map_of kvs k"
| "member _ k = None"

section \<open>The security collector\<close>

definition bearer :: json where
  "bearer = JObj [(''type'', JStr ''http''), (''scheme'', JStr ''bearer'')]"

fun requirement_names :: "json \<Rightarrow> string list" where
  "requirement_names (JObj kvs) = map fst kvs"
| "requirement_names _ = []"

definition security_names :: "json \<Rightarrow> string list" where
  "security_names op =
     (case member op ''security'' of Some (JArr xs) \<Rightarrow> concat (map requirement_names xs) | _ \<Rightarrow> [])"

definition collect_schemes :: "json \<Rightarrow> (string \<times> json) list \<Rightarrow> (string \<times> json) list" where
  "collect_schemes op schemes = fold (\<lambda>k. AList.update k bearer) (security_names op) schemes"

section \<open>The document\<close>

definition operations :: "path_item \<Rightarrow> (string \<times> raw_extension option) list" where
  "operations p =
     [(''connect'', pi_connect p), (''delete'', pi_delete p), (''get'', pi_get p), (''head'', pi_head p),
      (''options'', pi_options p), (''patch'', pi_patch p), (''post'', pi_post p), (''put'', pi_put p),
      (''trace'', pi_trace p)]"

fun add_operations :: "(string \<times> raw_extension option) list \<Rightarrow> (string \<times> json) list \<Rightarrow> (string \<times> json) list
    \<Rightarrow> (string \<times> json) list \<times> (string \<times> json) list" where
  "add_operations [] ob schemes = (ob, schemes)"
| "add_operations ((n, raw) # ops) ob schemes =
     (case Option.bind raw unmarshal_map of
        None \<Rightarrow> add_operations ops ob schemes
      | Some op \<Rightarrow> add_operations ops (ob @ [(n, op)]) (collect_schemes op schemes))"

definition path_object :: "path_item \<Rightarrow> (string \<times> json) list \<Rightarrow> json \<times> (string \<times> json) list" where
  "path_object p schemes =
     (let texts = (if pi_description p = [] then [] else [(''description'', JStr (pi_description p))])
            @ (if pi_summary p = [] then [] else [(''summary'', JStr (pi_summary p))]);
          (ob, schemes1) = add_operations (operations p) texts schemes
      in (JObj (ob @ (if pi_parameters p = [] then []
            else [(''parameters'', JArr (List.map_filter (\<lambda>raw. raw) (pi_parameters p)))])), schemes1))"

fun path_objects :: "(string \<times> path_item) list \<Rightarrow> (string \<times> json) list \<Rightarrow> (string \<times> json) list \<times> (string \<times> json) list" where
  "path_objects [] schemes = ([], schemes)"
| "path_objects ((k, p) # ps) schemes =
     (let (ob, schemes1) = path_object p schemes; (obs, schemes2) = path_objects ps schemes1
      in ((k, ob) # obs, schemes2))"

definition standard_responses :: json where
  "standard_responses = JObj (map (\<lambda>(k, d). (k, JObj [(''description'', JStr d)]))
     [(''BadRequest'', ''Bad Request''), (''Found'', ''Found''), (''InternalServerError'', ''Internal Server Error''),
      (''NotFound'', ''Not Found''), (''SeeOther'', ''See Other''), (''Unauthorized'', ''Unauthorized'')])"

definition schema_objects :: "(string \<times> raw_extension) list \<Rightarrow> (string \<times> json) list" where
  "schema_objects = List.map_filter (\<lambda>(k, raw). map_option (Pair k) (unmarshal_map raw))"

definition open_api_document :: "function_spec \<Rightarrow> json" where
  "open_api_document s =
     (let (paths, schemes) = path_objects (fn_paths s) []
      in JObj
        [(''openapi'', JStr ''3.0.3''),
         (''info'', JObj [(''title'', JStr ''Function API''), (''version'', JStr ''1.0.0''),
            (''description'', JStr ''Auto-generated OpenAPI specification for KDexFunction'')]),
         (''paths'', JObj paths),
         (''components'', JObj
            ([(''responses'', standard_responses), (''securitySchemes'', JObj schemes)]
             @ (if fn_schemas s = [] then [] else [(''schemas'', JObj (schema_objects (fn_schemas s)))])))])"

section \<open>The validator\<close>

definition validate_open_api :: "checks \<Rightarrow> function_spec \<Rightarrow> go_error option" where
  "validate_open_api K s =
     (case ck_lint K (open_api_document s) of
        Inl err \<Rightarrow> Some (wrap_error ''linting error'' err)
      | Inr results \<Rightarrow>
          let errors = map (\<lambda>r. lr_name r @ '': '' @ lr_message r) (filter (\<lambda>r. lr_severity r = ''error'') results)
          in if errors = [] then None
             else Some (plain_error (''OpenAPI spec validation errors: '' @ join_with ''; '' errors)))"

definition validate_function :: "checks \<Rightarrow> function_spec \<Rightarrow> go_error option" where
  "validate_function K s =
     (if fn_host_ref s = [] then Some (plain_error ''spec.hostRef.name must not be empty'')
      else if \<not> ck_base_path K (fn_base_path s) then
        Some (plain_error (''spec.api.basePath '' @ fn_base_path s @ '' does not match '' @ ck_base_regex K))
      else case find (\<lambda>(k, p). \<not> ck_item_path K k) (fn_paths s) of
          Some (k, p) \<Rightarrow> Some (plain_error (''spec.api.paths['' @ k @ ''] does not match '' @ ck_item_regex K))
        | None \<Rightarrow> map_option (wrap_error ''OpenAPI validation failed'') (validate_open_api K s))"

section \<open>Facts\<close>

text \<open>The parsed operations of a path, by name.\<close>

definition parsed_operations :: "path_item \<Rightarrow> (string \<times> json) list" where
  "parsed_operations p =
     List.map_filter (\<lambda>(n, raw). map_option (Pair n) (Option.bind raw unmarshal_map)) (operations p)"

definition bearer_schemes :: "(string \<times> json) list \<Rightarrow> bool" where
  "bearer_schemes schemes \<longleftrightarrow> distinct (map fst schemes) \<and> snd ` set schemes \<subseteq> {bearer}"

lemma fold_update_bearer:
  "bearer_schemes schemes \<Longrightarrow> bearer_schemes (fold (\<lambda>k. AList.update k bearer) ks schemes)
     \<and> fst ` set (fold (\<lambda>k. AList.update k bearer) ks schemes) = fst ` set schemes \<union> set ks"
proof (induction ks arbitrary: schemes)
  case (Cons k ks)
  have keys: "fst ` set (AList.update k bearer schemes) = insert k (fst ` set schemes)"
    by (simp add: dom_update)
  have "snd ` set (AList.update k bearer schemes) \<subseteq> insert bearer (snd ` set schemes)"
    by (induction schemes) auto
  then have "bearer_schemes (AList.update k bearer schemes)"
    using Cons.prems distinct_update [of schemes k bearer] by (auto simp: bearer_schemes_def)
  from Cons.IH [OF this] show ?case by (auto simp: keys)
qed simp

lemma collect_schemes_bearer:
  "bearer_schemes schemes \<Longrightarrow> bearer_schemes (collect_schemes op schemes)
     \<and> fst ` set (collect_schemes op schemes) = fst ` set schemes \<union> set (security_names op)"
  unfolding collect_schemes_def by (rule fold_update_bearer)

lemma add_operations_spec:
  assumes "add_operations ops ob schemes = (ob', schemes')" "bearer_schemes schemes"
  shows "ob' = ob @ List.map_filter (\<lambda>(n, raw). map_option (Pair n) (Option.bind raw unmarshal_map)) ops
    \<and> bearer_schemes schemes'
    \<and> fst ` set schemes' = fst ` set schemes \<union>
        (\<Union>(n, op) \<in> set (List.map_filter (\<lambda>(n, raw). map_option (Pair n) (Option.bind raw unmarshal_map)) ops).
           set (security_names op))"
  using assms
proof (induction ops ob schemes rule: add_operations.induct)
  case (2 n raw ops ob schemes)
  then show ?case
    using collect_schemes_bearer [OF 2(4)]
    by (cases "Option.bind raw unmarshal_map") (auto simp: List.map_filter_simps)
qed (simp add: List.map_filter_simps)

lemma parsed_names:
  "map fst (List.map_filter (\<lambda>(n, raw). map_option (Pair n) (f raw)) xs) = map fst (filter (\<lambda>(n, raw). f raw \<noteq> None) xs)"
  by (induction xs) (auto simp: List.map_filter_simps)

lemma parsed_operations_names:
  "distinct (map fst (parsed_operations p))" "n \<in> fst ` set (parsed_operations p) \<Longrightarrow> n \<in> fst ` set (operations p)"
proof -
  have names: "map fst (parsed_operations p)
      = map fst (filter (\<lambda>(n, raw). Option.bind raw unmarshal_map \<noteq> None) (operations p))"
    unfolding parsed_operations_def by (rule parsed_names)
  have "distinct (map fst (operations p))" by (simp add: operations_def)
  then show "distinct (map fst (parsed_operations p))" by (simp add: names distinct_map_filter)
  have "set (map fst (parsed_operations p)) \<subseteq> fst ` set (operations p)" unfolding names by auto
  then show "n \<in> fst ` set (parsed_operations p) \<Longrightarrow> n \<in> fst ` set (operations p)" by auto
qed

lemma path_object_spec:
  assumes "path_object p schemes = (ob, schemes')" "bearer_schemes schemes"
  shows "bearer_schemes schemes'
    \<and> fst ` set schemes' = fst ` set schemes \<union> (\<Union>(n, op) \<in> set (parsed_operations p). set (security_names op))
    \<and> list_all (\<lambda>(n, op). member ob n = Some op) (parsed_operations p)"
proof -
  define texts where "texts = (if pi_description p = [] then [] else [(''description'', JStr (pi_description p))])
    @ (if pi_summary p = [] then [] else [(''summary'', JStr (pi_summary p))])"
  obtain kvs schemes1 where a: "add_operations (operations p) texts schemes = (kvs, schemes1)" by (rule prod.exhaust)
  note spec = add_operations_spec [OF a assms(2), folded parsed_operations_def]
  have "schemes' = schemes1" and ob: "\<exists>rest. ob = JObj (texts @ parsed_operations p @ rest)"
    using assms(1) a spec by (auto simp: path_object_def texts_def Let_def split: prod.splits)
  moreover have "list_all (\<lambda>(n, op). member ob n = Some op) (parsed_operations p)"
  proof -
    obtain rest where rest: "ob = JObj (texts @ parsed_operations p @ rest)" using ob by blast
    have "member ob n = Some op" if "(n, op) \<in> set (parsed_operations p)" for n op
    proof -
      have "n \<in> fst ` set (operations p)" using parsed_operations_names(2) that by force
      then have "map_of texts n = None" by (auto simp: texts_def operations_def)
      moreover have "map_of (parsed_operations p) n = Some op"
        using that parsed_operations_names(1) by (simp add: map_of_eq_Some_iff)
      ultimately show ?thesis by (simp add: rest map_add_def)
    qed
    then show ?thesis by (auto simp: list_all_iff)
  qed
  ultimately show ?thesis using spec by simp
qed

lemma path_objects_spec:
  assumes "path_objects ps schemes = (obs, schemes')" "bearer_schemes schemes"
  shows "bearer_schemes schemes'
    \<and> fst ` set schemes' = fst ` set schemes \<union>
        (\<Union>(k, p) \<in> set ps. \<Union>(n, op) \<in> set (parsed_operations p). set (security_names op))
    \<and> list_all2 (\<lambda>(k, p) (k', ob). k' = k \<and> list_all (\<lambda>(n, op). member ob n = Some op) (parsed_operations p)) ps obs"
  using assms
proof (induction ps schemes arbitrary: obs rule: path_objects.induct)
  case (2 k p ps schemes)
  obtain ob schemes1 where one: "path_object p schemes = (ob, schemes1)" by (rule prod.exhaust)
  obtain obs2 schemes2 where rest: "path_objects ps schemes1 = (obs2, schemes2)" by (rule prod.exhaust)
  have out: "obs = (k, ob) # obs2" "schemes' = schemes2" using 2(2) one rest by auto
  note spec = path_object_spec [OF one 2(3)]
  note IH = 2(1) [OF one [symmetric] refl, unfolded out(2) [symmetric], simplified out, OF _ conjunct1 [OF spec]]
  show ?case using spec IH rest out by auto
qed simp

section \<open>Properties\<close>


end
