(* ===== verification/Reconcilers.thy ===== *)
theory Reconcilers
  imports Resolve
begin

text \<open>
  The reconcilers of the referenced kinds (\<open>internal/controller/kdexapp_controller.go\<close>,
  \<open>kdexpagearchetype_controller.go\<close>, \<open>kdexpagefooter_controller.go\<close>, \<open>kdexpageheader_controller.go\<close>,
  \<open>kdexpagenavigation_controller.go\<close>, \<open>kdexscriptlibrary_controller.go\<close>, \<open>kdextheme_controller.go\<close>,
  \<open>kdextranslation_controller.go\<close>, \<open>kdexutilitypage_controller.go\<close>) and the package validation
  they call (\<open>internal/validation/validation.go\<close>).

  Each \<open>Reconcile\<close> reads its object, runs a sequence of steps that resolve references and note
  their generations, and ends in a deferred status update that is skipped when nothing but
  transition times changed. A step either lets the reconcile go on or ends it. The locale
  \<open>settling_step\<close> is what makes that guard work: a step that goes on adds attributes that do not
  depend on the status, so a second pass finds them in place.
\<close>

section \<open>Comparing statuses\<close>

definition normalize_conditions :: "condition list \<Rightarrow> condition list" where
  "normalize_conditions cs = sort_by (str_key_le cond_type) (map (\<lambda>c. c\<lparr>cond_transition := 0\<rparr>) cs)"

definition status_equal :: "obj_status \<Rightarrow> obj_status \<Rightarrow> bool" where
  "status_equal a b \<longleftrightarrow> attributes a = attributes b \<and> observed_generation a = observed_generation b
     \<and> normalize_conditions (conditions a) = normalize_conditions (conditions b)"

section \<open>Steps\<close>

type_synonym rstep = "any_obj \<Rightarrow> world \<Rightarrow> reconcile_out option \<times> any_obj \<times> world"

fun run_steps :: "rstep list \<Rightarrow> rstep" where
  "run_steps [] ob w = (None, ob, w)"
| "run_steps (s # ss) ob w =
     (case s ob w of
        (Some out, ob1, w1) \<Rightarrow> (Some out, ob1, w1)
      | (None, ob1, w1) \<Rightarrow> run_steps ss ob1 w1)"

definition note_generation :: "string \<Rightarrow> int \<Rightarrow> any_obj \<Rightarrow> any_obj" where
  "note_generation key g ob = put_attr key (itoa g) ob"

fun note_generations :: "string \<Rightarrow> (string \<times> int) list \<Rightarrow> any_obj \<Rightarrow> any_obj" where
  "note_generations sfx [] ob = ob"
| "note_generations sfx ((k, g) # kgs) ob = note_generations sfx kgs (note_generation (k @ sfx) g ob)"

text \<open>
  The shape of a resolving step: resolve for the object, return what the resolver says where it
  says so, note generations otherwise.
\<close>

definition resolve_then :: "(string \<Rightarrow> string \<Rightarrow> condition list \<Rightarrow> world \<Rightarrow> 'a resolution \<times> condition list \<times> world)
    \<Rightarrow> ('a option \<Rightarrow> any_obj \<Rightarrow> any_obj) \<Rightarrow> rstep" where
  "resolve_then resolve note_value ob w =
     (let (r, conds, w1) = resolve (type_name (o_spec ob)) (o_namespace ob) (conditions (o_status ob)) w;
          ob1 = with_conditions conds ob
      in if res_return r then (Some (res_result r, res_err r), ob1, w1)
         else (None, note_value (res_value r) ob1, w1))"

definition note_object :: "string \<Rightarrow> any_obj option \<Rightarrow> any_obj \<Rightarrow> any_obj" where
  "note_object key v ob = (case v of None \<Rightarrow> ob | Some x \<Rightarrow> note_generation key (o_generation x) ob)"

definition ref_attr :: "env \<Rightarrow> obj_ref option \<Rightarrow> string \<Rightarrow> rstep" where
  "ref_attr E ref key = resolve_then (\<lambda>rk ns. resolve_ref E rk ns ref) (note_object key)"

definition note_navigations :: "(string \<times> resolved_navigation) list option \<Rightarrow> any_obj \<Rightarrow> any_obj" where
  "note_navigations v = note_generations ''.navigation.generation''
     (map (\<lambda>(k, n). (k, rn_generation n)) (opt_list v))"

definition navigations_attr :: "env \<Rightarrow> navigation_refs \<Rightarrow> rstep" where
  "navigations_attr E refs = resolve_then (\<lambda>rk ns. resolve_page_navigations E rk ns refs) note_navigations"

text \<open>Content entries without an app (raw HTML) have no generation to note.\<close>

fun content_generations :: "(string \<times> resolved_content) list \<Rightarrow> (string \<times> int) list" where
  "content_generations [] = []"
| "content_generations ((k, c) # cs) =
     (case rc_app c of None \<Rightarrow> content_generations cs | Some a \<Rightarrow> (k, o_generation a) # content_generations cs)"

definition note_contents :: "(string \<times> resolved_content) list option \<Rightarrow> any_obj \<Rightarrow> any_obj" where
  "note_contents v = note_generations ''.content.generation'' (content_generations (opt_list v))"

definition contents_attr :: "env \<Rightarrow> content_entry list \<Rightarrow> rstep" where
  "contents_attr E entries = resolve_then (\<lambda>rk ns. resolve_contents E rk ns entries) note_contents"

definition finish :: "env \<Rightarrow> rstep" where
  "finish E ob w = (Some (no_result, None),
     mark E w ready_set ReconcileSuccess ''Reconciliation successful'' ob, w)"

section \<open>Package validation\<close>

text \<open>
  What the reconciler of an app or script library is configured with. The package validator
  belongs to \<open>kdex.dev/crds/npm\<close>; its answer may change from call to call.
\<close>

record npm =
  npm_default_registry :: string
  npm_default_secret :: "obj_ref option"
  npm_factory :: "call list \<Rightarrow> string \<Rightarrow> secret option \<Rightarrow> go_error + (string \<Rightarrow> string \<Rightarrow> go_error option)"

definition validate_package_reference :: "npm \<Rightarrow> package_ref \<Rightarrow> secret option \<Rightarrow> world \<Rightarrow> go_error option" where
  "validate_package_reference N p secret w =
     (let reg = (if pkg_registry p = [] then npm_default_registry N else pkg_registry p)
      in case npm_factory N (calls w) reg secret of
           Inl err \<Rightarrow> Some err
         | Inr validate \<Rightarrow> validate (pkg_name p) (pkg_version p))"

definition max_attempts :: int where "max_attempts = 10"

definition attempts_attr :: string where "attempts_attr = ''validation.attempts''"

definition attempts_of :: "obj_status \<Rightarrow> int" where
  "attempts_of st = (case atoi (get_attr st attempts_attr) of None \<Rightarrow> 1 | Some n \<Rightarrow> n)"

definition package_step :: "env \<Rightarrow> npm \<Rightarrow> package_ref \<Rightarrow> rstep" where
  "package_step E N p ob w =
     (let sref = (case pkg_secret_ref p of None \<Rightarrow> npm_default_secret N | Some r \<Rightarrow> Some r);
          (r, conds, w1) = resolve_secret E (o_namespace ob)
            (case sref of None \<Rightarrow> NilRef | Some x \<Rightarrow> ObjectRef x) (conditions (o_status ob)) w;
          ob1 = with_conditions conds ob
      in if res_return r then (Some (res_result r, res_err r), ob1, w1)
         else
           let ob2 = (case res_value r of None \<Rightarrow> ob1
                      | Some s \<Rightarrow> note_generation ''secret.generation'' (o_generation s) ob1);
               attempts = attempts_of (o_status ob2)
           in case validate_package_reference N p (res_value r) w1 of
                Some err \<Rightarrow>
                  let attempts1 = wrap_int64 (attempts + 1);
                      ob3 = put_attr attempts_attr (itoa attempts1)
                              (mark E w1 degraded_set ReconcileError (err_text err) ob2)
                  in (Some (if attempts1 \<le> max_attempts then (requeue (e_requeue_delay E), None)
                            else (no_result, Some err)), ob3, w1)
              | None \<Rightarrow> (None, upd_status (del_attr attempts_attr) ob2, w1))"

section \<open>The bodies\<close>

definition app_body :: "env \<Rightarrow> npm \<Rightarrow> app_spec \<Rightarrow> rstep" where
  "app_body E N s = run_steps [package_step E N (app_package s), finish E]"

definition script_library_body :: "env \<Rightarrow> npm \<Rightarrow> script_library_spec \<Rightarrow> rstep" where
  "script_library_body E N s = run_steps
     ((case lib_package s of None \<Rightarrow> [] | Some p \<Rightarrow> [package_step E N p]) @ [finish E])"

definition page_part_body :: "env \<Rightarrow> page_part_spec \<Rightarrow> rstep" where
  "page_part_body E s = run_steps [ref_attr E (part_script_library s) ''scriptLibrary.generation'', finish E]"

definition theme_body :: "env \<Rightarrow> theme_spec \<Rightarrow> rstep" where
  "theme_body E s = run_steps [ref_attr E (th_script_library s) ''scriptLibrary.generation'', finish E]"

definition archetype_body :: "env \<Rightarrow> archetype_spec \<Rightarrow> rstep" where
  "archetype_body E s = run_steps
     [ref_attr E (ar_footer s) ''footer.generation'', ref_attr E (ar_header s) ''header.generation'',
      navigations_attr E (ar_navigations s),
      ref_attr E (ar_script_library s) ''scriptLibrary.generation'', finish E]"

definition translation_body :: "env \<Rightarrow> rstep" where
  "translation_body E = run_steps [finish E]"

text \<open>
  A utility page: the navigations of its archetype, overridden by its own. \<open>maps.Copy\<close> on the
  clone of the archetype's map.
\<close>

fun archetype_navigations :: "any_obj option \<Rightarrow> navigation_refs" where
  "archetype_navigations None = []"
| "archetype_navigations (Some ob) =
     (case o_spec ob of KDexPageArchetype s \<Rightarrow> ar_navigations s
      | KDexClusterPageArchetype s \<Rightarrow> ar_navigations s | _ \<Rightarrow> [])"

definition override_navigations :: "navigation_refs \<Rightarrow> navigation_refs \<Rightarrow> navigation_refs" where
  "override_navigations base over = foldl (\<lambda>m (k, r). AList.update k r m) base over"

definition utility_page_rest :: "env \<Rightarrow> utility_page_spec \<Rightarrow> any_obj option \<Rightarrow> rstep" where
  "utility_page_rest E s arch = run_steps
     [contents_attr E (up_contents s),
      ref_attr E (up_header s) ''header.generation'', ref_attr E (up_footer s) ''footer.generation'',
      navigations_attr E (override_navigations (archetype_navigations arch) (up_navigations s)),
      ref_attr E (up_script_library s) ''scriptLibrary.generation'', finish E]"

definition utility_page_body :: "env \<Rightarrow> utility_page_spec \<Rightarrow> rstep" where
  "utility_page_body E s ob w =
     (let (r, conds, w1) = resolve_or_default_archetype E (type_name (o_spec ob)) (o_namespace ob)
            (up_archetype s) (conditions (o_status ob)) w;
          ob1 = with_conditions conds ob
      in if res_return r then (Some (res_result r, res_err r), ob1, w1)
         else utility_page_rest E s (res_value r) (note_object ''archetype.generation'' (res_value r) ob1) w1)"

section \<open>Reading the object and writing its status\<close>

definition deferred_update :: "env \<Rightarrow> obj_status \<Rightarrow> any_obj \<Rightarrow> reconcile_out \<Rightarrow> world \<Rightarrow> reconcile_out \<times> world" where
  "deferred_update E observed ob out w =
     (let ob1 = upd_status (\<lambda>s. s\<lparr>observed_generation := o_generation ob\<rparr>) ob
      in if status_equal observed (o_status ob1) then (out, w)
         else let w1 = log_call (UpdateStatus ob1) w
              in case e_update_status E (calls w) ob1 of
                   None \<Rightarrow> (out, w1)
                 | Some err \<Rightarrow> if is_conflict err then ((requeue conflict_delay, None), w1)
                               else ((no_result, Some err), w1))"

text \<open>
  The frame all nine share. The kind read is the cluster kind where the request has no
  namespace. \<open>body_of\<close> is the body for an object of that Go type.
\<close>

definition reconcile_scoped :: "env \<Rightarrow> string \<Rightarrow> string \<Rightarrow> (kdex_spec \<Rightarrow> rstep) \<Rightarrow> nsname \<Rightarrow> world
    \<Rightarrow> reconcile_out \<times> world" where
  "reconcile_scoped E kind cluster_kind body_of req w =
     (let k = (if fst req = [] then cluster_kind else kind);
          w1 = log_call (Get k req) w
      in case e_get_ref E (calls w) k req of
           Inl err \<Rightarrow> ((no_result, ignore_not_found err), w1)
         | Inr ob \<Rightarrow>
             (case body_of (o_spec ob) ob w1 of
                (out, ob1, w2) \<Rightarrow>
                  deferred_update E (o_status ob) ob1
                    (case out of None \<Rightarrow> (no_result, None) | Some r \<Rightarrow> r) w2))"

text \<open>
  \<open>Get\<close> decodes into the struct of the kind it was asked for, so the last equations are never reached.
\<close>

fun app_body_of :: "env \<Rightarrow> npm \<Rightarrow> kdex_spec \<Rightarrow> rstep" where
  "app_body_of E N (KDexApp s) = app_body E N s"
| "app_body_of E N (KDexClusterApp s) = app_body E N s"
| "app_body_of E N _ = run_steps []"

fun script_library_body_of :: "env \<Rightarrow> npm \<Rightarrow> kdex_spec \<Rightarrow> rstep" where
  "script_library_body_of E N (KDexScriptLibrary s) = script_library_body E N s"
| "script_library_body_of E N (KDexClusterScriptLibrary s) = script_library_body E N s"
| "script_library_body_of E N _ = run_steps []"

fun footer_body_of :: "env \<Rightarrow> kdex_spec \<Rightarrow> rstep" where
  "footer_body_of E (KDexPageFooter s) = page_part_body E s"
| "footer_body_of E (KDexClusterPageFooter s) = page_part_body E s"
| "footer_body_of E _ = run_steps []"

fun header_body_of :: "env \<Rightarrow> kdex_spec \<Rightarrow> rstep" where
  "header_body_of E (KDexPageHeader s) = page_part_body E s"
| "header_body_of E (KDexClusterPageHeader s) = page_part_body E s"
| "header_body_of E _ = run_steps []"

fun navigation_body_of :: "env \<Rightarrow> kdex_spec \<Rightarrow> rstep" where
  "navigation_body_of E (KDexPageNavigation s) = page_part_body E s"
| "navigation_body_of E (KDexClusterPageNavigation s) = page_part_body E s"
| "navigation_body_of E _ = run_steps []"

fun theme_body_of :: "env \<Rightarrow> kdex_spec \<Rightarrow> rstep" where
  "theme_body_of E (KDexTheme s) = theme_body E s"
| "theme_body_of E (KDexClusterTheme s) = theme_body E s"
| "theme_body_of E _ = run_steps []"

fun archetype_body_of :: "env \<Rightarrow> kdex_spec \<Rightarrow> rstep" where
  "archetype_body_of E (KDexPageArchetype s) = archetype_body E s"
| "archetype_body_of E (KDexClusterPageArchetype s) = archetype_body E s"
| "archetype_body_of E _ = run_steps []"

fun translation_body_of :: "env \<Rightarrow> kdex_spec \<Rightarrow> rstep" where
  "translation_body_of E (KDexTranslation s) = translation_body E"
| "translation_body_of E (KDexClusterTranslation s) = translation_body E"
| "translation_body_of E _ = run_steps []"

fun utility_page_body_of :: "env \<Rightarrow> kdex_spec \<Rightarrow> rstep" where
  "utility_page_body_of E (KDexUtilityPage s) = utility_page_body E s"
| "utility_page_body_of E (KDexClusterUtilityPage s) = utility_page_body E s"
| "utility_page_body_of E _ = run_steps []"

definition reconcile_app :: "env \<Rightarrow> npm \<Rightarrow> nsname \<Rightarrow> world \<Rightarrow> reconcile_out \<times> world" where
  "reconcile_app E N = reconcile_scoped E ''KDexApp'' ''KDexClusterApp'' (app_body_of E N)"

definition reconcile_script_library :: "env \<Rightarrow> npm \<Rightarrow> nsname \<Rightarrow> world \<Rightarrow> reconcile_out \<times> world" where
  "reconcile_script_library E N =
     reconcile_scoped E ''KDexScriptLibrary'' ''KDexClusterScriptLibrary'' (script_library_body_of E N)"

definition reconcile_footer :: "env \<Rightarrow> nsname \<Rightarrow> world \<Rightarrow> reconcile_out \<times> world" where
  "reconcile_footer E = reconcile_scoped E ''KDexPageFooter'' ''KDexClusterPageFooter'' (footer_body_of E)"

definition reconcile_header :: "env \<Rightarrow> nsname \<Rightarrow> world \<Rightarrow> reconcile_out \<times> world" where
  "reconcile_header E = reconcile_scoped E ''KDexPageHeader'' ''KDexClusterPageHeader'' (header_body_of E)"

definition reconcile_navigation :: "env \<Rightarrow> nsname \<Rightarrow> world \<Rightarrow> reconcile_out \<times> world" where
  "reconcile_navigation E =
     reconcile_scoped E ''KDexPageNavigation'' ''KDexClusterPageNavigation'' (navigation_body_of E)"

definition reconcile_theme :: "env \<Rightarrow> nsname \<Rightarrow> world \<Rightarrow> reconcile_out \<times> world" where
  "reconcile_theme E = reconcile_scoped E ''KDexTheme'' ''KDexClusterTheme'' (theme_body_of E)"

definition reconcile_archetype :: "env \<Rightarrow> nsname \<Rightarrow> world \<Rightarrow> reconcile_out \<times> world" where
  "reconcile_archetype E =
     reconcile_scoped E ''KDexPageArchetype'' ''KDexClusterPageArchetype'' (archetype_body_of E)"

definition reconcile_translation :: "env \<Rightarrow> nsname \<Rightarrow> world \<Rightarrow> reconcile_out \<times> world" where
  "reconcile_translation E =
     reconcile_scoped E ''KDexTranslation'' ''KDexClusterTranslation'' (translation_body_of E)"

definition reconcile_utility_page :: "env \<Rightarrow> nsname \<Rightarrow> world \<Rightarrow> reconcile_out \<times> world" where
  "reconcile_utility_page E =
     reconcile_scoped E ''KDexUtilityPage'' ''KDexClusterUtilityPage'' (utility_page_body_of E)"

text \<open>The nine controllers that \<open>main\<close> registers besides the host's and the extension's.\<close>

datatype controller = AppC | ArchetypeC | FooterC | HeaderC | NavigationC | ScriptLibraryC | ThemeC
  | TranslationC | UtilityPageC

fun reconcile_of :: "env \<Rightarrow> npm \<Rightarrow> controller \<Rightarrow> nsname \<Rightarrow> world \<Rightarrow> reconcile_out \<times> world" where
  "reconcile_of E N AppC = reconcile_app E N"
| "reconcile_of E N ArchetypeC = reconcile_archetype E"
| "reconcile_of E N FooterC = reconcile_footer E"
| "reconcile_of E N HeaderC = reconcile_header E"
| "reconcile_of E N NavigationC = reconcile_navigation E"
| "reconcile_of E N ScriptLibraryC = reconcile_script_library E N"
| "reconcile_of E N ThemeC = reconcile_theme E"
| "reconcile_of E N TranslationC = reconcile_translation E"
| "reconcile_of E N UtilityPageC = reconcile_utility_page E"

section \<open>Steps only read\<close>

text \<open>The frame of a step: it reads, and of its object it changes the status only.\<close>

definition step_frame :: "any_obj \<Rightarrow> world \<Rightarrow> any_obj \<Rightarrow> world \<Rightarrow> bool" where
  "step_frame ob w ob' w' \<longleftrightarrow> o_meta ob' = o_meta ob \<and> o_spec ob' = o_spec ob
     \<and> observed_generation (o_status ob') = observed_generation (o_status ob) \<and> extends is_read w w'"

lemma step_frame_refl [simp]: "step_frame ob w ob w"
  by (simp add: step_frame_def)

lemma step_frame_trans: "step_frame ob w ob1 w1 \<Longrightarrow> step_frame ob1 w1 ob2 w2 \<Longrightarrow> step_frame ob w ob2 w2"
  unfolding step_frame_def by (auto intro: extends_trans)

lemma observed_sel [simp]:
  "observed_generation (o_status (mark E w sts y m ob)) = observed_generation (o_status ob)"
  "observed_generation (o_status (with_conditions cs ob)) = observed_generation (o_status ob)"
  by (simp_all add: mark_def with_conditions_def)

lemma note_generations_sel [simp]:
  "o_meta (note_generations sfx kgs ob) = o_meta ob" "o_spec (note_generations sfx kgs ob) = o_spec ob"
  "conditions (o_status (note_generations sfx kgs ob)) = conditions (o_status ob)"
  "observed_generation (o_status (note_generations sfx kgs ob)) = observed_generation (o_status ob)"
  by (induction sfx kgs ob rule: note_generations.induct) (simp_all add: note_generation_def)

text \<open>
  A world of answers that do not change from call to call, as between two passes over a cluster
  nobody edits.
\<close>

definition steady :: "env \<Rightarrow> bool" where
  "steady E \<longleftrightarrow> (\<exists>f g l. e_get_ref E = (\<lambda>_. f) \<and> e_get_secret E = (\<lambda>_. g) \<and> e_list_archetypes E = (\<lambda>_. l))"

definition steady_npm :: "npm \<Rightarrow> bool" where
  "steady_npm N \<longleftrightarrow> (\<exists>f. npm_factory N = (\<lambda>_. f))"

text \<open>What a step that goes on does to the attributes: some are set, some removed, whatever they were.\<close>

definition overlay :: "(string \<rightharpoonup> string option) \<Rightarrow> (string \<rightharpoonup> string) \<Rightarrow> (string \<rightharpoonup> string)" where
  "overlay B m = (\<lambda>k. case B k of None \<Rightarrow> m k | Some v \<Rightarrow> v)"

lemma overlay_empty [simp]: "overlay Map.empty m = m"
  by (simp add: overlay_def)

lemma overlay_overlay: "overlay C (overlay B m) = overlay (B ++ C) m"
  by (auto simp: overlay_def fun_eq_iff map_add_def split: option.splits)

lemma overlay_twice [simp]: "overlay B (overlay B m) = overlay B m"
  by (auto simp: overlay_def fun_eq_iff split: option.splits)

definition with_overlay :: "(string \<rightharpoonup> string option) \<Rightarrow> any_obj \<Rightarrow> any_obj" where
  "with_overlay B ob = upd_status (\<lambda>s. s\<lparr>attributes := overlay B (attributes s)\<rparr>) ob"

lemma with_overlay_sel [simp]:
  "o_meta (with_overlay B ob) = o_meta ob" "o_spec (with_overlay B ob) = o_spec ob"
  "conditions (o_status (with_overlay B ob)) = conditions (o_status ob)"
  "observed_generation (o_status (with_overlay B ob)) = observed_generation (o_status ob)"
  "attributes (o_status (with_overlay B ob)) = overlay B (attributes (o_status ob))"
  by (simp_all add: with_overlay_def)

lemma with_overlay_empty [simp]: "with_overlay Map.empty ob = ob"
  by (simp add: with_overlay_def upd_status_def)

lemma with_overlay_with_overlay [simp]: "with_overlay C (with_overlay B ob) = with_overlay (B ++ C) ob"
  by (simp add: with_overlay_def upd_status_def overlay_overlay)

lemma note_generation_overlay: "note_generation k g ob = with_overlay [k \<mapsto> Some (itoa g)] ob"
  by (simp add: note_generation_def put_attr_def with_overlay_def upd_status_def set_attr_def overlay_def
      fun_eq_iff fun_upd_def)

lemma note_generations_overlay: "\<exists>B. \<forall>ob. note_generations sfx kgs ob = with_overlay B ob"
proof (induction kgs)
  case Nil
  have "\<forall>ob. note_generations sfx [] ob = with_overlay Map.empty ob" by simp
  then show ?case by blast
next
  case (Cons kg kgs)
  obtain k g where kg: "kg = (k, g)" by (rule prod.exhaust)
  obtain B where B: "\<forall>ob. note_generations sfx kgs ob = with_overlay B ob" using Cons by blast
  have "\<forall>ob. note_generations sfx (kg # kgs) ob = with_overlay ([k @ sfx \<mapsto> Some (itoa g)] ++ B) ob"
    by (simp add: kg B note_generation_overlay)
  then show ?case by blast
qed

lemma del_attr_overlay: "upd_status (del_attr k) ob = with_overlay [k \<mapsto> None] ob"
  by (simp add: with_overlay_def upd_status_def del_attr_def overlay_def fun_eq_iff fun_upd_def)

locale reading_step =
  fixes E :: env and step :: rstep
  assumes frame: "step ob w = (res, ob', w') \<Longrightarrow> step_frame ob w ob' w'"
    and retries: "step ob w = (Some out, ob', w') \<Longrightarrow> snd out \<noteq> None \<or> fst out = requeue (e_requeue_delay E)"
begin

lemma reads_only: "step ob w = (res, ob', w') \<Longrightarrow> extends is_read w w'"
  using frame by (simp add: step_frame_def)

lemma not_done: "0 < e_requeue_delay E \<Longrightarrow> step ob w \<noteq> (Some (no_result, None), ob', w')"
  using retries by (fastforce simp: no_result_def requeue_def)

end

locale settling_step = reading_step +
  fixes calm :: bool
  assumes settle: "calm \<Longrightarrow> step ob w = (None, ob', w')
      \<Longrightarrow> \<exists>B. ob' = with_overlay B ob
        \<and> (\<forall>st v. \<exists>v'. step (ob\<lparr>o_status := st\<rparr>) v = (None, with_overlay B (ob\<lparr>o_status := st\<rparr>), v'))"
begin

lemma goes_on:
  assumes calm "step ob w = (None, ob', w')"
  obtains B where "ob' = with_overlay B ob"
    "\<And>ob2 v. o_meta ob2 = o_meta ob \<Longrightarrow> o_spec ob2 = o_spec ob \<Longrightarrow> \<exists>v'. step ob2 v = (None, with_overlay B ob2, v')"
proof -
  obtain B where B: "ob' = with_overlay B ob"
      "\<And>st v. \<exists>v'. step (ob\<lparr>o_status := st\<rparr>) v = (None, with_overlay B (ob\<lparr>o_status := st\<rparr>), v')"
    using settle [OF assms] by blast
  have "ob2 = ob\<lparr>o_status := o_status ob2\<rparr>" if "o_meta ob2 = o_meta ob" "o_spec ob2 = o_spec ob" for ob2
    using that by (cases ob; cases ob2) simp
  with B that show ?thesis by metis
qed

end

lemma run_steps_frame:
  assumes "\<And>s. s \<in> set ss \<Longrightarrow> reading_step E s" "run_steps ss ob w = (out, ob', w')"
  shows "step_frame ob w ob' w'"
  using assms
proof (induction ss arbitrary: ob w)
  case (Cons s ss)
  obtain o1 ob1 w1 where s: "s ob w = (o1, ob1, w1)" by (rule prod_cases3)
  have f: "step_frame ob w ob1 w1" using Cons.prems(1) s reading_step.frame by fastforce
  show ?case
  proof (cases o1)
    case None
    then have "run_steps ss ob1 w1 = (out, ob', w')" using Cons.prems(2) s by simp
    from Cons.IH [OF _ this] Cons.prems(1) f show ?thesis by (auto intro: step_frame_trans)
  next
    case (Some r)
    then show ?thesis using Cons.prems(2) s f by simp
  qed
qed simp

lemma run_steps_retries:
  assumes "\<And>s. s \<in> set ss \<Longrightarrow> reading_step E s" "run_steps ss ob w = (Some out, ob', w')"
  shows "snd out \<noteq> None \<or> fst out = requeue (e_requeue_delay E)"
  using assms
proof (induction ss arbitrary: ob w)
  case (Cons s ss)
  obtain o1 ob1 w1 where s: "s ob w = (o1, ob1, w1)" by (rule prod_cases3)
  show ?case
  proof (cases o1)
    case None
    then show ?thesis using Cons s by auto
  next
    case (Some r)
    then have "s ob w = (Some out, ob', w')" using Cons.prems(2) s by simp
    moreover have "reading_step E s" using Cons.prems(1) by simp
    ultimately show ?thesis by (rule reading_step.retries [rotated])
  qed
qed simp

lemma run_steps_reading: "(\<And>s. s \<in> set ss \<Longrightarrow> reading_step E s) \<Longrightarrow> reading_step E (run_steps ss)"
  using run_steps_frame run_steps_retries by (intro reading_step.intro) blast+

text \<open>\<open>settles calm E step\<close> is the second law of \<open>settling_step\<close> in the form that composes.\<close>

lemma run_steps_settle:
  assumes "\<And>s. s \<in> set ss \<Longrightarrow> settling_step E s calm" calm "run_steps ss ob w = (None, ob', w')"
  shows "\<exists>B. ob' = with_overlay B ob
    \<and> (\<forall>st v. \<exists>v'. run_steps ss (ob\<lparr>o_status := st\<rparr>) v = (None, with_overlay B (ob\<lparr>o_status := st\<rparr>), v'))"
  using assms
proof (induction ss arbitrary: ob w)
  case Nil
  then show ?case by (intro exI [of _ Map.empty]) simp
next
  case (Cons s ss)
  have S: "settling_step E s calm" using Cons.prems(1) by simp
  obtain o1 ob1 w1 where s: "s ob w = (o1, ob1, w1)" by (rule prod_cases3)
  then have o1: "o1 = None" and rest: "run_steps ss ob1 w1 = (None, ob', w')"
    using Cons.prems(3) by (auto split: option.splits)
  obtain B where B: "ob1 = with_overlay B ob" "\<And>ob2 v. o_meta ob2 = o_meta ob \<Longrightarrow> o_spec ob2 = o_spec ob
      \<Longrightarrow> \<exists>v'. s ob2 v = (None, with_overlay B ob2, v')"
    using settling_step.goes_on [OF S Cons.prems(2) s [unfolded o1]] by blast
  obtain C where C: "ob' = with_overlay C ob1"
      "\<And>st v. \<exists>v'. run_steps ss (ob1\<lparr>o_status := st\<rparr>) v = (None, with_overlay C (ob1\<lparr>o_status := st\<rparr>), v')"
    using Cons.IH [OF _ Cons.prems(2) rest] Cons.prems(1) by auto
  have "\<exists>v'. run_steps (s # ss) (ob\<lparr>o_status := st\<rparr>) v = (None, with_overlay (B ++ C) (ob\<lparr>o_status := st\<rparr>), v')" for st v
  proof -
    let ?o = "ob\<lparr>o_status := st\<rparr>"
    obtain v1 where v1: "s ?o v = (None, with_overlay B ?o, v1)" using B(2) [of ?o v] by auto
    have "with_overlay B ?o = ob1\<lparr>o_status := o_status (with_overlay B ?o)\<rparr>"
      by (simp add: B(1) with_overlay_def upd_status_def)
    then obtain v2 where "run_steps ss (with_overlay B ?o) v1 = (None, with_overlay C (with_overlay B ?o), v2)"
      using C(2) by metis
    then show ?thesis using v1 by simp
  qed
  then show ?case using B(1) C(1) by auto
qed

section \<open>The steps keep the contract\<close>

text \<open>\<open>steady_run f\<close>: where the resolver \<open>f\<close> lets the reconcile go on, it does so from anywhere.\<close>

definition steady_run :: "(condition list \<Rightarrow> world \<Rightarrow> 'a resolution \<times> condition list \<times> world) \<Rightarrow> bool" where
  "steady_run f \<longleftrightarrow> (\<forall>conds w r conds' w'. f conds w = (r, conds', w') \<longrightarrow> \<not> res_return r
     \<longrightarrow> (\<forall>conds2 v. \<exists>v'. f conds2 v = (r, conds2, v')))"

lemma with_conditions_same [simp]: "with_conditions (conditions (o_status ob)) ob = ob"
  by (simp add: with_conditions_def upd_status_def)

lemma resolve_then_settling:
  assumes "\<And>rk ns. resolver (e_requeue_delay E) (resolve rk ns)"
    and "calm \<Longrightarrow> (\<And>rk ns. steady_run (resolve rk ns))"
    and "\<And>v. \<exists>B. \<forall>ob. note_value v ob = with_overlay B ob"
  shows "settling_step E (resolve_then resolve note_value) calm"
proof unfold_locales
  fix ob w out ob' w' assume run: "resolve_then resolve note_value ob w = (out, ob', w')"
  obtain r conds w1 where r: "resolve (type_name (o_spec ob)) (o_namespace ob) (conditions (o_status ob)) w
      = (r, conds, w1)" by (rule prod_cases3)
  obtain B where B: "\<forall>ob. note_value (res_value r) ob = with_overlay B ob" using assms(3) by blast
  have "extends is_read w w1" by (rule resolver.extends_reads [OF assms(1) r])
  then show "step_frame ob w ob' w'"
    using run r B by (auto simp: resolve_then_def step_frame_def Let_def with_conditions_def split: if_splits)
next
  fix ob w out ob' w' assume run: "resolve_then resolve note_value ob w = (Some out, ob', w')"
  obtain r conds w1 where r: "resolve (type_name (o_spec ob)) (o_namespace ob) (conditions (o_status ob)) w
      = (r, conds, w1)" by (rule prod_cases3)
  show "snd out \<noteq> None \<or> fst out = requeue (e_requeue_delay E)"
    using run r resolver.run_honours [OF assms(1) [of "type_name (o_spec ob)" "o_namespace ob"],
        of "conditions (o_status ob)" w]
    by (auto simp: resolve_then_def honours_def Let_def split: if_splits prod.splits)
next
  fix ob w ob' w' assume calm and run: "resolve_then resolve note_value ob w = (None, ob', w')"
  let ?f = "resolve (type_name (o_spec ob)) (o_namespace ob)"
  obtain r conds w1 where r: "?f (conditions (o_status ob)) w = (r, conds, w1)" by (rule prod_cases3)
  obtain B where B: "\<forall>ob. note_value (res_value r) ob = with_overlay B ob" using assms(3) by blast
  have go: "\<not> res_return r" using run r by (auto simp: resolve_then_def Let_def split: if_splits)
  then have conds: "conds = conditions (o_status ob)" using resolver.continues(3) [OF assms(1) r] by simp
  have again: "\<exists>v'. ?f conds2 v = (r, conds2, v')" for conds2 v
    using assms(2) [OF \<open>calm\<close>] r go unfolding steady_run_def by blast
  have "\<exists>v'. resolve_then resolve note_value (ob\<lparr>o_status := st\<rparr>) v = (None, with_overlay B (ob\<lparr>o_status := st\<rparr>), v')"
    for st v
  proof -
    obtain v' where "?f (conditions st) v = (r, conditions st, v')" using again by blast
    moreover have "with_conditions (conditions st) (ob\<lparr>o_status := st\<rparr>) = ob\<lparr>o_status := st\<rparr>"
      by (simp add: with_conditions_def upd_status_def)
    ultimately show ?thesis using go B by (simp add: resolve_then_def)
  qed
  then show "\<exists>B. ob' = with_overlay B ob
      \<and> (\<forall>st v. \<exists>v'. resolve_then resolve note_value (ob\<lparr>o_status := st\<rparr>) v = (None, with_overlay B (ob\<lparr>o_status := st\<rparr>), v'))"
    using run r go B conds by (intro exI [of _ B]) (simp add: resolve_then_def)
qed

text \<open>The resolvers are steady where the environment is.\<close>

lemma steady_get: "steady E \<Longrightarrow> e_get_ref E cs = e_get_ref E cs'"
  and steady_secret: "steady E \<Longrightarrow> e_get_secret E cs = e_get_secret E cs'"
  and steady_archetypes: "steady E \<Longrightarrow> e_list_archetypes E cs = e_list_archetypes E cs'"
  by (auto simp: steady_def)

lemma steady_ref: "steady E \<Longrightarrow> steady_run (resolve_ref E rk ns ref)"
  unfolding steady_run_def
proof (intro allI impI)
  fix conds w r conds' w' conds2 v
  assume s: "steady E" and "resolve_ref E rk ns ref conds w = (r, conds', w')" "\<not> res_return r"
  then show "\<exists>v'. resolve_ref E rk ns ref conds2 v = (r, conds2, v')"
    using steady_get [OF s, of "calls w" "calls v"]
    by (auto simp: resolve_ref_def is_ready_def Let_def split: resolve_splits)
qed

lemma steady_runD:
  "steady_run f \<Longrightarrow> f conds w = (r, conds', w') \<Longrightarrow> \<not> res_return r \<Longrightarrow> \<exists>v'. f conds2 v = (r, conds2, v')"
  unfolding steady_run_def by blast

lemma steady_contents:
  assumes "steady E" shows "steady_run (resolve_contents E rk ns entries)"
proof -
  have "\<exists>v'. resolve_contents_from E rk ns es acc conds2 v = (r, conds2, v')"
    if "resolve_contents_from E rk ns es acc conds w = (r, conds', w')" "\<not> res_return r" for es acc conds w r conds' w' conds2 v
    using that
  proof (induction es arbitrary: acc conds w v)
    case (Cons e es)
    obtain r1 conds1 w1 where one: "resolve_ref E rk ns (ce_app_ref e) conds w = (r1, conds1, w1)" by (rule prod_cases3)
    show ?case
    proof (cases "ce_raw_html e = []")
      case False
      then show ?thesis using Cons by simp
    next
      case True
      have go: "\<not> res_return r1" using Cons.prems one True by auto
      obtain v1 where "resolve_ref E rk ns (ce_app_ref e) conds2 v = (r1, conds2, v1)"
        using steady_runD [OF steady_ref [OF assms] one go] by blast
      then show ?thesis using Cons one True go by (auto simp: Let_def split: option.splits)
    qed
  qed simp
  then show ?thesis by (simp add: steady_run_def resolve_contents_def)
qed

lemma steady_navigations:
  assumes "steady E" shows "steady_run (resolve_page_navigations E rk ns refs)"
proof -
  have "\<exists>v'. resolve_navigations_from E rk ns ns_refs acc conds2 v = (r, conds2, v')"
    if "resolve_navigations_from E rk ns ns_refs acc conds w = (r, conds', w')" "\<not> res_return r"
    for ns_refs acc conds w r conds' w' conds2 v
    using that
  proof (induction ns_refs arbitrary: acc conds w v)
    case (Cons nr ns_refs)
    obtain name ref where nr: "nr = (name, ref)" by (rule prod.exhaust)
    obtain r1 conds1 w1 where one: "resolve_ref E rk ns ref conds w = (r1, conds1, w1)" by (rule prod_cases3)
    have go: "\<not> res_return r1" using Cons.prems one nr by auto
    obtain v1 where "resolve_ref E rk ns ref conds2 v = (r1, conds2, v1)"
      using steady_runD [OF steady_ref [OF assms] one go] by blast
    then show ?case using Cons one nr go by (simp add: Let_def)
  qed simp
  then show ?thesis by (simp add: steady_run_def resolve_page_navigations_def)
qed

lemma steady_archetype:
  assumes "steady E" shows "steady_run (resolve_or_default_archetype E rk ns ref)"
  unfolding steady_run_def
proof (intro allI impI)
  fix conds w r conds' w' conds2 v
  assume a: "resolve_or_default_archetype E rk ns ref conds w = (r, conds', w')" "\<not> res_return r"
  obtain r1 conds1 w1 where one: "resolve_ref E rk ns ref conds w = (r1, conds1, w1)" by (rule prod_cases3)
  have go: "\<not> res_return r1" using a one by (auto simp: resolve_or_default_archetype_def)
  obtain v1 where "resolve_ref E rk ns ref conds2 v = (r1, conds2, v1)"
    using steady_runD [OF steady_ref [OF assms] one go] by blast
  then show "\<exists>v'. resolve_or_default_archetype E rk ns ref conds2 v = (r, conds2, v')"
    using a one go steady_archetypes [OF assms, of "calls w1" "calls v1"]
    by (auto simp: resolve_or_default_archetype_def Let_def split: option.splits sum.splits)
qed

lemma steady_secrets:
  assumes "steady E" shows "steady_run (resolve_secret E ns ref)"
  unfolding steady_run_def
proof (intro allI impI)
  fix conds w r conds' w' conds2 v
  assume "resolve_secret E ns ref conds w = (r, conds', w')" "\<not> res_return r"
  then show "\<exists>v'. resolve_secret E ns ref conds2 v = (r, conds2, v')"
    using steady_secret [OF assms, of "calls w" "calls v"]
    by (auto simp: resolve_secret_def Let_def split: resolve_splits)
qed

lemma note_object_overlay: "\<exists>B. \<forall>ob. note_object key v ob = with_overlay B ob"
proof (cases v)
  case None
  then show ?thesis by (intro exI [of _ Map.empty]) (simp add: note_object_def)
qed (auto simp: note_object_def note_generation_overlay)

interpretation ref_attr: settling_step E "ref_attr E ref key" "steady E" for E ref key
  unfolding ref_attr_def
  by (rule resolve_then_settling) (simp_all add: ref.resolver_axioms steady_ref note_object_overlay)

interpretation navigations_attr: settling_step E "navigations_attr E refs" "steady E" for E refs
  unfolding navigations_attr_def note_navigations_def [abs_def]
  by (rule resolve_then_settling) (simp_all add: navs.resolver_axioms steady_navigations note_generations_overlay)

interpretation contents_attr: settling_step E "contents_attr E entries" "steady E" for E entries
  unfolding contents_attr_def note_contents_def [abs_def]
  by (rule resolve_then_settling) (simp_all add: contents.resolver_axioms steady_contents note_generations_overlay)

lemma resolved_secret_frame:
  assumes "resolve_secret E ns ref conds w = (r, conds', w')"
  shows "extends is_read w w'"
    and "res_return r \<Longrightarrow> res_err r \<noteq> None \<or> res_result r = requeue (e_requeue_delay E)"
    and "\<not> res_return r \<Longrightarrow> conds' = conds"
  using secret_res.run_honours [where E = E and ns = ns and sref = ref and conds = conds and w = w] assms by (auto simp: honours_def split: if_splits)

interpretation package: settling_step E "package_step E N p" "steady E \<and> steady_npm N" for E N p
proof unfold_locales
  fix ob w out ob' w' assume run: "package_step E N p ob w = (out, ob', w')"
  let ?ref = "case (case pkg_secret_ref p of None \<Rightarrow> npm_default_secret N | Some r \<Rightarrow> Some r) of
      None \<Rightarrow> NilRef | Some x \<Rightarrow> ObjectRef x"
  obtain r conds w1 where r: "resolve_secret E (o_namespace ob) ?ref (conditions (o_status ob)) w = (r, conds, w1)"
    by (rule prod_cases3)
  note e = resolved_secret_frame(1) [OF r]
  show "step_frame ob w ob' w'"
    using run r e by (auto simp: package_step_def step_frame_def note_generation_def
        Let_def split: if_splits option.splits)
next
  fix ob w out ob' w' assume run: "package_step E N p ob w = (Some out, ob', w')"
  let ?ref = "case (case pkg_secret_ref p of None \<Rightarrow> npm_default_secret N | Some r \<Rightarrow> Some r) of
      None \<Rightarrow> NilRef | Some x \<Rightarrow> ObjectRef x"
  obtain r conds w1 where r: "resolve_secret E (o_namespace ob) ?ref (conditions (o_status ob)) w = (r, conds, w1)"
    by (rule prod_cases3)
  show "snd out \<noteq> None \<or> fst out = requeue (e_requeue_delay E)"
    using run r resolved_secret_frame(2) [OF r]
    by (cases "res_return r") (auto simp: package_step_def Let_def split: if_splits option.splits)
next
  fix ob w ob' w' assume calm: "steady E \<and> steady_npm N" and run: "package_step E N p ob w = (None, ob', w')"
  let ?ref = "case (case pkg_secret_ref p of None \<Rightarrow> npm_default_secret N | Some r \<Rightarrow> Some r) of
      None \<Rightarrow> NilRef | Some x \<Rightarrow> ObjectRef x"
  obtain r conds w1 where r: "resolve_secret E (o_namespace ob) ?ref (conditions (o_status ob)) w = (r, conds, w1)"
    by (rule prod_cases3)
  have go: "\<not> res_return r" and ok: "validate_package_reference N p (res_value r) w1 = None"
    using run r by (auto simp: package_step_def Let_def split: if_splits option.splits)
  let ?note = "\<lambda>ob :: any_obj. case res_value r of None \<Rightarrow> ob
      | Some s \<Rightarrow> note_generation ''secret.generation'' (o_generation s) ob"
  obtain B where B: "\<And>ob. ?note ob = with_overlay B ob"
  proof (cases "res_value r")
    case None
    then show ?thesis using that [of Map.empty] by simp
  qed (use that in \<open>simp add: note_generation_overlay\<close>)
  have valid: "validate_package_reference N p (res_value r) v = None" for v
    using ok calm by (auto simp: validate_package_reference_def steady_npm_def Let_def)
  let ?C = "B ++ [attempts_attr \<mapsto> None]"
  have "\<exists>v'. package_step E N p (ob\<lparr>o_status := st\<rparr>) v = (None, with_overlay ?C (ob\<lparr>o_status := st\<rparr>), v')" for st v
  proof -
    obtain v' where "resolve_secret E (o_namespace ob) ?ref (conditions st) v = (r, conditions st, v')"
      using steady_runD [OF steady_secrets r go] calm by blast
    moreover have "with_conditions (conditions st) (ob\<lparr>o_status := st\<rparr>) = ob\<lparr>o_status := st\<rparr>"
      by (simp add: with_conditions_def upd_status_def)
    ultimately show ?thesis using go valid by (simp add: package_step_def B Let_def del_attr_overlay)
  qed
  moreover have "ob' = with_overlay ?C ob"
    using run r go ok resolved_secret_frame(3) [OF r go]
    by (simp add: package_step_def B Let_def del_attr_overlay)
  ultimately show "\<exists>B. ob' = with_overlay B ob
      \<and> (\<forall>st v. \<exists>v'. package_step E N p (ob\<lparr>o_status := st\<rparr>) v = (None, with_overlay B (ob\<lparr>o_status := st\<rparr>), v'))"
    by blast
qed

section \<open>The bodies settle\<close>

text \<open>
  A body that ends without error and without delay has reached \<open>finish\<close>; from any status it
  would end the same way with the same attributes set and removed.
\<close>

definition finished :: "env \<Rightarrow> world \<Rightarrow> any_obj \<Rightarrow> any_obj" where
  "finished E w ob = mark E w ready_set ReconcileSuccess ''Reconciliation successful'' ob"

locale settling_body =
  fixes E :: env and body :: rstep and calm :: bool
  assumes body_frame: "body ob w = (res, ob', w') \<Longrightarrow> step_frame ob w ob' w'"
    and body_settles: "calm \<Longrightarrow> 0 < e_requeue_delay E \<Longrightarrow> body ob w = (Some (no_result, None), ob', w')
      \<Longrightarrow> \<exists>B v0. ob' = finished E v0 (with_overlay B ob)
        \<and> (\<forall>st v. \<exists>v'. body (ob\<lparr>o_status := st\<rparr>) v
              = (Some (no_result, None), finished E v' (with_overlay B (ob\<lparr>o_status := st\<rparr>)), v'))"

lemma finish_reads: "finish E ob w = (res, ob', w') \<Longrightarrow> step_frame ob w ob' w'"
  by (auto simp: finish_def step_frame_def mark_def with_conditions_def)

lemma run_steps_append:
  "run_steps (xs @ ys) ob w = (case run_steps xs ob w of
     (Some out, ob1, w1) \<Rightarrow> (Some out, ob1, w1) | (None, ob1, w1) \<Rightarrow> run_steps ys ob1 w1)"
  by (induction xs ob w rule: run_steps.induct) (auto split: prod.splits option.splits)

lemma steps_then_finish:
  assumes "\<And>s. s \<in> set ss \<Longrightarrow> settling_step E s calm"
  shows "settling_body E (run_steps (ss @ [finish E])) calm"
proof unfold_locales
  have read: "s \<in> set ss \<Longrightarrow> reading_step E s" for s using assms settling_step.axioms(1) by blast
  fix ob w res ob' w' assume run: "run_steps (ss @ [finish E]) ob w = (res, ob', w')"
  obtain o1 ob1 w1 where one: "run_steps ss ob w = (o1, ob1, w1)" by (rule prod_cases3)
  note f = run_steps_frame [OF read one]
  show "step_frame ob w ob' w'"
  proof (cases o1)
    case None
    then have "finish E ob1 w1 = (res, ob', w')" using run one by (auto simp: run_steps_append finish_def)
    from step_frame_trans [OF f finish_reads [OF this]] show ?thesis .
  next
    case (Some r)
    then show ?thesis using run one f by (simp add: run_steps_append)
  qed
next
  have read: "s \<in> set ss \<Longrightarrow> reading_step E s" for s using assms settling_step.axioms(1) by blast
  fix ob w ob' w' assume c: calm "0 < e_requeue_delay E"
    and run: "run_steps (ss @ [finish E]) ob w = (Some (no_result, None), ob', w')"
  obtain o1 ob1 w1 where one: "run_steps ss ob w = (o1, ob1, w1)" by (rule prod_cases3)
  have o1: "o1 = None"
  proof (rule ccontr)
    assume "o1 \<noteq> None"
    then have "run_steps ss ob w = (Some (no_result, None), ob', w')" using run one by (auto simp: run_steps_append)
    from run_steps_retries [OF read this] c(2) show False by (simp add: no_result_def requeue_def)
  qed
  obtain B where B: "ob1 = with_overlay B ob"
      "\<And>st v. \<exists>v'. run_steps ss (ob\<lparr>o_status := st\<rparr>) v = (None, with_overlay B (ob\<lparr>o_status := st\<rparr>), v')"
    using run_steps_settle [OF assms c(1) one [unfolded o1]] by blast
  have "\<exists>v'. run_steps (ss @ [finish E]) (ob\<lparr>o_status := st\<rparr>) v
      = (Some (no_result, None), finished E v' (with_overlay B (ob\<lparr>o_status := st\<rparr>)), v')" for st v
    using B(2) [of st v] by (auto simp: run_steps_append finish_def finished_def)
  moreover have "ob' = finished E w1 (with_overlay B ob)"
    using run one o1 B(1) by (auto simp: run_steps_append finish_def finished_def)
  ultimately show "\<exists>B v0. ob' = finished E v0 (with_overlay B ob)
      \<and> (\<forall>st v. \<exists>v'. run_steps (ss @ [finish E]) (ob\<lparr>o_status := st\<rparr>) v
            = (Some (no_result, None), finished E v' (with_overlay B (ob\<lparr>o_status := st\<rparr>)), v'))"
    by blast
qed

lemmas settling_steps = ref_attr.settling_step_axioms navigations_attr.settling_step_axioms
  contents_attr.settling_step_axioms package.settling_step_axioms

lemma settling_run:
  assumes "ss = ts @ [finish E]" "\<forall>s \<in> set ts. settling_step E s calm"
  shows "settling_body E (run_steps ss) calm"
  using steps_then_finish assms by blast

text \<open>The interpretations: one per reconciler.\<close>

interpretation app: settling_body E "app_body E N s" "steady E \<and> steady_npm N" for E N s
  unfolding app_body_def
  by (rule settling_run [where ts = "[package_step E N (app_package s)]"])
    (simp_all add: package.settling_step_axioms)

interpretation script_library: settling_body E "script_library_body E N s" "steady E \<and> steady_npm N" for E N s
  unfolding script_library_body_def
  by (rule settling_run [OF refl]) (auto simp: package.settling_step_axioms split: option.splits)

interpretation page_part: settling_body E "page_part_body E s" "steady E" for E s
  unfolding page_part_body_def
  by (rule settling_run [where ts = "[ref_attr E (part_script_library s) ''scriptLibrary.generation'']"])
    (simp_all add: ref_attr.settling_step_axioms)

interpretation theme: settling_body E "theme_body E s" "steady E" for E s
  unfolding theme_body_def
  by (rule settling_run [where ts = "[ref_attr E (th_script_library s) ''scriptLibrary.generation'']"])
    (simp_all add: ref_attr.settling_step_axioms)

interpretation archetype_run: settling_body E "archetype_body E s" "steady E" for E s
  unfolding archetype_body_def
  by (rule settling_run [where ts = "[ref_attr E (ar_footer s) ''footer.generation'',
      ref_attr E (ar_header s) ''header.generation'', navigations_attr E (ar_navigations s),
      ref_attr E (ar_script_library s) ''scriptLibrary.generation'']"])
    (simp_all add: ref_attr.settling_step_axioms navigations_attr.settling_step_axioms)

interpretation translation: settling_body E "translation_body E" "steady E" for E
  unfolding translation_body_def by (rule settling_run [where ts = "[]"]) simp_all

interpretation page_rest: settling_body E "utility_page_rest E s arch" "steady E" for E s arch
  unfolding utility_page_rest_def
  by (rule settling_run [where ts = "[contents_attr E (up_contents s),
      ref_attr E (up_header s) ''header.generation'', ref_attr E (up_footer s) ''footer.generation'',
      navigations_attr E (override_navigations (archetype_navigations arch) (up_navigations s)),
      ref_attr E (up_script_library s) ''scriptLibrary.generation'']"])
    (simp_all add: ref_attr.settling_step_axioms navigations_attr.settling_step_axioms
      contents_attr.settling_step_axioms)

lemma archetype_contract:
  assumes "resolve_or_default_archetype E rk ns ref conds w = (r, conds', w')"
  shows "extends is_read w w'" "res_return r \<Longrightarrow> res_err r \<noteq> None \<or> res_result r = requeue (e_requeue_delay E)"
    "\<not> res_return r \<Longrightarrow> conds' = conds"
  using resolve_or_default_archetype_honours [of E conds w rk ns ref] assms
  by (auto simp: honours_def split: if_splits)

interpretation utility_page: settling_body E "utility_page_body E s" "steady E" for E s
proof unfold_locales
  fix ob w res ob' w' assume run: "utility_page_body E s ob w = (res, ob', w')"
  obtain r conds w1 where r: "resolve_or_default_archetype E (type_name (o_spec ob)) (o_namespace ob)
      (up_archetype s) (conditions (o_status ob)) w = (r, conds, w1)" by (rule prod_cases3)
  obtain B where B: "\<forall>ob. note_object ''archetype.generation'' (res_value r) ob = with_overlay B ob"
    using note_object_overlay by blast
  let ?ob1 = "with_overlay B (with_conditions conds ob)"
  have f: "step_frame ob w (with_conditions conds ob) w1" "step_frame ob w ?ob1 w1"
    using archetype_contract(1) [OF r] by (simp_all add: step_frame_def)
  show "step_frame ob w ob' w'"
  proof (cases "res_return r")
    case True
    then show ?thesis using run r f by (simp add: utility_page_body_def)
  next
    case False
    then have "utility_page_rest E s (res_value r) ?ob1 w1 = (res, ob', w')"
      using run r B by (simp add: utility_page_body_def)
    from step_frame_trans [OF f(2) page_rest.body_frame [OF this]] show ?thesis .
  qed
next
  fix ob w ob' w' assume c: "steady E" "0 < e_requeue_delay E"
    and run: "utility_page_body E s ob w = (Some (no_result, None), ob', w')"
  obtain r conds w1 where r: "resolve_or_default_archetype E (type_name (o_spec ob)) (o_namespace ob)
      (up_archetype s) (conditions (o_status ob)) w = (r, conds, w1)" by (rule prod_cases3)
  obtain B where B: "\<forall>ob. note_object ''archetype.generation'' (res_value r) ob = with_overlay B ob"
    using note_object_overlay by blast
  have go: "\<not> res_return r"
    using run r c(2) archetype_contract(2) [OF r] by (auto simp: utility_page_body_def no_result_def requeue_def)
  then have same: "conds = conditions (o_status ob)" using archetype_contract(3) [OF r] by simp
  let ?ob1 = "with_overlay B ob"
  have "utility_page_rest E s (res_value r) ?ob1 w1 = (Some (no_result, None), ob', w')"
    using run r B go same by (simp add: utility_page_body_def)
  from page_rest.body_settles [OF c this] obtain C v0 where C: "ob' = finished E v0 (with_overlay C ?ob1)"
    and again: "\<And>st v. \<exists>v'. utility_page_rest E s (res_value r) (?ob1\<lparr>o_status := st\<rparr>) v
        = (Some (no_result, None), finished E v' (with_overlay C (?ob1\<lparr>o_status := st\<rparr>)), v')" by blast
  have "\<exists>v'. utility_page_body E s (ob\<lparr>o_status := st\<rparr>) v
      = (Some (no_result, None), finished E v' (with_overlay (B ++ C) (ob\<lparr>o_status := st\<rparr>)), v')" for st v
  proof -
    let ?o = "ob\<lparr>o_status := st\<rparr>"
    obtain v1 where v1: "resolve_or_default_archetype E (type_name (o_spec ob)) (o_namespace ob)
        (up_archetype s) (conditions st) v = (r, conditions st, v1)"
      using steady_runD [OF steady_archetype [OF c(1)] r go] by blast
    have "with_overlay B ?o = ?ob1\<lparr>o_status := o_status (with_overlay B ?o)\<rparr>"
      by (simp add: with_overlay_def upd_status_def)
    then obtain v2 where "utility_page_rest E s (res_value r) (with_overlay B ?o) v1
        = (Some (no_result, None), finished E v2 (with_overlay C (with_overlay B ?o)), v2)"
      using again by metis
    moreover have "utility_page_body E s ?o v = utility_page_rest E s (res_value r) (with_overlay B ?o) v1"
      using v1 go B by (simp add: utility_page_body_def with_conditions_def upd_status_def)
    ultimately show ?thesis by auto
  qed
  then show "\<exists>B v0. ob' = finished E v0 (with_overlay B ob)
      \<and> (\<forall>st v. \<exists>v'. utility_page_body E s (ob\<lparr>o_status := st\<rparr>) v
            = (Some (no_result, None), finished E v' (with_overlay B (ob\<lparr>o_status := st\<rparr>)), v'))"
    using C by auto
qed

section \<open>All the controllers\<close>

fun body_of :: "env \<Rightarrow> npm \<Rightarrow> controller \<Rightarrow> kdex_spec \<Rightarrow> rstep" where
  "body_of E N AppC = app_body_of E N"
| "body_of E N ArchetypeC = archetype_body_of E"
| "body_of E N FooterC = footer_body_of E"
| "body_of E N HeaderC = header_body_of E"
| "body_of E N NavigationC = navigation_body_of E"
| "body_of E N ScriptLibraryC = script_library_body_of E N"
| "body_of E N ThemeC = theme_body_of E"
| "body_of E N TranslationC = translation_body_of E"
| "body_of E N UtilityPageC = utility_page_body_of E"

fun kinds_of :: "controller \<Rightarrow> string \<times> string" where
  "kinds_of AppC = (''KDexApp'', ''KDexClusterApp'')"
| "kinds_of ArchetypeC = (''KDexPageArchetype'', ''KDexClusterPageArchetype'')"
| "kinds_of FooterC = (''KDexPageFooter'', ''KDexClusterPageFooter'')"
| "kinds_of HeaderC = (''KDexPageHeader'', ''KDexClusterPageHeader'')"
| "kinds_of NavigationC = (''KDexPageNavigation'', ''KDexClusterPageNavigation'')"
| "kinds_of ScriptLibraryC = (''KDexScriptLibrary'', ''KDexClusterScriptLibrary'')"
| "kinds_of ThemeC = (''KDexTheme'', ''KDexClusterTheme'')"
| "kinds_of TranslationC = (''KDexTranslation'', ''KDexClusterTranslation'')"
| "kinds_of UtilityPageC = (''KDexUtilityPage'', ''KDexClusterUtilityPage'')"

definition read_kind :: "controller \<Rightarrow> nsname \<Rightarrow> string" where
  "read_kind c req = (if fst req = [] then snd (kinds_of c) else fst (kinds_of c))"

lemmas reconcile_defs = reconcile_app_def reconcile_archetype_def reconcile_footer_def reconcile_header_def
  reconcile_navigation_def reconcile_script_library_def reconcile_theme_def reconcile_translation_def
  reconcile_utility_page_def

lemma reconcile_of_scoped:
  "reconcile_of E N c = reconcile_scoped E (fst (kinds_of c)) (snd (kinds_of c)) (body_of E N c)"
  by (cases c) (simp_all add: reconcile_defs)

lemma calmer: "settling_body E body c \<Longrightarrow> (d \<Longrightarrow> c) \<Longrightarrow> settling_body E body d"
  unfolding settling_body_def by blast

lemma idle_body: "settling_body E (run_steps []) c"
  by unfold_locales auto

lemmas settling_bodies = app.settling_body_axioms script_library.settling_body_axioms
  calmer [OF page_part.settling_body_axioms conjunct1] calmer [OF theme.settling_body_axioms conjunct1]
  calmer [OF archetype_run.settling_body_axioms conjunct1] calmer [OF translation.settling_body_axioms conjunct1]
  calmer [OF utility_page.settling_body_axioms conjunct1] idle_body

interpretation all: settling_body E "body_of E N c spec" "steady E \<and> steady_npm N" for E N c spec
  by (cases c; cases spec) (simp_all add: settling_bodies del: run_steps.simps)

lemma reconcile_of_run:
  assumes "e_get_ref E (calls w) (read_kind c req) req = Inr ob"
    and "body_of E N c (o_spec ob) ob (log_call (Get (read_kind c req) req) w) = (res, ob1, w1)"
  shows "reconcile_of E N c req w = deferred_update E (o_status ob) ob1
     (case res of None \<Rightarrow> (no_result, None) | Some r \<Rightarrow> r) w1"
  using assms by (simp add: reconcile_of_scoped reconcile_scoped_def read_kind_def Let_def split: if_splits)

section \<open>Properties\<close>

text \<open>
  C23. A reconciler of a referenced kind changes nothing but the status of its own object, and that at
  most once per pass and last: every other call it makes is a read. The status it writes records the
  generation it read and differs from the one it read in more than transition times.
\<close>
theorem reconciler_writes_own_status:
  assumes "reconcile_of E N c req w = (out, w')"
  shows "extends is_read w w' \<or>
    (\<exists>ob ob' v. e_get_ref E (calls w) (read_kind c req) req = Inr ob \<and> extends is_read w v
       \<and> w' = log_call (UpdateStatus ob') v \<and> o_meta ob' = o_meta ob \<and> o_spec ob' = o_spec ob
       \<and> observed_generation (o_status ob') = o_generation ob
       \<and> \<not> status_equal (o_status ob) (o_status ob'))"
proof (cases "e_get_ref E (calls w) (read_kind c req) req")
  case (Inl err)
  then show ?thesis using assms
    by (auto simp: reconcile_of_scoped reconcile_scoped_def read_kind_def Let_def split: if_splits)
next
  case (Inr ob)
  let ?w0 = "log_call (Get (read_kind c req) req) w"
  obtain res ob1 w1 where b: "body_of E N c (o_spec ob) ob ?w0 = (res, ob1, w1)" by (rule prod_cases3)
  note f = all.body_frame [OF b, unfolded step_frame_def]
  have "extends is_read w ?w0" by simp
  then have e: "extends is_read w w1" using f extends_trans by blast
  let ?ob2 = "upd_status (\<lambda>s. s\<lparr>observed_generation := o_generation ob1\<rparr>) ob1"
  have "w' = w1 \<or> w' = log_call (UpdateStatus ?ob2) w1 \<and> \<not> status_equal (o_status ob) (o_status ?ob2)"
    using assms by (auto simp: reconcile_of_run [OF Inr b] deferred_update_def Let_def split: if_splits option.splits)
  moreover have "o_meta ?ob2 = o_meta ob" "o_spec ?ob2 = o_spec ob"
    "observed_generation (o_status ?ob2) = o_generation ob" using f by simp_all
  ultimately show ?thesis using Inr e by metis
qed

theorem reconciler_writes_own_status_witness:
  "let w' = snd (reconcile_of sample_env \<lparr>npm_default_registry = [], npm_default_secret = None,
       npm_factory = \<lambda>_ _ _. Inr (\<lambda>_ _. None)\<rparr> ThemeC (''ns'', ''t'') start_world)
   in extends is_read start_world w'"
proof -
  let ?N = "\<lparr>npm_default_registry = [], npm_default_secret = None, npm_factory = \<lambda>_ _ _. Inr (\<lambda>_ _. None)\<rparr>"
  obtain out w' where run: "reconcile_of sample_env ?N ThemeC (''ns'', ''t'') start_world = (out, w')"
    by (metis surj_pair)
  from reconciler_writes_own_status [OF run] have "extends is_read start_world w'" by simp
  then show ?thesis using run by simp
qed

text \<open>
  The documented behaviour of \<open>SetConditions\<close>: setting the same statuses, reason and message a second
  time changes nothing.
\<close>

definition conditions_settle :: "env \<Rightarrow> bool" where
  "conditions_settle E \<longleftrightarrow> (\<forall>cs cs' s y m old.
     normalize_conditions (e_set_conditions E cs' s y m (e_set_conditions E cs s y m old))
       = normalize_conditions (e_set_conditions E cs s y m old))"

text \<open>A pass over an object that carries the status of a pass that ended well.\<close>

lemma settled_pass:
  assumes "steady E" "steady_npm N" "conditions_settle E" "0 < e_requeue_delay E"
    and first: "body_of E N c (o_spec ob) (ob\<lparr>o_status := st\<rparr>) v = (Some (no_result, None), ob1, v')"
    and stored: "o_status ob = (o_status ob1)\<lparr>observed_generation := o_generation ob\<rparr>"
  shows "\<exists>ob2 u'. body_of E N c (o_spec ob) ob u = (Some (no_result, None), ob2, u')
    \<and> o_meta ob2 = o_meta ob
    \<and> status_equal (o_status ob) ((o_status ob2)\<lparr>observed_generation := o_generation ob2\<rparr>)"
proof -
  obtain B v0 where B: "ob1 = finished E v0 (with_overlay B (ob\<lparr>o_status := st\<rparr>))"
    and again: "\<And>st2 u. \<exists>u'. body_of E N c (o_spec ob) (ob\<lparr>o_status := st2\<rparr>) u
      = (Some (no_result, None), finished E u' (with_overlay B (ob\<lparr>o_status := st2\<rparr>)), u')"
    using all.body_settles [OF conjI [OF assms(1,2)] assms(4) first] by auto
  have "ob\<lparr>o_status := o_status ob\<rparr> = ob" by simp
  then obtain w1 where b: "body_of E N c (o_spec ob) ob u
      = (Some (no_result, None), finished E w1 (with_overlay B ob), w1)" using again by metis
  let ?ob2 = "finished E w1 (with_overlay B ob)"
  have attrs: "attributes (o_status ob) = overlay B (attributes st)"
    using stored B by (simp add: finished_def)
  have conds: "conditions (o_status ob) = e_set_conditions E (calls v0) ready_set ReconcileSuccess
      ''Reconciliation successful'' (conditions st)"
    using stored B by (simp add: finished_def)
  have fix_attrs: "overlay B (attributes (o_status ob)) = attributes (o_status ob)" by (simp add: attrs)
  have fix_conds: "normalize_conditions (e_set_conditions E (calls w1) ready_set ReconcileSuccess
      ''Reconciliation successful'' (conditions (o_status ob))) = normalize_conditions (conditions (o_status ob))"
    using assms(3) by (simp add: conds conditions_settle_def)
  have fix_gen: "observed_generation (o_status ob) = o_generation ob" using stored by simp
  have "status_equal (o_status ob) ((o_status ?ob2)\<lparr>observed_generation := o_generation ?ob2\<rparr>)"
    using fix_attrs fix_conds fix_gen by (simp add: status_equal_def finished_def)
  then show ?thesis using b by (auto simp: finished_def)
qed

text \<open>
  C24. A settled object is not rewritten. Let a pass over an object in a cluster whose answers do not
  change have ended Ready, without error or delay, whatever the status it started from, and let the
  object now carry the status of that pass. Then the next pass, of any of the nine reconcilers, only
  reads: no status is written, so nothing re-triggers it.
\<close>
theorem settled_object_not_rewritten:
  assumes "steady E" "steady_npm N" "conditions_settle E" "0 < e_requeue_delay E"
    and first: "body_of E N c (o_spec ob) (ob\<lparr>o_status := st\<rparr>) v = (Some (no_result, None), ob1, v')"
    and stored: "o_status ob = (o_status ob1)\<lparr>observed_generation := o_generation ob\<rparr>"
    and read: "e_get_ref E (calls w) (read_kind c req) req = Inr ob"
  shows "\<exists>w'. reconcile_of E N c req w = ((no_result, None), w') \<and> extends is_read w w'"
proof -
  let ?w0 = "log_call (Get (read_kind c req) req) w"
  obtain ob2 w1 where b: "body_of E N c (o_spec ob) ob ?w0 = (Some (no_result, None), ob2, w1)"
    and same: "status_equal (o_status ob) ((o_status ob2)\<lparr>observed_generation := o_generation ob2\<rparr>)"
    using settled_pass [OF assms(1-4) first stored] by blast
  have "extends is_read w ?w0" "extends is_read ?w0 w1"
    using all.body_frame [OF b] by (simp_all add: step_frame_def)
  then have e: "extends is_read w w1" by (rule extends_trans)
  have "deferred_update E (o_status ob) ob2 (no_result, None) w1 = ((no_result, None), w1)"
    using same by (simp add: deferred_update_def)
  then show ?thesis using e by (simp add: reconcile_of_run [OF read b])
qed

definition sample_theme :: "obj_status \<Rightarrow> any_obj" where
  "sample_theme st = (sample_obj ''ns'' ''t'' (KDexTheme sample_theme_spec))\<lparr>o_status := st\<rparr>"

theorem settled_object_not_rewritten_witness:
  "\<exists>w'. reconcile_of (sample_env\<lparr>e_get_ref := (\<lambda>_ _ _. Inr (sample_theme (ready_status\<lparr>observed_generation := 1\<rparr>)))\<rparr>)
       \<lparr>npm_default_registry = [], npm_default_secret = None, npm_factory = \<lambda>_ _ _. Inr (\<lambda>_ _. None)\<rparr>
       ThemeC (''ns'', ''t'') start_world = ((no_result, None), w') \<and> extends is_read start_world w'"
proof (rule settled_object_not_rewritten)
  let ?E = "sample_env\<lparr>e_get_ref := (\<lambda>_ _ _. Inr (sample_theme (ready_status\<lparr>observed_generation := 1\<rparr>)))\<rparr>"
  let ?N = "\<lparr>npm_default_registry = [], npm_default_secret = None, npm_factory = \<lambda>_ _ _. Inr (\<lambda>_ _. None)\<rparr>"
  let ?ob = "sample_theme (ready_status\<lparr>observed_generation := 1\<rparr>)"
  show "steady ?E" "steady_npm ?N" by (auto simp: steady_def steady_npm_def)
  show "conditions_settle ?E"
    by (auto simp: conditions_settle_def sample_set_conditions_def sample_condition_def)
  show "0 < e_requeue_delay ?E" by simp
  show "e_get_ref ?E (calls start_world) (read_kind ThemeC (''ns'', ''t'')) (''ns'', ''t'') = Inr ?ob" by simp
  let ?ob1 = "finished ?E start_world (?ob\<lparr>o_status := empty_status\<rparr>)"
  show "body_of ?E ?N ThemeC (o_spec ?ob) (?ob\<lparr>o_status := empty_status\<rparr>) start_world
      = (Some (no_result, None), ?ob1, start_world)"
    by (simp add: sample_theme_def sample_obj_def theme_body_def sample_theme_spec_def ref_attr_def
        resolve_then_def resolve_ref_def note_object_def finish_def finished_def with_conditions_def upd_status_def)
  show "o_status ?ob = (o_status ?ob1)\<lparr>observed_generation := o_generation ?ob\<rparr>"
    by (simp add: sample_set_conditions_def sample_theme_def sample_obj_def sample_meta_def finished_def ready_status_def empty_status_def
        mark_def with_conditions_def upd_status_def)
qed

lemma wrap_int64_neq: "in_int64 n \<Longrightarrow> wrap_int64 (n + 1) \<noteq> n"
proof (cases "n = max_int64")
  case False
  moreover assume "in_int64 n"
  ultimately have "in_int64 (n + 1)" by (simp add: in_int64_def)
  then show ?thesis by (simp add: wrap_int64_id)
qed (simp add: wrap_int64_def max_int64_def)

lemma attempts_itoa: "attributes st attempts_attr = Some (itoa n) \<Longrightarrow> in_int64 n \<Longrightarrow> attempts_of st = n"
  by (simp add: attempts_of_def get_attr_def atoi_itoa)

definition bad_npm :: npm where
  "bad_npm = \<lparr>npm_default_registry = [], npm_default_secret = None,
     npm_factory = \<lambda>_ _ _. Inr (\<lambda>_ _. Some (plain_error ''no such package''))\<rparr>"

text \<open>Consecutive passes of a step over the same object.\<close>

fun passes :: "rstep \<Rightarrow> nat \<Rightarrow> any_obj \<Rightarrow> world \<Rightarrow> reconcile_out option list \<times> any_obj \<times> world" where
  "passes step 0 ob w = ([], ob, w)"
| "passes step (Suc n) ob w =
     (case passes step n ob w of (outs, ob1, w1) \<Rightarrow>
        (case step ob1 w1 of (out, ob2, w2) \<Rightarrow> (outs @ [out], ob2, w2)))"



end
