(* ===== verification/Watches.thy ===== *)
theory Watches
  imports Reconcilers UtilityPages
begin

text \<open>
  Which objects a change enqueues (\<open>internal/controller/utils.go\<close>: \<open>MakeHandlerByReferencePath\<close>,
  \<open>defaultSecretRequests\<close>, \<open>MergeEnvVars\<close>; the \<open>SetupWithManager\<close> methods of the controllers of the
  referenced kinds; the secret watch of \<open>kdexhost_controller.go\<close>). A watch is a row of a table.
  \<open>lister\<close> is \<open>client.List\<close> on a kind: with a namespace it returns the objects of that namespace,
  or of the cluster where the kind is cluster scoped.
\<close>

section \<open>References found by a path\<close>

text \<open>The values \<open>FindResults\<close> can return that the handler tells apart.\<close>

datatype ref_value = RString string | RStrings "string list" | RLocal string | RObject obj_ref | RNil

fun ref_matches :: "string \<Rightarrow> nsname \<Rightarrow> string \<Rightarrow> ref_value \<Rightarrow> bool" where
  "ref_matches kind key item_ns RNil = False"
| "ref_matches kind key item_ns (RString s) = (s \<noteq> [] \<and> s = snd key)"
| "ref_matches kind key item_ns (RStrings ss) = (snd key \<in> set ss)"
| "ref_matches kind key item_ns (RLocal n) = (n \<noteq> [] \<and> n = snd key)"
| "ref_matches kind key item_ns (RObject v) =
     (let namespace = (if ref_namespace v \<noteq> [] then ref_namespace v else item_ns)
      in v \<noteq> \<lparr>ref_kind = [], ref_name = [], ref_namespace = []\<rparr>
         \<and> ref_kind v = kind \<and> ref_name v = snd key \<and> item_ns = namespace)"

datatype ref_path = SecretRefPath | ScriptLibraryRefPath | DefaultFooterRefPath | DefaultHeaderRefPath
  | DefaultNavigationRefsPath | OverrideFooterRefPath | OverrideHeaderRefPath | OverrideNavigationRefsPath
  | PageArchetypeRefPath | AppRefsPath

fun opt_ref :: "obj_ref option \<Rightarrow> ref_value" where
  "opt_ref None = RNil"
| "opt_ref (Some r) = RObject r"

text \<open>\<open>jpRef.FindResults(item)\<close>, flattened; an item without the field gives nothing.\<close>

fun find_results :: "ref_path \<Rightarrow> kdex_spec \<Rightarrow> ref_value list" where
  "find_results SecretRefPath sp = (case sp of
      KDexApp s \<Rightarrow> [opt_ref (pkg_secret_ref (app_package s))]
    | KDexClusterApp s \<Rightarrow> [opt_ref (pkg_secret_ref (app_package s))]
    | KDexScriptLibrary s \<Rightarrow> (case lib_package s of None \<Rightarrow> [] | Some p \<Rightarrow> [opt_ref (pkg_secret_ref p)])
    | KDexClusterScriptLibrary s \<Rightarrow> (case lib_package s of None \<Rightarrow> [] | Some p \<Rightarrow> [opt_ref (pkg_secret_ref p)])
    | _ \<Rightarrow> [])"
| "find_results ScriptLibraryRefPath sp = (case sp of
      KDexPageFooter s \<Rightarrow> [opt_ref (part_script_library s)]
    | KDexClusterPageFooter s \<Rightarrow> [opt_ref (part_script_library s)]
    | KDexPageHeader s \<Rightarrow> [opt_ref (part_script_library s)]
    | KDexClusterPageHeader s \<Rightarrow> [opt_ref (part_script_library s)]
    | KDexPageNavigation s \<Rightarrow> [opt_ref (part_script_library s)]
    | KDexClusterPageNavigation s \<Rightarrow> [opt_ref (part_script_library s)]
    | KDexTheme s \<Rightarrow> [opt_ref (th_script_library s)]
    | KDexClusterTheme s \<Rightarrow> [opt_ref (th_script_library s)]
    | KDexPageArchetype s \<Rightarrow> [opt_ref (ar_script_library s)]
    | KDexClusterPageArchetype s \<Rightarrow> [opt_ref (ar_script_library s)]
    | KDexUtilityPage s \<Rightarrow> [opt_ref (up_script_library s)]
    | KDexClusterUtilityPage s \<Rightarrow> [opt_ref (up_script_library s)]
    | _ \<Rightarrow> [])"
| "find_results DefaultFooterRefPath sp = (case sp of
      KDexPageArchetype s \<Rightarrow> [opt_ref (ar_footer s)]
    | KDexClusterPageArchetype s \<Rightarrow> [opt_ref (ar_footer s)]
    | _ \<Rightarrow> [])"
| "find_results DefaultHeaderRefPath sp = (case sp of
      KDexPageArchetype s \<Rightarrow> [opt_ref (ar_header s)]
    | KDexClusterPageArchetype s \<Rightarrow> [opt_ref (ar_header s)]
    | _ \<Rightarrow> [])"
| "find_results DefaultNavigationRefsPath sp = (case sp of
      KDexPageArchetype s \<Rightarrow> map (opt_ref \<circ> snd) (ar_navigations s)
    | KDexClusterPageArchetype s \<Rightarrow> map (opt_ref \<circ> snd) (ar_navigations s)
    | _ \<Rightarrow> [])"
| "find_results OverrideFooterRefPath sp = (case sp of
      KDexUtilityPage s \<Rightarrow> [opt_ref (up_footer s)]
    | KDexClusterUtilityPage s \<Rightarrow> [opt_ref (up_footer s)]
    | _ \<Rightarrow> [])"
| "find_results OverrideHeaderRefPath sp = (case sp of
      KDexUtilityPage s \<Rightarrow> [opt_ref (up_header s)]
    | KDexClusterUtilityPage s \<Rightarrow> [opt_ref (up_header s)]
    | _ \<Rightarrow> [])"
| "find_results OverrideNavigationRefsPath sp = (case sp of
      KDexUtilityPage s \<Rightarrow> map (opt_ref \<circ> snd) (up_navigations s)
    | KDexClusterUtilityPage s \<Rightarrow> map (opt_ref \<circ> snd) (up_navigations s)
    | _ \<Rightarrow> [])"
| "find_results PageArchetypeRefPath sp = (case sp of
      KDexUtilityPage s \<Rightarrow> [opt_ref (up_archetype s)]
    | KDexClusterUtilityPage s \<Rightarrow> [opt_ref (up_archetype s)]
    | _ \<Rightarrow> [])"
| "find_results AppRefsPath sp = (case sp of
      KDexUtilityPage s \<Rightarrow> map (opt_ref \<circ> ce_app_ref) (up_contents s)
    | KDexClusterUtilityPage s \<Rightarrow> map (opt_ref \<circ> ce_app_ref) (up_contents s)
    | _ \<Rightarrow> [])"

section \<open>Handlers\<close>

type_synonym lister = "string \<Rightarrow> string \<Rightarrow> go_error + any_obj list"  \<comment> \<open>kind, namespace (empty: all)\<close>

definition item_requests :: "string \<Rightarrow> nsname \<Rightarrow> ref_value list \<Rightarrow> 's kobj \<Rightarrow> nsname list" where
  "item_requests kind key refs item =
     map (\<lambda>_. o_key item) (filter (ref_matches kind key (o_namespace item)) refs)"

definition reference_requests :: "(string \<Rightarrow> go_error + 's kobj list) \<Rightarrow> ('s \<Rightarrow> ref_value list)
    \<Rightarrow> string \<Rightarrow> nsname \<Rightarrow> nsname list" where
  "reference_requests list_in at_path kind key =
     (case list_in (fst key) of
        Inl _ \<Rightarrow> []
      | Inr items \<Rightarrow> concat (map (\<lambda>item. item_requests kind key (at_path (o_spec item)) item) items))"

definition default_secret_requests :: "(string \<Rightarrow> go_error + 's kobj list) \<Rightarrow> obj_ref option \<Rightarrow> nsname \<Rightarrow> nsname list" where
  "default_secret_requests list_in default_ref key =
     (case default_ref of
        None \<Rightarrow> []
      | Some d \<Rightarrow>
          if ref_name d = [] then []
          else if snd key \<noteq> ref_name d then []
          else if ref_namespace d \<noteq> [] \<and> fst key \<noteq> ref_namespace d then []
          else case list_in [] of Inl _ \<Rightarrow> [] | Inr items \<Rightarrow> map o_key items)"

text \<open>The watch of the host on secrets: hosts of the namespace whose selector matches the labels.\<close>

fun host_selects :: "env \<Rightarrow> (string \<rightharpoonup> string) \<Rightarrow> host \<Rightarrow> bool" where
  "host_selects E labels h =
     (case hs_secret_selector (o_spec h) of
        None \<Rightarrow> False
      | Some sel \<Rightarrow> (case e_selector E sel of Inl _ \<Rightarrow> False | Inr matches \<Rightarrow> matches labels))"

definition secret_host_requests :: "env \<Rightarrow> (string \<Rightarrow> go_error + host list) \<Rightarrow> secret \<Rightarrow> nsname list" where
  "secret_host_requests E list_in s =
     (case list_in (o_namespace s) of
        Inl _ \<Rightarrow> []
      | Inr hosts \<Rightarrow> map o_key (filter (host_selects E (om_labels (o_meta s))) hosts))"

section \<open>The tables\<close>

datatype watch_row =
    WatchSelf string                        \<comment> \<open>\<open>For\<close>, or \<open>EnqueueRequestForObject\<close>\<close>
  | WatchRefs string string ref_path        \<comment> \<open>changed kind, listed kind, path\<close>
  | WatchDefaultSecret string               \<comment> \<open>listed kind\<close>

definition app_watches :: "watch_row list" where
  "app_watches =
     [WatchSelf ''KDexApp'', WatchSelf ''KDexClusterApp'',
      WatchRefs ''Secret'' ''KDexApp'' SecretRefPath,
      WatchRefs ''Secret'' ''KDexClusterApp'' SecretRefPath,
      WatchDefaultSecret ''KDexApp'', WatchDefaultSecret ''KDexClusterApp'']"

definition script_library_watches :: "watch_row list" where
  "script_library_watches =
     [WatchSelf ''KDexScriptLibrary'', WatchSelf ''KDexClusterScriptLibrary'',
      WatchRefs ''Secret'' ''KDexScriptLibrary'' SecretRefPath,
      WatchRefs ''Secret'' ''KDexClusterScriptLibrary'' SecretRefPath,
      WatchDefaultSecret ''KDexScriptLibrary'', WatchDefaultSecret ''KDexClusterScriptLibrary'']"

definition footer_watches :: "watch_row list" where
  "footer_watches =
     [WatchSelf ''KDexPageFooter'', WatchSelf ''KDexClusterPageFooter'',
      WatchRefs ''KDexScriptLibrary'' ''KDexPageFooter'' ScriptLibraryRefPath,
      WatchRefs ''KDexClusterScriptLibrary'' ''KDexPageFooter'' ScriptLibraryRefPath,
      WatchRefs ''KDexClusterScriptLibrary'' ''KDexClusterPageFooter'' ScriptLibraryRefPath]"

definition header_watches :: "watch_row list" where
  "header_watches =
     [WatchSelf ''KDexPageHeader'', WatchSelf ''KDexClusterPageHeader'',
      WatchRefs ''KDexScriptLibrary'' ''KDexPageHeader'' ScriptLibraryRefPath,
      WatchRefs ''KDexClusterScriptLibrary'' ''KDexPageHeader'' ScriptLibraryRefPath,
      WatchRefs ''KDexClusterScriptLibrary'' ''KDexClusterPageHeader'' ScriptLibraryRefPath]"

definition navigation_watches :: "watch_row list" where
  "navigation_watches =
     [WatchSelf ''KDexPageNavigation'', WatchSelf ''KDexClusterPageNavigation'',
      WatchRefs ''KDexScriptLibrary'' ''KDexPageNavigation'' ScriptLibraryRefPath,
      WatchRefs ''KDexClusterScriptLibrary'' ''KDexPageNavigation'' ScriptLibraryRefPath,
      WatchRefs ''KDexClusterScriptLibrary'' ''KDexClusterPageNavigation'' ScriptLibraryRefPath]"

definition theme_watches :: "watch_row list" where
  "theme_watches =
     [WatchSelf ''KDexTheme'', WatchSelf ''KDexClusterTheme'',
      WatchRefs ''KDexScriptLibrary'' ''KDexTheme'' ScriptLibraryRefPath,
      WatchRefs ''KDexClusterScriptLibrary'' ''KDexTheme'' ScriptLibraryRefPath,
      WatchRefs ''KDexClusterScriptLibrary'' ''KDexClusterTheme'' ScriptLibraryRefPath]"

definition translation_watches :: "watch_row list" where
  "translation_watches = [WatchSelf ''KDexTranslation'', WatchSelf ''KDexClusterTranslation'']"

definition archetype_watches :: "watch_row list" where
  "archetype_watches =
     [WatchSelf ''KDexPageArchetype'', WatchSelf ''KDexClusterPageArchetype'',
      WatchRefs ''KDexPageFooter'' ''KDexPageArchetype'' DefaultFooterRefPath,
      WatchRefs ''KDexClusterPageFooter'' ''KDexPageArchetype'' DefaultFooterRefPath,
      WatchRefs ''KDexClusterPageFooter'' ''KDexClusterPageArchetype'' DefaultFooterRefPath,
      WatchRefs ''KDexPageHeader'' ''KDexPageArchetype'' DefaultHeaderRefPath,
      WatchRefs ''KDexClusterPageHeader'' ''KDexPageArchetype'' DefaultHeaderRefPath,
      WatchRefs ''KDexClusterPageHeader'' ''KDexClusterPageArchetype'' DefaultHeaderRefPath,
      WatchRefs ''KDexPageNavigation'' ''KDexPageArchetype'' DefaultNavigationRefsPath,
      WatchRefs ''KDexClusterPageNavigation'' ''KDexPageArchetype'' DefaultNavigationRefsPath,
      WatchRefs ''KDexClusterPageNavigation'' ''KDexClusterPageArchetype'' DefaultNavigationRefsPath,
      WatchRefs ''KDexScriptLibrary'' ''KDexPageArchetype'' ScriptLibraryRefPath,
      WatchRefs ''KDexClusterScriptLibrary'' ''KDexPageArchetype'' ScriptLibraryRefPath,
      WatchRefs ''KDexClusterScriptLibrary'' ''KDexClusterPageArchetype'' ScriptLibraryRefPath]"

definition utility_page_watches :: "watch_row list" where
  "utility_page_watches =
     [WatchSelf ''KDexUtilityPage'', WatchSelf ''KDexClusterUtilityPage'',
      WatchRefs ''KDexApp'' ''KDexUtilityPage'' AppRefsPath,
      WatchRefs ''KDexClusterApp'' ''KDexUtilityPage'' AppRefsPath,
      WatchRefs ''KDexClusterApp'' ''KDexClusterUtilityPage'' AppRefsPath,
      WatchRefs ''KDexPageArchetype'' ''KDexUtilityPage'' PageArchetypeRefPath,
      WatchRefs ''KDexClusterPageArchetype'' ''KDexUtilityPage'' PageArchetypeRefPath,
      WatchRefs ''KDexClusterPageArchetype'' ''KDexClusterUtilityPage'' PageArchetypeRefPath,
      WatchRefs ''KDexPageFooter'' ''KDexUtilityPage'' OverrideFooterRefPath,
      WatchRefs ''KDexClusterPageFooter'' ''KDexUtilityPage'' OverrideFooterRefPath,
      WatchRefs ''KDexClusterPageFooter'' ''KDexClusterUtilityPage'' OverrideFooterRefPath,
      WatchRefs ''KDexPageHeader'' ''KDexUtilityPage'' OverrideHeaderRefPath,
      WatchRefs ''KDexClusterPageHeader'' ''KDexUtilityPage'' OverrideHeaderRefPath,
      WatchRefs ''KDexClusterPageHeader'' ''KDexClusterUtilityPage'' OverrideHeaderRefPath,
      WatchRefs ''KDexPageNavigation'' ''KDexUtilityPage'' OverrideNavigationRefsPath,
      WatchRefs ''KDexClusterPageNavigation'' ''KDexUtilityPage'' OverrideNavigationRefsPath,
      WatchRefs ''KDexClusterPageNavigation'' ''KDexClusterUtilityPage'' OverrideNavigationRefsPath,
      WatchRefs ''KDexScriptLibrary'' ''KDexUtilityPage'' ScriptLibraryRefPath,
      WatchRefs ''KDexClusterScriptLibrary'' ''KDexUtilityPage'' ScriptLibraryRefPath,
      WatchRefs ''KDexClusterScriptLibrary'' ''KDexClusterUtilityPage'' ScriptLibraryRefPath]"

fun watches_of :: "controller \<Rightarrow> watch_row list" where
  "watches_of AppC = app_watches"
| "watches_of ArchetypeC = archetype_watches"
| "watches_of FooterC = footer_watches"
| "watches_of HeaderC = header_watches"
| "watches_of NavigationC = navigation_watches"
| "watches_of ScriptLibraryC = script_library_watches"
| "watches_of ThemeC = theme_watches"
| "watches_of TranslationC = translation_watches"
| "watches_of UtilityPageC = utility_page_watches"

text \<open>What the change of an object of a kind enqueues.\<close>

fun row_requests :: "lister \<Rightarrow> npm \<Rightarrow> string \<Rightarrow> nsname \<Rightarrow> watch_row \<Rightarrow> nsname list" where
  "row_requests L N kind key (WatchSelf k) = (if k = kind then [key] else [])"
| "row_requests L N kind key (WatchRefs k listed p) =
     (if k = kind then reference_requests (L listed) (find_results p) kind key else [])"
| "row_requests L N kind key (WatchDefaultSecret listed) =
     (if kind = ''Secret'' then default_secret_requests (L listed) (npm_default_secret N) key else [])"

definition enqueued :: "lister \<Rightarrow> npm \<Rightarrow> controller \<Rightarrow> string \<Rightarrow> nsname \<Rightarrow> nsname list" where
  "enqueued L N c kind key = concat (map (row_requests L N kind key) (watches_of c))"

text \<open>
  The host's reference watches. The two rows for FaaS adaptors are left out: the code only reads
  that reference here, and nothing else of it is modelled.
\<close>

fun page_ref_values :: "utility_page_refs option \<Rightarrow> ref_value list" where
  "page_ref_values None = []"
| "page_ref_values (Some p) =
     [opt_ref (upr_announcement p), opt_ref (upr_error p), opt_ref (upr_login p), opt_ref (upr_consent p)]"

definition host_ref_watches :: "(string \<times> (host_spec \<Rightarrow> ref_value list)) list" where
  "host_ref_watches =
     [(''KDexScriptLibrary'', \<lambda>s. [opt_ref (hs_script_library_ref s)]),
      (''KDexClusterScriptLibrary'', \<lambda>s. [opt_ref (hs_script_library_ref s)]),
      (''KDexTheme'', \<lambda>s. [opt_ref (hs_theme_ref s)]),
      (''KDexClusterTheme'', \<lambda>s. [opt_ref (hs_theme_ref s)]),
      (''KDexTranslation'', \<lambda>s. map RObject (hs_translation_refs s)),
      (''KDexClusterTranslation'', \<lambda>s. map RObject (hs_translation_refs s)),
      (''KDexUtilityPage'', \<lambda>s. page_ref_values (hs_utility_pages s)),
      (''KDexClusterUtilityPage'', \<lambda>s. page_ref_values (hs_utility_pages s))]"

definition host_enqueued :: "env \<Rightarrow> (string \<Rightarrow> go_error + host list) \<Rightarrow> any_obj \<Rightarrow> world \<Rightarrow> nsname list" where
  "host_enqueued E list_in ob w =
     (let kind = type_name (o_spec ob)
      in concat (map (\<lambda>(k, at_path). if k = kind then reference_requests list_in at_path kind (o_key ob) else [])
              host_ref_watches)
         @ (if kind = ''KDexTranslation'' then translation_host_ref_requests ob else [])
         @ (if kind = ''KDexClusterUtilityPage'' then default_consent_page_requests E (o_name ob) w else []))"

section \<open>Merging environment variables\<close>

text \<open>
  \<open>MergeEnvVars\<close>: the index of the last entry of each name, then overrides replace or append.
\<close>

type_synonym env_var = "string \<times> string"

fun index_from :: "nat \<Rightarrow> env_var list \<Rightarrow> (string \<rightharpoonup> nat) \<Rightarrow> (string \<rightharpoonup> nat)" where
  "index_from i [] m = m"
| "index_from i (e # es) m = index_from (Suc i) es (m(fst e \<mapsto> i))"

fun merge_from :: "env_var list \<Rightarrow> (string \<rightharpoonup> nat) \<Rightarrow> env_var list \<Rightarrow> env_var list" where
  "merge_from existing m [] = existing"
| "merge_from existing m (ov # overrides) =
     (case m (fst ov) of
        Some i \<Rightarrow> merge_from (existing[i := ov]) m overrides
      | None \<Rightarrow> merge_from (existing @ [ov]) (m(fst ov \<mapsto> length existing)) overrides)"

definition merge_env_vars :: "env_var list \<Rightarrow> env_var list \<Rightarrow> env_var list" where
  "merge_env_vars existing overrides = merge_from existing (index_from 0 existing Map.empty) overrides"

section \<open>Facts about the handlers\<close>

lemma item_requests_iff:
  "k \<in> set (item_requests kind key refs item) \<longleftrightarrow>
     k = o_key item \<and> (\<exists>v \<in> set refs. ref_matches kind key (o_namespace item) v)"
  by (auto simp: item_requests_def)

lemma reference_requests_iff:
  "k \<in> set (reference_requests list_in at_path kind key) \<longleftrightarrow>
     (\<exists>items item v. list_in (fst key) = Inr items \<and> item \<in> set items \<and> k = o_key item
        \<and> v \<in> set (at_path (o_spec item)) \<and> ref_matches kind key (o_namespace item) v)"
  by (cases "list_in (fst key)") (simp_all add: reference_requests_def item_requests_iff, blast)

lemma ref_matches_object:
  "ref_matches kind key ns (RObject r) \<longleftrightarrow>
     r \<noteq> \<lparr>ref_kind = [], ref_name = [], ref_namespace = []\<rparr> \<and> ref_kind r = kind \<and> ref_name r = snd key
     \<and> ref_namespace r \<in> {[], ns}"
  by (auto simp: Let_def)

lemma enqueued_refs:
  assumes "WatchRefs k listed p \<in> set (watches_of c)" "x \<in> set (reference_requests (L listed) (find_results p) k key)"
  shows "x \<in> set (enqueued L N c k key)"
proof -
  have "x \<in> set (row_requests L N k key (WatchRefs k listed p))" using assms(2) by simp
  then show ?thesis using assms(1) unfolding enqueued_def set_concat set_map by blast
qed

text \<open>Every place a referrer can hold a reference in has a watch on each kind it may name.\<close>

fun target_kinds :: "ref_path \<Rightarrow> string list" where
  "target_kinds SecretRefPath = [''Secret'']"
| "target_kinds ScriptLibraryRefPath = [''KDexScriptLibrary'', ''KDexClusterScriptLibrary'']"
| "target_kinds DefaultFooterRefPath = [''KDexPageFooter'', ''KDexClusterPageFooter'']"
| "target_kinds DefaultHeaderRefPath = [''KDexPageHeader'', ''KDexClusterPageHeader'']"
| "target_kinds DefaultNavigationRefsPath = [''KDexPageNavigation'', ''KDexClusterPageNavigation'']"
| "target_kinds OverrideFooterRefPath = [''KDexPageFooter'', ''KDexClusterPageFooter'']"
| "target_kinds OverrideHeaderRefPath = [''KDexPageHeader'', ''KDexClusterPageHeader'']"
| "target_kinds OverrideNavigationRefsPath = [''KDexPageNavigation'', ''KDexClusterPageNavigation'']"
| "target_kinds PageArchetypeRefPath = [''KDexPageArchetype'', ''KDexClusterPageArchetype'']"
| "target_kinds AppRefsPath = [''KDexApp'', ''KDexClusterApp'']"

fun controller_of :: "kdex_spec \<Rightarrow> controller option" where
  "controller_of (KDexApp _) = Some AppC" | "controller_of (KDexClusterApp _) = Some AppC"
| "controller_of (KDexPageArchetype _) = Some ArchetypeC" | "controller_of (KDexClusterPageArchetype _) = Some ArchetypeC"
| "controller_of (KDexPageFooter _) = Some FooterC" | "controller_of (KDexClusterPageFooter _) = Some FooterC"
| "controller_of (KDexPageHeader _) = Some HeaderC" | "controller_of (KDexClusterPageHeader _) = Some HeaderC"
| "controller_of (KDexPageNavigation _) = Some NavigationC" | "controller_of (KDexClusterPageNavigation _) = Some NavigationC"
| "controller_of (KDexScriptLibrary _) = Some ScriptLibraryC" | "controller_of (KDexClusterScriptLibrary _) = Some ScriptLibraryC"
| "controller_of (KDexTheme _) = Some ThemeC" | "controller_of (KDexClusterTheme _) = Some ThemeC"
| "controller_of (KDexTranslation _) = Some TranslationC" | "controller_of (KDexClusterTranslation _) = Some TranslationC"
| "controller_of (KDexUtilityPage _) = Some UtilityPageC" | "controller_of (KDexClusterUtilityPage _) = Some UtilityPageC"
| "controller_of (OtherKind _) = None"

lemmas watch_tables = app_watches_def script_library_watches_def footer_watches_def header_watches_def
  navigation_watches_def theme_watches_def translation_watches_def archetype_watches_def utility_page_watches_def

lemma clustered_kinds [simp]:
  "is_clustered ''KDexClusterApp''" "is_clustered ''KDexClusterPageArchetype''"
  "is_clustered ''KDexClusterPageFooter''" "is_clustered ''KDexClusterPageHeader''"
  "is_clustered ''KDexClusterPageNavigation''" "is_clustered ''KDexClusterScriptLibrary''"
  "is_clustered ''KDexClusterTheme''" "is_clustered ''KDexClusterTranslation''" "is_clustered ''KDexClusterUtilityPage''"
  "\<not> is_clustered ''KDexApp''" "\<not> is_clustered ''KDexPageArchetype''" "\<not> is_clustered ''KDexPageFooter''"
  "\<not> is_clustered ''KDexPageHeader''" "\<not> is_clustered ''KDexPageNavigation''" "\<not> is_clustered ''KDexScriptLibrary''"
  "\<not> is_clustered ''KDexTheme''" "\<not> is_clustered ''KDexTranslation''" "\<not> is_clustered ''KDexUtilityPage''"
  "\<not> is_clustered ''Secret''"
  by (simp_all add: is_clustered_def has_prefix_def)

lemma every_reference_has_a_row:
  assumes "controller_of spec = Some c" "find_results p spec \<noteq> []" "k \<in> set (target_kinds p)"
    and "is_clustered (type_name spec) \<longrightarrow> k = ''Secret'' \<or> is_clustered k"
  shows "WatchRefs k (type_name spec) p \<in> set (watches_of c)"
  using assms by (cases p; cases spec) (auto simp: watch_tables)

section \<open>Properties\<close>

text \<open>
  C26. Following a reference to its target and a change of the target back to the referrer: let an
  object of one of the nine reconciled pairs of kinds hold a reference in a place that its
  controller watches, of a kind that place may name. Where \<open>List\<close> returns the object, a change of
  what the reference resolves to enqueues it, provided the reference names no namespace other
  than the object's own.
\<close>
theorem dependency_change_enqueues:
  assumes "controller_of (o_spec item) = Some c" "RObject r \<in> set (find_results p (o_spec item))"
    and "ref_kind r \<in> set (target_kinds p)"
    and "is_clustered (type_name (o_spec item)) \<longrightarrow> ref_kind r = ''Secret'' \<or> is_clustered (ref_kind r)"
    and "ref_namespace r \<in> {[], o_namespace item}"
    and "snd key = ref_name r" "L (type_name (o_spec item)) (fst key) = Inr items" "item \<in> set items"
  shows "o_key item \<in> set (enqueued L N c (ref_kind r) key)"
proof (rule enqueued_refs)
  have "find_results p (o_spec item) \<noteq> []" using assms(2) by auto
  then show "WatchRefs (ref_kind r) (type_name (o_spec item)) p \<in> set (watches_of c)"
    using every_reference_has_a_row assms(1,3,4) by blast
  have "ref_kind r \<noteq> []" using assms(3) by (cases p) auto
  then have "ref_matches (ref_kind r) key (o_namespace item) (RObject r)"
    unfolding ref_matches_object using assms(5,6) by auto
  then show "o_key item \<in> set (reference_requests (L (type_name (o_spec item))) (find_results p) (ref_kind r) key)"
    unfolding reference_requests_iff using assms(2,7,8) by blast
qed

definition page_with_app :: any_obj where
  "page_with_app = sample_obj ''ns'' ''p'' (KDexUtilityPage ((sample_utility_page_spec Login)\<lparr>up_contents :=
     [\<lparr>ce_slot = ''main'', ce_raw_html = [], ce_app_ref = Some \<lparr>ref_kind = ''KDexApp'', ref_name = ''a'',
        ref_namespace = []\<rparr>, ce_attributes = Map.empty, ce_element = ''my-app''\<rparr>]\<rparr>))"

lemma page_with_app_simps [simp]:
  "o_key page_with_app = (''ns'', ''p'')" "o_namespace page_with_app = ''ns''" "o_name page_with_app = ''p''"
  "type_name (o_spec page_with_app) = ''KDexUtilityPage''" "controller_of (o_spec page_with_app) = Some UtilityPageC"
  "find_results AppRefsPath (o_spec page_with_app)
     = [RObject \<lparr>ref_kind = ''KDexApp'', ref_name = ''a'', ref_namespace = []\<rparr>]"
  by (simp_all add: page_with_app_def sample_obj_def sample_meta_def sample_utility_page_spec_def key_of_def)

theorem dependency_change_enqueues_witness:
  "(''ns'', ''p'') \<in> set (enqueued (\<lambda>_ _. Inr [page_with_app]) \<lparr>npm_default_registry = [],
     npm_default_secret = None, npm_factory = \<lambda>_ _ _. Inr (\<lambda>_ _. None)\<rparr> UtilityPageC ''KDexApp'' (''ns'', ''a''))"
proof -
  let ?r = "\<lparr>ref_kind = ''KDexApp'', ref_name = ''a'', ref_namespace = []\<rparr>"
  let ?N = "\<lparr>npm_default_registry = [], npm_default_secret = None, npm_factory = \<lambda>_ _ _. Inr (\<lambda>_ _. None)\<rparr>"
  have "o_key page_with_app \<in> set (enqueued (\<lambda>_ _. Inr [page_with_app]) ?N UtilityPageC (ref_kind ?r) (''ns'', ''a''))"
    by (rule dependency_change_enqueues [where p = AppRefsPath and items = "[page_with_app]"])
      (simp_all del: find_results.simps)
  then show ?thesis by simp
qed

text \<open>
  C27. A reference into another namespace is followed but not watched: such a reference resolves to the
  object of the namespace it names, yet no change of any object enqueues the referrer on its
  account, whatever \<open>List\<close> returns. This includes the secret of every cluster-scoped app or
  script library, which must name a namespace.
\<close>
theorem foreign_reference_not_watched:
  assumes "ref_namespace r \<noteq> []" "ref_namespace r \<noteq> o_namespace item"
    and "\<And>v. v \<in> set (at_path (o_spec item)) \<Longrightarrow> v = RNil \<or> v = RObject r"
    and "\<And>other items. list_in ns = Inr items \<Longrightarrow> other \<in> set items \<Longrightarrow> o_key other = o_key item \<Longrightarrow> other = item"
  shows "(\<not> is_clustered rk \<longrightarrow> \<not> is_clustered (ref_kind r) \<longrightarrow> ref_key rk (o_namespace item) r = (ref_namespace r, ref_name r))
    \<and> secret_key (o_namespace item) (ObjectRef r) = Some (ref_namespace r, ref_name r)
    \<and> o_key item \<notin> set (reference_requests list_in at_path kind (ns, n))"
proof -
  have "\<not> ref_matches kind (ns, n) (o_namespace item) v" if "v \<in> set (at_path (o_spec item))" for v
    using assms(1,2) assms(3) [OF that] by auto
  then have "o_key item \<notin> set (reference_requests list_in at_path kind (ns, n))"
    unfolding reference_requests_iff using assms(4) by (metis fst_conv)
  then show ?thesis using assms(1) by (simp add: ref_key_def)
qed

definition cluster_app_with_secret :: any_obj where
  "cluster_app_with_secret = sample_obj [] ''a'' (KDexClusterApp (sample_app_spec\<lparr>app_package :=
     sample_package\<lparr>pkg_secret_ref := Some \<lparr>ref_kind = ''Secret'', ref_name = ''npm'', ref_namespace = ''ns''\<rparr>\<rparr>\<rparr>))"

theorem foreign_reference_not_watched_witness:
  "([], ''a'') \<notin> set (reference_requests (\<lambda>_. Inr [cluster_app_with_secret]) (find_results SecretRefPath)
     ''Secret'' (''ns'', ''npm''))"
proof -
  let ?r = "\<lparr>ref_kind = ''Secret'', ref_name = ''npm'', ref_namespace = ''ns''\<rparr>"
  have "o_key cluster_app_with_secret \<notin> set (reference_requests (\<lambda>_. Inr [cluster_app_with_secret])
      (find_results SecretRefPath) ''Secret'' (''ns'', ''npm''))"
    by (rule foreign_reference_not_watched [where r = ?r and rk = "''KDexClusterApp''", THEN conjunct2, THEN conjunct2])
      (auto simp: cluster_app_with_secret_def sample_obj_def sample_meta_def sample_app_spec_def)
  then show ?thesis by (simp add: cluster_app_with_secret_def)
qed

text \<open>
  The default translation is read but not watched. Every reconcile of a live host reads it, and a
  failed read ends the reconcile with its error; but where no host names it in its own
  \<open>translationRefs\<close>, its creation, change or deletion enqueues no host.
\<close>
theorem default_translation_not_watched:
  assumes "o_spec ob = KDexClusterTranslation sp" "o_key ob = ([], ''kdex-default-translation'')"
    and "\<And>items h r. list_in [] = Inr items \<Longrightarrow> h \<in> set items \<Longrightarrow> r \<in> set (hs_translation_refs (o_spec h))
      \<Longrightarrow> ref_name r \<noteq> ''kdex-default-translation''"
    and "e_known_kind E ''KDexClusterTranslation''"
    and "e_get_ref E (calls w) ''KDexClusterTranslation'' (o_key ob) = Inl err"
  shows "host_enqueued E list_in ob v = []
    \<and> tl_return (fst (resolve_translations E h w)) \<and> tl_err (fst (resolve_translations E h w)) = Some err"
proof -
  have "reference_requests list_in (\<lambda>s. map RObject (hs_translation_refs s)) ''KDexClusterTranslation''
      ([], ''kdex-default-translation'') = []"
  proof (rule ccontr)
    assume "\<not> ?thesis"
    then obtain k where "k \<in> set (reference_requests list_in (\<lambda>s. map RObject (hs_translation_refs s))
        ''KDexClusterTranslation'' ([], ''kdex-default-translation''))" using hd_in_set by blast
    then show False unfolding reference_requests_iff using assms(3) by (fastforce simp: Let_def)
  qed
  then have "host_enqueued E list_in ob v = []"
    using assms(1,2) by (simp add: host_enqueued_def host_ref_watches_def)
  moreover have "tl_return (fst (resolve_translations E h w)) \<and> tl_err (fst (resolve_translations E h w)) = Some err"
    using assms(2,4,5) by (simp add: resolve_translations_def host_resolve_ref_def resolve_ref_def
        default_translation_ref_def ref_key_def translations_stop_def is_clustered_def has_prefix_def Let_def)
  ultimately show ?thesis by blast
qed

theorem default_translation_not_watched_witness:
  "host_enqueued sample_env (\<lambda>_. Inr [sample_obj ''ns'' ''h'' sample_host_spec])
     (sample_obj [] ''kdex-default-translation'' (KDexClusterTranslation [])) start_world = []"
proof -
  have "host_enqueued sample_env (\<lambda>_. Inr [sample_obj ''ns'' ''h'' sample_host_spec])
      (sample_obj [] ''kdex-default-translation'' (KDexClusterTranslation [])) start_world = []
    \<and> tl_return (fst (resolve_translations sample_env (sample_obj ''ns'' ''h'' sample_host_spec) start_world))
    \<and> tl_err (fst (resolve_translations sample_env (sample_obj ''ns'' ''h'' sample_host_spec) start_world)) = Some absent"
    by (rule default_translation_not_watched) (auto simp: sample_obj_def sample_meta_def key_of_def sample_host_spec_def)
  then show ?thesis by blast
qed

end
