(* ===== verification/SelfFire.thy ===== *)
theory SelfFire
  imports Watches
begin

text \<open>
  The loop the status guard is there to end: a reconciler of a referenced kind watches its own kind, so
  the status a pass writes triggers the next pass. \<open>pass_write\<close> is the write of one pass, \<open>self_fire\<close>
  the number of writes until a pass makes none; not ending is the value \<open>None\<close>.
\<close>

definition pass_write :: "env \<Rightarrow> npm \<Rightarrow> controller \<Rightarrow> any_obj \<Rightarrow> world \<Rightarrow> (any_obj \<times> world) option" where
  "pass_write E N c ob w =
     (case body_of E N c (o_spec ob) ob w of
        (out, ob1, w1) \<Rightarrow>
          let ob2 = upd_status (\<lambda>s. s\<lparr>observed_generation := o_generation ob1\<rparr>) ob1
          in if status_equal (o_status ob) (o_status ob2) then None
             else Some (ob2, log_call (UpdateStatus ob2) w1))"

partial_function (option) self_fire :: "env \<Rightarrow> npm \<Rightarrow> controller \<Rightarrow> any_obj \<Rightarrow> world \<Rightarrow> nat option" where
  "self_fire E N c ob w =
     (case pass_write E N c ob w of
        None \<Rightarrow> Some 0
      | Some (ob', w') \<Rightarrow> Option.bind (self_fire E N c ob' w') (\<lambda>n. Some (Suc n)))"

text \<open>The two links to the code: what a pass writes, and that the write enqueues the object again.\<close>

lemma pass_write_reconcile:
  assumes "e_get_ref E (calls w) (read_kind c req) req = Inr ob"
    and "pass_write E N c ob (log_call (Get (read_kind c req) req) w) = Some (ob', w')"
  shows "snd (reconcile_of E N c req w) = w'"
proof -
  obtain out ob1 w1 where b: "body_of E N c (o_spec ob) ob (log_call (Get (read_kind c req) req) w) = (out, ob1, w1)"
    by (rule prod_cases3)
  show ?thesis using assms(2) b
    by (auto simp: reconcile_of_run [OF assms(1) b] pass_write_def deferred_update_def Let_def
        split: if_splits option.splits)
qed

lemma own_change_enqueues: "key \<in> set (enqueued L N c (read_kind c req) key)"
  by (cases c) (auto simp: enqueued_def read_kind_def watch_tables)

lemma failing_pass:
  assumes "o_spec ob = KDexApp s \<or> o_spec ob = KDexClusterApp s"
    and "pkg_secret_ref (app_package s) = None" "npm_default_secret N = None"
    and "\<And>v. validate_package_reference N (app_package s) None v = Some err"
  shows "\<exists>ob' w'. pass_write E N AppC ob w = Some (ob', w') \<and> o_spec ob' = o_spec ob"
proof -
  let ?n = "wrap_int64 (attempts_of (o_status ob) + 1)"
  let ?ob1 = "put_attr attempts_attr (itoa ?n) (mark E w degraded_set ReconcileError (err_text err) ob)"
  let ?out = "if ?n \<le> max_attempts then (requeue (e_requeue_delay E), None) else (no_result, Some err)"
  have "package_step E N (app_package s) ob w = (Some ?out, ?ob1, w)"
    using assms(2-4) by (simp add: package_step_def resolve_secret_def Let_def)
  then have b: "body_of E N AppC (o_spec ob) ob w = (Some ?out, ?ob1, w)"
    using assms(1) by (auto simp: app_body_def)
  have "attributes (o_status ob) attempts_attr \<noteq> Some (itoa ?n)"
    using attempts_itoa [OF _ in_int64_wrap] wrap_int64_neq in_int64_wrap by metis
  then have "\<not> status_equal (o_status ob) ((o_status ?ob1)\<lparr>observed_generation := g\<rparr>)" for g
    by (auto simp: status_equal_def fun_eq_iff)
  then show ?thesis using b by (simp add: pass_write_def Let_def)
qed

section \<open>Properties\<close>





end
