(* ===== verification/RenderSlots.thy ===== *)
theory RenderSlots
  imports Main
begin

text \<open>
  The render slots (\<open>acquireHelmRenderSlot\<close> in \<open>internal/controller/kdexhost_controller_helm.go\<close>): a
  channel of the configured capacity, made by the first caller, into which a render puts a token
  before it loads charts. The interleavings of any number of renders are the runs of a step relation.
  A render may be cancelled at any time; where a token can be put and the render is cancelled, Go's
  \<open>select\<close> may take either way.
\<close>

section \<open>States and steps\<close>

text \<open>
  The release function a render holds: it does nothing where renders are not bounded, and otherwise
  takes a token back the first time it is called (\<open>sync.Once\<close>).
\<close>

datatype release = NoOp | Drain bool  \<comment> \<open>whether it has been called\<close>

datatype render_phase = NotStarted | Acquiring | Refused | Running release | Finished

record slot_state =
  sl_made :: bool                       \<comment> \<open>\<open>helmRenderSemOnce\<close> has run\<close>
  sl_sem :: "nat option"                \<comment> \<open>the tokens in \<open>helmRenderSem\<close>, or no channel\<close>
  sl_phase :: "nat \<Rightarrow> render_phase"
  sl_cancelled :: "nat set"

definition make_sem :: "int \<Rightarrow> slot_state \<Rightarrow> slot_state" where
  "make_sem conc s = (if sl_made s then s
     else s\<lparr>sl_made := True, sl_sem := (if 0 < conc then Some 0 else None)\<rparr>)"

definition to_phase :: "nat \<Rightarrow> render_phase \<Rightarrow> slot_state \<Rightarrow> slot_state" where
  "to_phase i p s = s\<lparr>sl_phase := (sl_phase s)(i := p)\<rparr>"

inductive slot_step :: "int \<Rightarrow> slot_state \<Rightarrow> slot_state \<Rightarrow> bool" for conc where
  enter: "sl_phase s i = NotStarted \<Longrightarrow> slot_step conc s (to_phase i Acquiring (make_sem conc s))"
| unbounded: "sl_phase s i = Acquiring \<Longrightarrow> sl_sem s = None \<Longrightarrow> slot_step conc s (to_phase i (Running NoOp) s)"
| take: "sl_phase s i = Acquiring \<Longrightarrow> sl_sem s = Some n \<Longrightarrow> int n < conc
    \<Longrightarrow> slot_step conc s (to_phase i (Running (Drain False)) (s\<lparr>sl_sem := Some (Suc n)\<rparr>))"
| refuse: "sl_phase s i = Acquiring \<Longrightarrow> sl_sem s = Some n \<Longrightarrow> i \<in> sl_cancelled s
    \<Longrightarrow> slot_step conc s (to_phase i Refused s)"
| cancel: "slot_step conc s (s\<lparr>sl_cancelled := insert i (sl_cancelled s)\<rparr>)"
| give_back: "sl_phase s i = Running (Drain False) \<Longrightarrow> sl_sem s = Some (Suc n)
    \<Longrightarrow> slot_step conc s (to_phase i (Running (Drain True)) (s\<lparr>sl_sem := Some n\<rparr>))"
| give_back_again: "sl_phase s i = Running r \<Longrightarrow> r \<noteq> Drain False \<Longrightarrow> slot_step conc s s"
| leave: "sl_phase s i = Running r \<Longrightarrow> r \<noteq> Drain False \<Longrightarrow> slot_step conc s (to_phase i Finished s)"

definition no_renders :: slot_state where
  "no_renders = \<lparr>sl_made = False, sl_sem = None, sl_phase = (\<lambda>_. NotStarted), sl_cancelled = {}\<rparr>"

inductive slots_reach :: "int \<Rightarrow> slot_state \<Rightarrow> bool" for conc where
  none: "slots_reach conc no_renders"
| more: "slots_reach conc s \<Longrightarrow> slot_step conc s s' \<Longrightarrow> slots_reach conc s'"

inductive_cases slot_stepE: "slot_step conc s s'"

section \<open>The invariant\<close>

definition holders :: "slot_state \<Rightarrow> nat set" where
  "holders s = {i. sl_phase s i = Running (Drain False)}"

definition slots_inv :: "int \<Rightarrow> slot_state \<Rightarrow> bool" where
  "slots_inv conc s \<longleftrightarrow> finite (holders s)
     \<and> (case sl_sem s of None \<Rightarrow> holders s = {} | Some n \<Rightarrow> sl_made s \<and> n = card (holders s) \<and> int n \<le> conc)
     \<and> (sl_made s \<longrightarrow> (sl_sem s = None) = (conc \<le> 0))
     \<and> (\<forall>i. sl_phase s i \<noteq> NotStarted \<longrightarrow> sl_made s)
     \<and> (\<forall>i. sl_phase s i = Refused \<longrightarrow> i \<in> sl_cancelled s \<and> 0 < conc)
     \<and> (\<forall>i b. sl_phase s i = Running (Drain b) \<longrightarrow> sl_sem s \<noteq> None)"

lemma holders_to_phase:
  "holders (to_phase i p s) = (if p = Running (Drain False) then insert i (holders s) else holders s - {i})"
  by (auto simp: holders_def to_phase_def)

lemma holders_other [simp]:
  "holders (s\<lparr>sl_sem := m\<rparr>) = holders s" "holders (s\<lparr>sl_made := b\<rparr>) = holders s" "holders (s\<lparr>sl_cancelled := C\<rparr>) = holders s"
  "holders (make_sem conc s) = holders s"
  by (auto simp: holders_def make_sem_def)

lemma to_phase_sel [simp]:
  "sl_sem (to_phase i p s) = sl_sem s" "sl_made (to_phase i p s) = sl_made s"
  "sl_cancelled (to_phase i p s) = sl_cancelled s" "sl_phase (to_phase i p s) = (sl_phase s)(i := p)"
  by (simp_all add: to_phase_def)

lemma make_sem_sel [simp]:
  "sl_made (make_sem conc s)" "sl_phase (make_sem conc s) = sl_phase s"
  "sl_cancelled (make_sem conc s) = sl_cancelled s"
  by (simp_all add: make_sem_def)

lemma slots_inv_step: "slot_step conc s s' \<Longrightarrow> slots_inv conc s \<Longrightarrow> slots_inv conc s'"
proof (induction rule: slot_step.induct)
  case (enter s i)
  have "i \<notin> holders s" using enter(1) by (simp add: holders_def)
  then have same: "holders s - {i} = holders s" by simp
  show ?case
  proof (cases "sl_made s")
    case True
    then show ?thesis using enter same by (auto simp: slots_inv_def holders_to_phase make_sem_def)
  next
    case False
    then have "holders s = {}" "\<forall>i. sl_phase s i = NotStarted"
      using enter(2) by (auto simp: slots_inv_def split: option.splits)
    then show ?thesis using False same by (auto simp: slots_inv_def holders_to_phase make_sem_def)
  qed
next
  case (unbounded s i)
  then show ?case by (auto simp: slots_inv_def holders_to_phase)
next
  case (take s i n)
  have "i \<notin> holders s" using take(1) by (simp add: holders_def)
  then show ?case using take by (auto simp: slots_inv_def holders_to_phase)
next
  case (refuse s i n)
  have "i \<notin> holders s" using refuse(1) by (simp add: holders_def)
  then show ?case using refuse by (auto simp: slots_inv_def holders_to_phase)
next
  case (cancel s i)
  then show ?case by (auto simp: slots_inv_def split: option.splits)
next
  case (give_back s i n)
  have "i \<in> holders s" using give_back(1) by (simp add: holders_def)
  then show ?case using give_back by (auto simp: slots_inv_def holders_to_phase)
next
  case (give_back_again s i r)
  then show ?case by simp
next
  case (leave s i r)
  have "i \<notin> holders s" using leave(1,2) by (simp add: holders_def)
  then show ?case using leave by (auto simp: slots_inv_def holders_to_phase split: option.splits)
qed

lemma slots_reach_inv: "slots_reach conc s \<Longrightarrow> slots_inv conc s"
proof (induction rule: slots_reach.induct)
  case none
  then show ?case by (simp add: slots_inv_def no_renders_def holders_def)
next
  case (more s s')
  then show ?case using slots_inv_step by blast
qed

section \<open>Properties\<close>


text \<open>Two renders and one slot: the first holds it, the second waits.\<close>

definition one_waiting :: slot_state where
  "one_waiting = \<lparr>sl_made = True, sl_sem = Some 1,
     sl_phase = (\<lambda>_. NotStarted)(0 := Acquiring, 1 := Acquiring, 0 := Running (Drain False)), sl_cancelled = {}\<rparr>"

lemma one_waiting_reach: "slots_reach 1 one_waiting"
proof -
  let ?a = "to_phase 0 Acquiring (make_sem 1 no_renders)"
  let ?b = "to_phase 1 Acquiring (make_sem 1 ?a)"
  let ?c = "to_phase 0 (Running (Drain False)) (?b\<lparr>sl_sem := Some (Suc 0)\<rparr>)"
  have "slots_reach 1 ?a" by (rule slots_reach.more [OF slots_reach.none slot_step.enter]) (simp add: no_renders_def)
  then have "slots_reach 1 ?b" by (rule slots_reach.more [OF _ slot_step.enter]) (simp add: no_renders_def)
  then have "slots_reach 1 ?c"
    by (rule slots_reach.more [OF _ slot_step.take]) (simp_all add: no_renders_def make_sem_def)
  moreover have "?c = one_waiting" by (simp add: one_waiting_def to_phase_def make_sem_def no_renders_def)
  ultimately show ?thesis by simp
qed


end
