(* ===== verification/ChartCache.thy ===== *)
theory ChartCache
  imports Objects "HOL-Library.AList"
begin

text \<open>
  The chart archive cache (\<open>internal/utils/chart_cache.go\<close>). A \<open>get\<close> holds the lock twice: to look
  the key up, and, after a load outside the lock, to store the path. The interleavings of any number
  of calls are the runs of a step relation. The cache is an association list with distinct keys in
  the order of one iteration over the Go map; a store may find it in any order.
\<close>

section \<open>The operations\<close>

type_synonym chart_paths = "(string \<times> string) list"

definition default_chart_path_cache_size :: int where "default_chart_path_cache_size = 32"

definition chart_path_key :: "string \<Rightarrow> string \<Rightarrow> string \<Rightarrow> string" where
  "chart_path_key chart version hash = chart @ ''@'' @ version @ ''#'' @ hash"

text \<open>The eviction loop deletes the keys it ranges over until there is room.\<close>

fun evict :: "int \<Rightarrow> chart_paths \<Rightarrow> chart_paths" where
  "evict mx [] = []"
| "evict mx (p # ps) = (if int (length ps) < mx then ps else evict mx ps)"

definition store_path :: "int \<Rightarrow> chart_paths \<Rightarrow> string \<Rightarrow> string \<Rightarrow> chart_paths" where
  "store_path mx paths key path =
     AList.update key path (if mx \<le> int (length paths) then evict mx paths else paths)"

text \<open>A call of \<open>get\<close> that nothing interrupts.\<close>

definition get_path :: "int \<Rightarrow> chart_paths \<Rightarrow> string \<Rightarrow> go_error + string \<Rightarrow> (go_error + string) \<times> chart_paths" where
  "get_path mx paths key loaded =
     (case map_of paths key of
        Some path \<Rightarrow> (Inr path, paths)
      | None \<Rightarrow> (case loaded of Inl err \<Rightarrow> (Inl err, paths) | Inr path \<Rightarrow> (Inr path, store_path mx paths key path)))"

text \<open>A caller: it has not looked yet, is loading, or has returned.\<close>

datatype caller = Waiting string | Loading string | Returned string "go_error + string"

record cache_state =
  cs_paths :: chart_paths
  cs_callers :: "nat \<Rightarrow> caller"
  cs_loads :: "(string \<times> (go_error + string)) list"  \<comment> \<open>the loads that were made, and their results\<close>

inductive get_step :: "int \<Rightarrow> cache_state \<Rightarrow> cache_state \<Rightarrow> bool" for mx where
  hit: "cs_callers s i = Waiting key \<Longrightarrow> map_of (cs_paths s) key = Some path
    \<Longrightarrow> get_step mx s (s\<lparr>cs_callers := (cs_callers s)(i := Returned key (Inr path))\<rparr>)"
| miss: "cs_callers s i = Waiting key \<Longrightarrow> map_of (cs_paths s) key = None
    \<Longrightarrow> get_step mx s (s\<lparr>cs_callers := (cs_callers s)(i := Loading key)\<rparr>)"
| load_failed: "cs_callers s i = Loading key
    \<Longrightarrow> get_step mx s (s\<lparr>cs_callers := (cs_callers s)(i := Returned key (Inl err)),
                         cs_loads := cs_loads s @ [(key, Inl err)]\<rparr>)"
| loaded: "cs_callers s i = Loading key \<Longrightarrow> mset order = mset (cs_paths s)
    \<Longrightarrow> get_step mx s (s\<lparr>cs_paths := store_path mx order key path,
                         cs_callers := (cs_callers s)(i := Returned key (Inr path)),
                         cs_loads := cs_loads s @ [(key, Inr path)]\<rparr>)"

definition new_chart_path_cache :: "(nat \<Rightarrow> string) \<Rightarrow> cache_state" where
  "new_chart_path_cache keys = \<lparr>cs_paths = [], cs_callers = Waiting \<circ> keys, cs_loads = []\<rparr>"

inductive reachable :: "int \<Rightarrow> (nat \<Rightarrow> string) \<Rightarrow> cache_state \<Rightarrow> bool" for mx keys where
  start: "reachable mx keys (new_chart_path_cache keys)"
| step: "reachable mx keys s \<Longrightarrow> get_step mx s s' \<Longrightarrow> reachable mx keys s'"

inductive_cases get_stepE: "get_step mx s s'"

section \<open>Eviction\<close>

lemma evict_suffix: "suffix (evict mx ps) ps"
  by (induction mx ps rule: evict.induct) (auto simp: suffix_Cons)

lemma evict_room: "mx \<le> int (length ps) \<Longrightarrow> 0 < mx \<Longrightarrow> int (length (evict mx ps)) < mx"
  by (induction mx ps rule: evict.induct) auto

lemma evict_all: "mx \<le> 0 \<Longrightarrow> evict mx ps = []"
  by (induction mx ps rule: evict.induct) auto

lemma evict_subset: "set (evict mx ps) \<subseteq> set ps"
  using evict_suffix set_mono_suffix by blast

lemma distinct_suffix_map: "suffix ps qs \<Longrightarrow> distinct (map f qs) \<Longrightarrow> distinct (map f ps)"
  by (auto simp: suffix_def)

lemma distinct_evict: "distinct (map fst ps) \<Longrightarrow> distinct (map fst (evict mx ps))"
  using evict_suffix distinct_suffix_map by blast

lemma distinct_store: "distinct (map fst ps) \<Longrightarrow> distinct (map fst (store_path mx ps k p))"
  by (simp add: store_path_def distinct_evict distinct_update)

lemma length_update: "length (AList.update k p ps) \<le> Suc (length ps)"
  by (induction ps) auto

lemma store_bound: "int (length ps) \<le> max 1 mx \<Longrightarrow> int (length (store_path mx ps k p)) \<le> max 1 mx"
proof -
  assume "int (length ps) \<le> max 1 mx"
  let ?ps = "if mx \<le> int (length ps) then evict mx ps else ps"
  have "int (length ?ps) + 1 \<le> max 1 mx"
    using evict_room [of mx ps] evict_all [of mx ps] by (cases "0 < mx") auto
  then show ?thesis using length_update [of k p ?ps] unfolding store_path_def by linarith
qed

lemma lookup_store [simp]: "map_of (store_path mx ps k p) k = Some p"
  by (simp add: store_path_def update_conv')

lemma store_mem: "(k', p') \<in> set (store_path mx ps k p) \<Longrightarrow> (k', p') = (k, p) \<or> (k', p') \<in> set ps"
proof -
  have update: "(k', p') \<in> set (AList.update k p qs) \<Longrightarrow> (k', p') = (k, p) \<or> (k', p') \<in> set qs" for qs
    by (induction qs) (auto split: if_splits)
  let ?qs = "if mx \<le> int (length ps) then evict mx ps else ps"
  have "set ?qs \<subseteq> set ps" using evict_subset by simp
  then show "(k', p') \<in> set (store_path mx ps k p) \<Longrightarrow> (k', p') = (k, p) \<or> (k', p') \<in> set ps"
    using update [of ?qs] unfolding store_path_def by blast
qed

section \<open>The contract of a cache\<close>

text \<open>
  What a client of a cache relies on: it finds what it stored, and never finds for a key anything
  that was not stored for that key.
\<close>

locale lookup_cache =
  fixes look :: "'c \<Rightarrow> string \<Rightarrow> string option" and put :: "'c \<Rightarrow> string \<Rightarrow> string \<Rightarrow> 'c"
    and wf :: "'c \<Rightarrow> bool"
  assumes put_wf: "wf c \<Longrightarrow> wf (put c k p)"
    and look_put: "look (put c k p) k = Some p"
    and look_other: "wf c \<Longrightarrow> k' \<noteq> k \<Longrightarrow> look (put c k p) k' = Some p' \<Longrightarrow> look c k' = Some p'"
begin

text \<open>A cached lookup: the cache answers, or the load does and is remembered.\<close>

definition fetch :: "'c \<Rightarrow> string \<Rightarrow> go_error + string \<Rightarrow> (go_error + string) \<times> 'c" where
  "fetch c k loaded =
     (case look c k of
        Some p \<Rightarrow> (Inr p, c)
      | None \<Rightarrow> (case loaded of Inl err \<Rightarrow> (Inl err, c) | Inr p \<Rightarrow> (Inr p, put c k p)))"

lemma fetch_wf: "wf c \<Longrightarrow> fetch c k l = (r, c') \<Longrightarrow> wf c'"
  by (auto simp: fetch_def put_wf split: option.splits sum.splits)

lemma fetch_remembers: "fetch c k l = (Inr p, c') \<Longrightarrow> look c' k = Some p"
  by (auto simp: fetch_def look_put split: option.splits sum.splits)

lemma fetch_fails: "fetch c k l = (Inl err, c') \<Longrightarrow> c' = c \<and> look c k = None \<and> l = Inl err"
  by (auto simp: fetch_def split: option.splits sum.splits)

text \<open>A sound cache stays sound: \<open>Q k p\<close> is any property of what loads return.\<close>

lemma fetch_sound:
  assumes "wf c" "\<And>k p. look c k = Some p \<Longrightarrow> Q k p" "\<And>p. l = Inr p \<Longrightarrow> Q k p" "fetch c k l = (r, c')"
  shows "(\<forall>p. r = Inr p \<longrightarrow> Q k p) \<and> (\<forall>k' p. look c' k' = Some p \<longrightarrow> Q k' p)"
proof (cases "look c k")
  case (Some p)
  then show ?thesis using assms by (auto simp: fetch_def)
next
  case None
  show ?thesis
  proof (cases l)
    case (Inl e)
    then show ?thesis using None assms by (auto simp: fetch_def)
  next
    case (Inr p)
    then have out: "r = Inr p" "c' = put c k p" using None assms(4) by (auto simp: fetch_def)
    have "Q k' p'" if "look c' k' = Some p'" for k' p'
      using that out(2) look_put look_other [OF assms(1)] assms(2,3) Inr by (cases "k' = k") auto
    then show ?thesis using out assms(3) Inr by simp
  qed
qed

end

interpretation chart_cache: lookup_cache map_of "store_path mx" "\<lambda>c. distinct (map fst c)" for mx
proof
  fix c k p k' p'
  show "distinct (map fst c) \<Longrightarrow> distinct (map fst (store_path mx c k p))" by (rule distinct_store)
  show "map_of (store_path mx c k p) k = Some p" by simp
  assume d: "distinct (map fst c)" and "k' \<noteq> k" "map_of (store_path mx c k p) k' = Some p'"
  then have "(k', p') \<in> set c" using store_mem by (metis map_of_SomeD prod.inject)
  then show "map_of c k' = Some p'" using d by simp
qed

lemma get_path_fetch: "get_path mx = chart_cache.fetch mx"
  by (intro ext) (simp add: get_path_def chart_cache.fetch_def)

section \<open>Invariants of every interleaving\<close>

definition loads_of :: "cache_state \<Rightarrow> string \<Rightarrow> (go_error + string) set" where
  "loads_of s k = {r. (k, r) \<in> set (cs_loads s)}"

definition cache_inv :: "int \<Rightarrow> cache_state \<Rightarrow> bool" where
  "cache_inv mx s \<longleftrightarrow> int (length (cs_paths s)) \<le> max 1 mx \<and> distinct (map fst (cs_paths s))
     \<and> (\<forall>k p. (k, p) \<in> set (cs_paths s) \<longrightarrow> Inr p \<in> loads_of s k)
     \<and> (\<forall>i k r. cs_callers s i = Returned k r \<longrightarrow> r \<in> loads_of s k)"

lemma cache_inv_step: "get_step mx s s' \<Longrightarrow> cache_inv mx s \<Longrightarrow> cache_inv mx s'"
proof (induction rule: get_step.induct)
  case (hit s i key path)
  then show ?case by (auto simp: cache_inv_def loads_of_def dest: map_of_SomeD)
next
  case (miss s i key)
  then show ?case by (auto simp: cache_inv_def loads_of_def)
next
  case (load_failed s i key err)
  then show ?case by (auto simp: cache_inv_def loads_of_def)
next
  case (loaded s i key order path)
  have same: "length order = length (cs_paths s)" "set order = set (cs_paths s)"
    using loaded(2) by (metis size_mset) (metis loaded(2) set_mset_mset)
  have "distinct (map fst order)" using loaded(2,3) unfolding cache_inv_def
    by (metis mset_eq_imp_distinct_iff mset_map)
  then have d: "distinct (map fst (store_path mx order key path))" by (rule distinct_store)
  have b: "int (length (store_path mx order key path)) \<le> max 1 mx"
    using loaded(3) same by (intro store_bound) (simp add: cache_inv_def)
  have "(k, p) = (key, path) \<or> (k, p) \<in> set (cs_paths s)" if "(k, p) \<in> set (store_path mx order key path)" for k p
    using store_mem [OF that] same by simp
  then show ?case using loaded(3) d b by (fastforce simp: cache_inv_def loads_of_def)
qed

lemma reachable_inv: "reachable mx keys s \<Longrightarrow> cache_inv mx s"
proof (induction rule: reachable.induct)
  case start
  then show ?case by (auto simp: cache_inv_def new_chart_path_cache_def)
next
  case (step s s')
  then show ?case using cache_inv_step by blast
qed

lemma callers_keep_keys:
  "reachable mx keys s \<Longrightarrow> cs_callers s i \<in> {Waiting (keys i), Loading (keys i)} \<union> range (Returned (keys i))"
proof (induction rule: reachable.induct)
  case (step s s')
  then show ?case by (elim get_stepE) (auto split: if_splits)
qed (simp add: new_chart_path_cache_def)

text \<open>The key separates credentials: the hash of a client's secrets is hexadecimal.\<close>

lemma key_separates:
  assumes "chart_path_key c v h = chart_path_key c' v' h'" "CHR ''#'' \<notin> set h" "CHR ''#'' \<notin> set h'"
  shows "h = h' \<and> c @ ''@'' @ v = c' @ ''@'' @ v'"
proof -
  have last_part: "takeWhile (\<lambda>x. x \<noteq> CHR ''#'') (rev (a @ ''#'' @ h)) = rev h" if "CHR ''#'' \<notin> set h" for a h
    using that by (auto simp: takeWhile_tail takeWhile_eq_all_conv)
  have "(c @ ''@'' @ v) @ ''#'' @ h = (c' @ ''@'' @ v') @ ''#'' @ h'"
    using assms(1) by (simp add: chart_path_key_def)
  moreover from this have "rev h = rev h'"
    using last_part [OF assms(2)] last_part [OF assms(3)] by metis
  ultimately show ?thesis by simp
qed

section \<open>Properties\<close>

text \<open>
  C34. The shared cache in every interleaving of calls. It never holds more than its maximum (or one
  path, where that is not positive), and each key once. A call for a key returns what a load for that
  very key returned, by this or another caller, and a failed load is never found by another. Since
  the key ends in the hash of the credentials, an archive fetched with some credentials is only ever
  handed to callers with the same ones.
\<close>
theorem chart_cache_sound:
  assumes "reachable mx keys s" "cs_callers s i = Returned k (Inr path)"
    and "k = chart_path_key c v h" "CHR ''#'' \<notin> set h"
  shows "int (length (cs_paths s)) \<le> max 1 mx \<and> distinct (map fst (cs_paths s))
    \<and> k = keys i \<and> (k, Inr path) \<in> set (cs_loads s)
    \<and> (\<forall>c' v' h'. k = chart_path_key c' v' h' \<longrightarrow> CHR ''#'' \<notin> set h' \<longrightarrow> h' = h)
    \<and> (\<forall>k' p. (k', p) \<in> set (cs_paths s) \<longrightarrow> (k', Inr p) \<in> set (cs_loads s))"
proof -
  have inv: "cache_inv mx s" using assms(1) by (rule reachable_inv)
  have "k = keys i" using callers_keep_keys [OF assms(1), of i] assms(2) by auto
  moreover have "h' = h" if "k = chart_path_key c' v' h'" "CHR ''#'' \<notin> set h'" for c' v' h'
    using key_separates [OF _ that(2) assms(4)] that(1) assms(3) by metis
  ultimately show ?thesis using inv assms(2) unfolding cache_inv_def loads_of_def by blast
qed

lemma two_callers_run:
  "reachable 32 (\<lambda>_. ''c@1#s'') \<lparr>cs_paths = [(''c@1#s'', ''/b'')],
     cs_callers = (Waiting \<circ> (\<lambda>_. ''c@1#s''))(0 := Loading ''c@1#s'', 1 := Loading ''c@1#s'',
       0 := Returned ''c@1#s'' (Inr ''/a''), 1 := Returned ''c@1#s'' (Inr ''/b'')),
     cs_loads = [(''c@1#s'', Inr ''/a''), (''c@1#s'', Inr ''/b'')]\<rparr>"
proof -
  let ?k = "''c@1#s''"
  let ?init = "Waiting \<circ> (\<lambda>_::nat. ?k)"
  have "reachable 32 (\<lambda>_. ?k) \<lparr>cs_paths = [], cs_callers = ?init, cs_loads = []\<rparr>"
    using reachable.start [of 32 "\<lambda>_. ?k"] by (simp add: new_chart_path_cache_def)
  then have "reachable 32 (\<lambda>_. ?k) \<lparr>cs_paths = [], cs_callers = ?init(0 := Loading ?k), cs_loads = []\<rparr>"
    by (rule reachable.step) (use get_step.miss [of "\<lparr>cs_paths = [], cs_callers = ?init, cs_loads = []\<rparr>" 0 ?k] in simp)
  then have "reachable 32 (\<lambda>_. ?k) \<lparr>cs_paths = [], cs_callers = ?init(0 := Loading ?k, 1 := Loading ?k), cs_loads = []\<rparr>"
    by (rule reachable.step) (use get_step.miss [of "\<lparr>cs_paths = [], cs_callers = ?init(0 := Loading ?k), cs_loads = []\<rparr>" 1 ?k] in simp)
  then have "reachable 32 (\<lambda>_. ?k) \<lparr>cs_paths = [(?k, ''/a'')],
      cs_callers = ?init(0 := Loading ?k, 1 := Loading ?k, 0 := Returned ?k (Inr ''/a'')), cs_loads = [(?k, Inr ''/a'')]\<rparr>"
    by (rule reachable.step)
      (use get_step.loaded [of "\<lparr>cs_paths = [], cs_callers = ?init(0 := Loading ?k, 1 := Loading ?k), cs_loads = []\<rparr>" 0 ?k "[]" 32 "''/a''"]
        in \<open>simp add: store_path_def\<close>)
  then show ?thesis
    by (rule reachable.step)
      (use get_step.loaded [of "\<lparr>cs_paths = [(?k, ''/a'')], cs_callers = ?init(0 := Loading ?k, 1 := Loading ?k,
          0 := Returned ?k (Inr ''/a'')), cs_loads = [(?k, Inr ''/a'')]\<rparr>" 1 ?k "[(?k, ''/a'')]" 32 "''/b''"]
        in \<open>simp add: store_path_def\<close>)
qed

theorem chart_cache_sound_witness:
  "\<exists>s. reachable 32 (\<lambda>_. ''c@1#s'') s \<and> cs_callers s 1 = Returned ''c@1#s'' (Inr ''/b'')
     \<and> length (filter (\<lambda>(k, r). k = ''c@1#s'') (cs_loads s)) = 2 \<and> length (cs_paths s) \<le> 32"
proof -
  let ?s = "\<lparr>cs_paths = [(''c@1#s'', ''/b'')],
     cs_callers = (Waiting \<circ> (\<lambda>_. ''c@1#s''))(0 := Loading ''c@1#s'', 1 := Loading ''c@1#s'',
       0 := Returned ''c@1#s'' (Inr ''/a''), 1 := Returned ''c@1#s'' (Inr ''/b'')),
     cs_loads = [(''c@1#s'', Inr ''/a''), (''c@1#s'', Inr ''/b'')]\<rparr>"
  have "int (length (cs_paths ?s)) \<le> max 1 32"
    by (rule chart_cache_sound [OF two_callers_run, where i = 1 and k = "''c@1#s''" and path = "''/b''" and c = "''c''"
          and v = "''1''" and h = "''s''", THEN conjunct1]) (simp_all add: chart_path_key_def)
  then show ?thesis using two_callers_run by (intro exI [of _ ?s]) simp
qed

end
