(* ===== verification/HelmClient.thy ===== *)
theory HelmClient
  imports Kube ChartCache
begin

text \<open>
  The Helm client (\<open>internal/utils/helm.go\<close>). The Helm SDK, \<open>url.Parse\<close>, \<open>Secrets.Find\<close> of
  \<open>kdex.dev/crds\<close> and the digest of the secrets are the fields of \<open>sdk\<close>; an SDK answer may depend on
  all the calls made so far. \<open>InstallOrUpgrade\<close> and \<open>ShowChart\<close> hold the client's lock for their whole
  run, so a run is one function of the client's world. The archive cache is the one all clients share.
\<close>

section \<open>The SDK\<close>

record registry_options =
  ro_plain_http :: bool
  ro_skip_verify :: bool
  ro_credential :: "(string \<times> string) option"   \<comment> \<open>user and password\<close>

record helm_action =
  ac_release :: string
  ac_namespace :: string
  ac_skip_crds :: bool
  ac_hook_only :: bool
  ac_timeout :: int
  ac_labels :: "(string \<times> string) list"
  ac_version :: string
  ac_max_history :: "nat option"               \<comment> \<open>none: the SDK's default, unlimited\<close>

datatype sdk_call =
    ReleasesLast string
  | LocateChart string string
  | LoadChart string
  | RunInstall helm_action chart_values
  | RunUpgrade helm_action chart_values
  | RunShow string string
  | RunList "(string \<times> string) list"
  | RunUninstall string int
  | WriteRepositories "(string \<times> string) list"

record helm_world =
  hw_log :: "sdk_call list"
  hw_charts :: chart_paths                      \<comment> \<open>\<open>sharedChartPaths\<close>\<close>
  hw_registry :: "registry_options option"      \<comment> \<open>\<open>actionConfig.RegistryClient\<close>\<close>

record sdk =
  sk_parse_url :: "string \<Rightarrow> go_error + string \<times> string"          \<comment> \<open>host and path\<close>
  sk_find :: "secret list \<Rightarrow> (secret \<Rightarrow> bool) \<Rightarrow> secret option"
  sk_hash :: "secret list \<Rightarrow> string"
  sk_new_registry :: "registry_options \<Rightarrow> go_error option"
  sk_last :: "sdk_call list \<Rightarrow> string \<Rightarrow> go_error option"
  sk_locate :: "sdk_call list \<Rightarrow> string \<Rightarrow> string \<Rightarrow> go_error + string"
  sk_load :: "sdk_call list \<Rightarrow> string \<Rightarrow> go_error option"
  sk_install :: "sdk_call list \<Rightarrow> helm_action \<Rightarrow> chart_values \<Rightarrow> go_error option"
  sk_upgrade :: "sdk_call list \<Rightarrow> helm_action \<Rightarrow> chart_values \<Rightarrow> go_error option"
  sk_show :: "sdk_call list \<Rightarrow> string \<Rightarrow> go_error + string"
  sk_list :: "sdk_call list \<Rightarrow> (string \<times> string) list \<Rightarrow> go_error + (go_error + string) list"
  sk_uninstall :: "sdk_call list \<Rightarrow> string \<Rightarrow> int \<Rightarrow> go_error option"
  sk_init :: "string \<Rightarrow> string \<Rightarrow> go_error option"
  sk_load_repos :: "go_error + (string \<times> string) list"              \<comment> \<open>names and URLs\<close>
  sk_repos_missing :: "go_error \<Rightarrow> bool"
  sk_write_repos :: "(string \<times> string) list \<Rightarrow> go_error option"

record client =
  cl_namespace :: string
  cl_secrets :: "secret list"

definition log_sdk :: "sdk_call \<Rightarrow> helm_world \<Rightarrow> helm_world" where
  "log_sdk c w = w\<lparr>hw_log := hw_log w @ [c]\<rparr>"

definition five_minutes :: int where "five_minutes = 300000000000"

definition default_max_history :: nat where "default_max_history = 10"

section \<open>Making a client\<close>

definition new_helm_client :: "sdk \<Rightarrow> string \<Rightarrow> string \<Rightarrow> secret list \<Rightarrow> go_error + client" where
  "new_helm_client K helm_driver ns secrets =
     (case sk_init K ns (if helm_driver = [] then ''secret'' else helm_driver) of
        Some err \<Rightarrow> Inl (wrap_error ''failed to init action config'' err)
      | None \<Rightarrow> Inr \<lparr>cl_namespace = ns, cl_secrets = secrets\<rparr>)"

text \<open>The repository file is shared by all clients of the process; a name that is there is left alone.\<close>

definition add_repository :: "sdk \<Rightarrow> string \<Rightarrow> string \<Rightarrow> helm_world \<Rightarrow> go_error option \<times> helm_world" where
  "add_repository K name url w =
     (case (case sk_load_repos K of
              Inl err \<Rightarrow> if sk_repos_missing K err then Inr [] else Inl err
            | Inr f \<Rightarrow> Inr f) of
        Inl err \<Rightarrow> (Some (wrap_error ''failed to load repository file'' err), w)
      | Inr f \<Rightarrow>
          if name \<in> fst ` set f then (None, w)
          else let f1 = f @ [(name, url)]
               in (map_option (wrap_error ''failed to write repository file'') (sk_write_repos K f1),
                   log_sdk (WriteRepositories f1) w))"

section \<open>Binding the registry\<close>

text \<open>The text from its first double slash on.\<close>

fun from_slashes :: "string \<Rightarrow> string option" where
  "from_slashes [] = None"
| "from_slashes (c # cs) = (if has_prefix (c # cs) ''//'' then Some (c # cs) else from_slashes cs)"

definition registry_matches :: "string \<Rightarrow> string \<Rightarrow> bool" where
  "registry_matches reg repo \<longleftrightarrow> repo \<noteq> [] \<and> (reg = repo \<or> has_prefix reg (repo @ ''/''))"

definition secret_text :: "secret \<Rightarrow> string \<Rightarrow> string" where
  "secret_text s k = (case sec_data (o_spec s) k of None \<Rightarrow> [] | Some v \<Rightarrow> v)"

definition secret_repository :: "secret \<Rightarrow> string" where
  "secret_repository s =
     (let repo = secret_text s ''repository''
      in case from_slashes repo of None \<Rightarrow> repo | Some r \<Rightarrow> drop 2 r)"

definition is_helm_secret :: "string \<Rightarrow> secret \<Rightarrow> bool" where
  "is_helm_secret reg s \<longleftrightarrow> om_annotations (o_meta s) ''kdex.dev/secret-type'' = Some ''helm''
     \<and> registry_matches reg (secret_repository s)"

definition options_of :: "secret option \<Rightarrow> registry_options" where
  "options_of m =
     (case m of
        None \<Rightarrow> \<lparr>ro_plain_http = False, ro_skip_verify = False, ro_credential = None\<rparr>
      | Some s \<Rightarrow>
          let plain = (secret_text s ''plainHTTP'' = ''true'')
          in \<lparr>ro_plain_http = plain, ro_skip_verify = plain \<or> secret_text s ''insecure'' = ''true'',
              ro_credential = (if secret_text s ''username'' \<noteq> [] \<and> secret_text s ''password'' \<noteq> []
                then Some (secret_text s ''username'', secret_text s ''password'') else None)\<rparr>)"

definition registry_reference :: "sdk \<Rightarrow> string \<Rightarrow> go_error + string" where
  "registry_reference K chart =
     (let reg = (case from_slashes chart of None \<Rightarrow> chart | Some r \<Rightarrow> r);
          reg1 = (if has_prefix reg ''//'' then reg else ''//'' @ reg)
      in case sk_parse_url K reg1 of
           Inl err \<Rightarrow> Inl err
         | Inr (host, path) \<Rightarrow>
             if host = [] then Inl (plain_error (''could not identify host from chartName: '' @ chart))
             else Inr (host @ path))"

definition registry_bind :: "sdk \<Rightarrow> client \<Rightarrow> chart_spec \<Rightarrow> helm_world \<Rightarrow> go_error option \<times> helm_world" where
  "registry_bind K c spec w =
     (case registry_reference K (cs_chart spec) of
        Inl err \<Rightarrow> (Some err, w)
      | Inr reg \<Rightarrow>
          let options = options_of (sk_find K (cl_secrets c) (is_helm_secret reg))
          in case sk_new_registry K options of
               Some err \<Rightarrow> (Some (wrap_error ''failed to create registry client'' err), w)
             | None \<Rightarrow> (None, w\<lparr>hw_registry := Some options\<rparr>))"

section \<open>Install and upgrade\<close>

definition release_exists :: "sdk \<Rightarrow> string \<Rightarrow> helm_world \<Rightarrow> (go_error + bool) \<times> helm_world" where
  "release_exists K name w =
     ((case sk_last K (hw_log w) name of
         None \<Rightarrow> Inr True
       | Some err \<Rightarrow>
           if contains_str (err_text err) ''not found'' \<or> contains_str (err_text err) ''has no deployed releases''
           then Inr False else Inl err), log_sdk (ReleasesLast name) w)"

definition locate_chart :: "sdk \<Rightarrow> client \<Rightarrow> chart_spec \<Rightarrow> helm_world \<Rightarrow> (go_error + string) \<times> helm_world" where
  "locate_chart K c spec w =
     (let key = chart_path_key (cs_chart spec) (cs_version spec) (sk_hash K (cl_secrets c))
      in case map_of (hw_charts w) key of
           Some path \<Rightarrow> (Inr path, w)
         | None \<Rightarrow>
             let loaded = sk_locate K (hw_log w) (cs_chart spec) (cs_version spec);
                 (r, charts) = get_path default_chart_path_cache_size (hw_charts w) key loaded
             in (r, (log_sdk (LocateChart (cs_chart spec) (cs_version spec)) w)\<lparr>hw_charts := charts\<rparr>))"

text \<open>What \<open>install\<close> and \<open>upgrade\<close> share: locate the archive, load it, run the action.\<close>

definition run_action :: "sdk \<Rightarrow> client \<Rightarrow> chart_spec \<Rightarrow> string \<Rightarrow> (sdk_call list \<Rightarrow> go_error option) \<Rightarrow> sdk_call
    \<Rightarrow> helm_world \<Rightarrow> go_error option \<times> helm_world" where
  "run_action K c spec verb run logged w =
     (case locate_chart K c spec w of
        (Inl err, w1) \<Rightarrow> (Some (wrap_error (''failed to locate chart '' @ cs_chart spec) err), w1)
      | (Inr path, w1) \<Rightarrow>
          let w2 = log_sdk (LoadChart path) w1
          in case sk_load K (hw_log w1) path of
               Some err \<Rightarrow> (Some (wrap_error (''failed to load chart '' @ cs_chart spec) err), w2)
             | None \<Rightarrow>
                 (map_option (wrap_error (''failed to '' @ verb @ '' chart '' @ cs_chart spec)) (run (hw_log w2)),
                  log_sdk logged w2))"

definition release_action :: "chart_spec \<Rightarrow> nat option \<Rightarrow> helm_action" where
  "release_action spec history =
     \<lparr>ac_release = cs_release spec, ac_namespace = cs_namespace spec, ac_skip_crds = \<not> cs_upgrade_crds spec,
      ac_hook_only = True, ac_timeout = five_minutes, ac_labels = cs_labels spec, ac_version = cs_version spec,
      ac_max_history = history\<rparr>"

definition install_chart :: "sdk \<Rightarrow> client \<Rightarrow> chart_spec \<Rightarrow> helm_world \<Rightarrow> go_error option \<times> helm_world" where
  "install_chart K c spec =
     (let act = release_action spec None
      in run_action K c spec ''install'' (\<lambda>cs. sk_install K cs act (cs_values spec)) (RunInstall act (cs_values spec)))"

definition upgrade_chart :: "sdk \<Rightarrow> client \<Rightarrow> chart_spec \<Rightarrow> helm_world \<Rightarrow> go_error option \<times> helm_world" where
  "upgrade_chart K c spec =
     (let act = release_action spec (Some default_max_history)
      in run_action K c spec ''upgrade'' (\<lambda>cs. sk_upgrade K cs act (cs_values spec)) (RunUpgrade act (cs_values spec)))"

definition client_install_or_upgrade :: "sdk \<Rightarrow> client \<Rightarrow> chart_spec \<Rightarrow> helm_world \<Rightarrow> go_error option \<times> helm_world" where
  "client_install_or_upgrade K c spec w =
     (case registry_bind K c spec w of
        (Some err, w1) \<Rightarrow> (Some err, w1)
      | (None, w1) \<Rightarrow>
          (case release_exists K (cs_release spec) w1 of
             (Inl err, w2) \<Rightarrow> (Some (wrap_error ''failed to check if release exists'' err), w2)
           | (Inr exists, w2) \<Rightarrow> if exists then upgrade_chart K c spec w2 else install_chart K c spec w2))"

section \<open>The other operations\<close>

definition show_chart :: "sdk \<Rightarrow> client \<Rightarrow> chart_spec \<Rightarrow> helm_world \<Rightarrow> (go_error + string) \<times> helm_world" where
  "show_chart K c spec w =
     (case registry_bind K c spec w of
        (Some err, w1) \<Rightarrow> (Inl err, w1)
      | (None, w1) \<Rightarrow>
          let w2 = log_sdk (LocateChart (cs_chart spec) (cs_version spec)) w1
          in case sk_locate K (hw_log w1) (cs_chart spec) (cs_version spec) of
               Inl err \<Rightarrow> (Inl (wrap_error (''failed to locate chart '' @ cs_chart spec) err), w2)
             | Inr path \<Rightarrow> (sk_show K (hw_log w2) path, log_sdk (RunShow (cs_chart spec) path) w2))"

fun release_names :: "(go_error + string) list \<Rightarrow> string list \<Rightarrow> go_error + string list" where
  "release_names [] names = Inr names"
| "release_names (Inl err # rs) names = Inl (wrap_error ''failed to read release'' err)"
| "release_names (Inr n # rs) names = release_names rs (names @ [n])"

definition client_list_releases :: "sdk \<Rightarrow> (string \<times> string) list \<Rightarrow> helm_world \<Rightarrow> (go_error + string list) \<times> helm_world" where
  "client_list_releases K match_labels w =
     ((case sk_list K (hw_log w) match_labels of
         Inl err \<Rightarrow> Inl (wrap_error ''failed to list releases'' err)
       | Inr rs \<Rightarrow> release_names rs []), log_sdk (RunList match_labels) w)"

definition client_uninstall :: "sdk \<Rightarrow> string \<Rightarrow> helm_world \<Rightarrow> go_error option \<times> helm_world" where
  "client_uninstall K name w =
     (map_option (wrap_error (''failed to uninstall release '' @ name)) (sk_uninstall K (hw_log w) name five_minutes),
      log_sdk (RunUninstall name five_minutes) w)"

section \<open>Facts\<close>

lemma registry_matches_boundary:
  "registry_matches reg repo \<longleftrightarrow> repo \<noteq> [] \<and> (reg = repo \<or> (\<exists>rest. reg = repo @ ''/'' @ rest))"
  by (auto simp: registry_matches_def has_prefix_iff)

lemma same_host:
  "registry_matches reg repo
     \<Longrightarrow> takeWhile (\<lambda>x. x \<noteq> CHR ''/'') reg = takeWhile (\<lambda>x. x \<noteq> CHR ''/'') repo"
  by (auto simp: registry_matches_boundary takeWhile_tail)

text \<open>A repository written with a trailing slash matches nothing below it.\<close>

lemma trailing_slash:
  assumes "registry_matches reg (repo @ ''/'')" "\<not> contains_str reg ''//''"
  shows "reg = repo @ ''/''"
  using assms by (auto simp: registry_matches_boundary contains_str_iff)

lemma registry_bind_log:
  "registry_bind K c spec w = (err, w') \<Longrightarrow> hw_log w' = hw_log w \<and> hw_charts w' = hw_charts w"
  by (auto simp: registry_bind_def Let_def split: sum.splits option.splits prod.splits)

lemma release_exists_log: "hw_log (snd (release_exists K n w)) = hw_log w @ [ReleasesLast n]"
  "hw_charts (snd (release_exists K n w)) = hw_charts w"
  by (simp_all add: release_exists_def log_sdk_def)

text \<open>An action that changes a release.\<close>

fun is_run :: "sdk_call \<Rightarrow> bool" where
  "is_run (RunInstall _ _) = True"
| "is_run (RunUpgrade _ _) = True"
| "is_run (RunUninstall _ _) = True"
| "is_run _ = False"

abbreviation chart_key :: "sdk \<Rightarrow> client \<Rightarrow> chart_spec \<Rightarrow> string" where
  "chart_key K c spec \<equiv> chart_path_key (cs_chart spec) (cs_version spec) (sk_hash K (cl_secrets c))"

lemma locate_chart_spec:
  assumes "locate_chart K c spec w = (r, w')"
  shows "\<exists>pre. hw_log w' = hw_log w @ pre \<and> list_all (Not \<circ> is_run) pre
    \<and> (\<forall>p. r = Inr p \<longrightarrow> map_of (hw_charts w') (chart_key K c spec) = Some p)
    \<and> (\<forall>e. r = Inl e \<longrightarrow> hw_charts w' = hw_charts w)"
proof (cases "map_of (hw_charts w) (chart_key K c spec)")
  case (Some p)
  then show ?thesis using assms by (intro exI [of _ "[]"]) (auto simp: locate_chart_def)
next
  case None
  let ?l = "sk_locate K (hw_log w) (cs_chart spec) (cs_version spec)"
  obtain r2 charts where g: "get_path default_chart_path_cache_size (hw_charts w) (chart_key K c spec) ?l = (r2, charts)"
    by (rule prod.exhaust)
  note f = g [unfolded get_path_fetch]
  have out: "r = r2" "hw_log w' = hw_log w @ [LocateChart (cs_chart spec) (cs_version spec)]" "hw_charts w' = charts"
    using assms None g by (auto simp: locate_chart_def log_sdk_def Let_def)
  have "map_of charts (chart_key K c spec) = Some p" if "r2 = Inr p" for p
    using chart_cache.fetch_remembers [OF f [unfolded that]] .
  moreover have "charts = hw_charts w" if "r2 = Inl e" for e
    using chart_cache.fetch_fails [OF f [unfolded that]] by blast
  ultimately show ?thesis using out by (intro exI [of _ "[LocateChart (cs_chart spec) (cs_version spec)]"]) auto
qed

lemma run_action_spec:
  assumes "run_action K c spec verb run logged w = (err, w')"
  shows "\<exists>pre. list_all (Not \<circ> is_run) pre \<and>
    (hw_log w' = hw_log w @ pre \<and> err \<noteq> None \<or>
     (\<exists>path. hw_log w' = hw_log w @ pre @ [LoadChart path, logged] \<and> (err = None) = (run (hw_log w @ pre @ [LoadChart path]) = None)
        \<and> map_of (hw_charts w') (chart_key K c spec) = Some path))"
proof -
  obtain r w1 where l: "locate_chart K c spec w = (r, w1)" by (rule prod.exhaust)
  obtain pre where pre: "hw_log w1 = hw_log w @ pre" "list_all (Not \<circ> is_run) pre"
    "\<And>p. r = Inr p \<Longrightarrow> map_of (hw_charts w1) (chart_key K c spec) = Some p"
    using locate_chart_spec [OF l] by blast
  show ?thesis
  proof (cases r)
    case (Inl e)
    then show ?thesis using assms l pre by (intro exI [of _ pre]) (auto simp: run_action_def)
  next
    case (Inr path)
    show ?thesis
    proof (cases "sk_load K (hw_log w1) path")
      case (Some e)
      then show ?thesis using assms l pre Inr
        by (intro exI [of _ "pre @ [LoadChart path]"]) (auto simp: run_action_def log_sdk_def Let_def)
    next
      case None
      then show ?thesis using assms l pre Inr
        by (intro exI [of _ pre]) (auto simp: run_action_def log_sdk_def Let_def)
    qed
  qed
qed

text \<open>The same after one lookup of the release, with the lookup counted among the earlier calls.\<close>

lemma run_logged:
  assumes "run_action K c spec verb run logged w = (err, w')" "hw_log w = log @ [ReleasesLast n]"
  shows "\<exists>pre. list_all (Not \<circ> is_run) pre \<and>
    (hw_log w' = log @ pre \<and> err \<noteq> None \<or>
     (\<exists>path. map_of (hw_charts w') (chart_key K c spec) = Some path \<and> hw_log w' = log @ pre @ [LoadChart path, logged]
        \<and> (err = None) = (run (log @ pre @ [LoadChart path]) = None)))"
proof -
  obtain pre where both: "list_all (Not \<circ> is_run) pre \<and>
    (hw_log w' = hw_log w @ pre \<and> err \<noteq> None \<or>
     (\<exists>path. hw_log w' = hw_log w @ pre @ [LoadChart path, logged] \<and> (err = None) = (run (hw_log w @ pre @ [LoadChart path]) = None)
        \<and> map_of (hw_charts w') (chart_key K c spec) = Some path))"
    using run_action_spec [OF assms(1)] by (rule exE)
  then show ?thesis using assms(2) by (intro exI [of _ "ReleasesLast n # pre"]) auto
qed

section \<open>Properties\<close>

text \<open>The documented behaviour of \<open>Secrets.Find\<close>: a secret it returns is one of the list that satisfies the test.\<close>

definition lawful_find :: "sdk \<Rightarrow> bool" where
  "lawful_find K \<longleftrightarrow> (\<forall>ss P s. sk_find K ss P = Some s \<longrightarrow> s \<in> set ss \<and> P s)"

text \<open>
  C35. Credentials are only offered to the registry they were issued for. Where binding the registry
  for a chart sets a user name and password, they are those of a Helm secret of this client whose
  repository is not empty, is the chart reference or a prefix of it that ends at a path boundary,
  and names the same host: a look-alike host that merely starts with the repository's name gets none.
\<close>
theorem credential_only_for_its_registry:
  assumes "registry_bind K c spec w = (None, w')" "hw_registry w' = Some options"
    and "ro_credential options = Some (user, password)"
    and "lawful_find K"
  shows "\<exists>s reg. s \<in> set (cl_secrets c) \<and> om_annotations (o_meta s) ''kdex.dev/secret-type'' = Some ''helm''
    \<and> user = secret_text s ''username'' \<and> password = secret_text s ''password''
    \<and> registry_reference K (cs_chart spec) = Inr reg \<and> secret_repository s \<noteq> []
    \<and> (reg = secret_repository s \<or> (\<exists>rest. reg = secret_repository s @ ''/'' @ rest))
    \<and> takeWhile (\<lambda>x. x \<noteq> CHR ''/'') reg = takeWhile (\<lambda>x. x \<noteq> CHR ''/'') (secret_repository s)"
proof -
  obtain reg where reg: "registry_reference K (cs_chart spec) = Inr reg"
    and options: "options = options_of (sk_find K (cl_secrets c) (is_helm_secret reg))"
    using assms(1,2) by (auto simp: registry_bind_def Let_def split: sum.splits option.splits)
  obtain s where s: "sk_find K (cl_secrets c) (is_helm_secret reg) = Some s"
    using assms(3) options by (cases "sk_find K (cl_secrets c) (is_helm_secret reg)") (auto simp: options_of_def)
  have m: "registry_matches reg (secret_repository s)"
    "om_annotations (o_meta s) ''kdex.dev/secret-type'' = Some ''helm''" "s \<in> set (cl_secrets c)"
    using assms(4) s unfolding lawful_find_def is_helm_secret_def by blast+
  have "user = secret_text s ''username''" "password = secret_text s ''password''"
    using assms(3) options s by (auto simp: options_of_def Let_def split: if_splits)
  then show ?thesis using reg m(2,3) same_host [OF m(1)] m(1) [unfolded registry_matches_boundary] by blast
qed

definition sample_sdk :: sdk where
  "sample_sdk = \<lparr>
     sk_parse_url = (\<lambda>u. Inr (takeWhile (\<lambda>c. c \<noteq> CHR ''/'') (drop 2 u), dropWhile (\<lambda>c. c \<noteq> CHR ''/'') (drop 2 u))),
     sk_find = (\<lambda>ss P. find P ss), sk_hash = (\<lambda>_. ''00''), sk_new_registry = (\<lambda>_. None),
     sk_last = (\<lambda>_ _. Some (plain_error ''release: not found'')), sk_locate = (\<lambda>_ _ _. Inr ''/charts/c.tgz''),
     sk_load = (\<lambda>_ _. None), sk_install = (\<lambda>_ _ _. None), sk_upgrade = (\<lambda>_ _ _. None),
     sk_show = (\<lambda>_ _. Inr []), sk_list = (\<lambda>_ _. Inr []), sk_uninstall = (\<lambda>_ _ _. None), sk_init = (\<lambda>_ _. None),
     sk_load_repos = Inr [], sk_repos_missing = (\<lambda>_. True), sk_write_repos = (\<lambda>_. None)\<rparr>"

definition helm_secret :: secret where
  "helm_secret = \<lparr>o_meta = \<lparr>om_name = ''s'', om_namespace = ''ns'', om_uid = ''u'', om_generation = 1, om_created = 0,
       om_deleting = False, om_labels = Map.empty, om_annotations = [''kdex.dev/secret-type'' \<mapsto> ''helm''],
       om_finalizers = [], om_controller = None\<rparr>,
     o_spec = \<lparr>sec_data = [''repository'' \<mapsto> ''oci://r.io/k'', ''username'' \<mapsto> ''u'', ''password'' \<mapsto> ''p'']\<rparr>,
     o_status = \<lparr>attributes = Map.empty, conditions = [], observed_generation = 0\<rparr>\<rparr>"

definition sample_client :: client where
  "sample_client = \<lparr>cl_namespace = ''ns'', cl_secrets = [helm_secret]\<rparr>"

definition sample_chart :: chart_spec where
  "sample_chart = \<lparr>cs_release = ''h'', cs_chart = ''oci://r.io/k/m'', cs_namespace = ''ns'', cs_values = Map.empty,
     cs_version = ''1'', cs_upgrade_crds = True, cs_labels = []\<rparr>"

definition empty_helm_world :: helm_world where
  "empty_helm_world = \<lparr>hw_log = [], hw_charts = [], hw_registry = None\<rparr>"

lemma sample_bind:
  "registry_bind sample_sdk sample_client sample_chart empty_helm_world
     = (None, empty_helm_world\<lparr>hw_registry := Some \<lparr>ro_plain_http = False, ro_skip_verify = False,
          ro_credential = Some (''u'', ''p'')\<rparr>\<rparr>)"
  by (simp add: registry_bind_def registry_reference_def sample_sdk_def sample_client_def sample_chart_def
      empty_helm_world_def helm_secret_def options_of_def secret_text_def is_helm_secret_def registry_matches_def
      secret_repository_def has_prefix_def Let_def)

theorem credential_only_for_its_registry_witness:
  "\<exists>s reg. s \<in> set (cl_secrets sample_client) \<and> registry_reference sample_sdk (cs_chart sample_chart) = Inr reg
     \<and> registry_matches reg (secret_repository s)"
proof -
  have lawful: "lawful_find sample_sdk" by (auto simp: lawful_find_def sample_sdk_def find_Some_iff)
  obtain s reg where "s \<in> set (cl_secrets sample_client)" "registry_reference sample_sdk (cs_chart sample_chart) = Inr reg"
    "secret_repository s \<noteq> []" "reg = secret_repository s \<or> (\<exists>rest. reg = secret_repository s @ ''/'' @ rest)"
    using credential_only_for_its_registry [OF sample_bind _ _ lawful, where user = "''u''" and password = "''p''"] by auto
  then show ?thesis unfolding registry_matches_boundary by blast
qed

text \<open>
  One release action per install or upgrade. Either nothing changes a release and an error is
  returned, or exactly one action runs, last: an upgrade where the release is known, keeping at most
  ten revisions, an install otherwise, in both cases with the release, labels and version asked for,
  waiting for hooks only. It runs on the archive that the shared cache then holds for this chart,
  version and credentials, and its error is the error returned.
\<close>
theorem one_release_action:
  assumes "client_install_or_upgrade K c spec w = (err, w')"
  shows "\<exists>pre. list_all (Not \<circ> is_run) pre \<and>
    (hw_log w' = hw_log w @ pre \<and> err \<noteq> None \<or>
     (\<exists>path act. map_of (hw_charts w') (chart_key K c spec) = Some path
        \<and> (sk_last K (hw_log w) (cs_release spec) = None \<and> act = release_action spec (Some 10)
             \<and> hw_log w' = hw_log w @ pre @ [LoadChart path, RunUpgrade act (cs_values spec)]
             \<and> (err = None) = (sk_upgrade K (hw_log w @ pre @ [LoadChart path]) act (cs_values spec) = None)
           \<or> (\<exists>e. sk_last K (hw_log w) (cs_release spec) = Some e) \<and> act = release_action spec None
             \<and> hw_log w' = hw_log w @ pre @ [LoadChart path, RunInstall act (cs_values spec)]
             \<and> (err = None) = (sk_install K (hw_log w @ pre @ [LoadChart path]) act (cs_values spec) = None))))"
  (is "\<exists>pre. list_all (Not \<circ> is_run) pre \<and> (_ pre \<or> ?done pre)")
proof -
  obtain berr w1 where b: "registry_bind K c spec w = (berr, w1)" by (rule prod.exhaust)
  note log1 = registry_bind_log [OF b]
  obtain ex w2 where x: "release_exists K (cs_release spec) w1 = (ex, w2)" by (rule prod.exhaust)
  have log2: "hw_log w2 = hw_log w @ [ReleasesLast (cs_release spec)]"
    using release_exists_log [of K "cs_release spec" w1] x log1 by simp
  consider (bind) "berr \<noteq> None" | (last_failed) e where "berr = None" "ex = Inl e"
    | (known) "berr = None" "ex = Inr True" | (fresh) "berr = None" "ex = Inr False"
    by (cases ex) auto
  then show ?thesis
  proof cases
    case bind
    then show ?thesis using assms b log1 by (intro exI [of _ "[]"]) (auto simp: client_install_or_upgrade_def)
  next
    case last_failed
    then show ?thesis using assms b x log2
      by (intro exI [of _ "[ReleasesLast (cs_release spec)]"]) (auto simp: client_install_or_upgrade_def)
  next
    case known
    then have run: "upgrade_chart K c spec w2 = (err, w')" using assms b x by (simp add: client_install_or_upgrade_def)
    have last: "sk_last K (hw_log w) (cs_release spec) = None"
      using known x log1 by (auto simp: release_exists_def split: option.splits if_splits)
    note r = run_logged [OF run [unfolded upgrade_chart_def Let_def default_max_history_def] log2]
    show ?thesis
      by (rule ex_forward [OF r], erule conj_forward, assumption, erule disj_forward, assumption, erule ex_forward,
          rule exI [of _ "release_action spec (Some 10)"], simp add: last)
  next
    case fresh
    then have run: "install_chart K c spec w2 = (err, w')" using assms b x by (simp add: client_install_or_upgrade_def)
    have last: "\<exists>e. sk_last K (hw_log w) (cs_release spec) = Some e"
      using fresh x log1 by (auto simp: release_exists_def split: option.splits if_splits)
    note r = run_logged [OF run [unfolded install_chart_def Let_def] log2]
    show ?thesis
      by (rule ex_forward [OF r], erule conj_forward, assumption, erule disj_forward, assumption, erule ex_forward,
          rule exI [of _ "release_action spec None"], simp add: last)
  qed
qed

theorem one_release_action_witness:
  "\<exists>path act. hw_log (snd (client_install_or_upgrade sample_sdk sample_client sample_chart empty_helm_world))
     = [ReleasesLast ''h'', LocateChart ''oci://r.io/k/m'' ''1'', LoadChart path, RunInstall act Map.empty]
   \<and> ac_hook_only act \<and> ac_max_history act = None"
proof -
  obtain err w' where run: "client_install_or_upgrade sample_sdk sample_client sample_chart empty_helm_world = (err, w')"
    by (rule prod.exhaust)
  have found: "sk_last sample_sdk (hw_log empty_helm_world) (cs_release sample_chart) \<noteq> None" by (simp add: sample_sdk_def)
  have eval: "err = None" "length (hw_log w') = 4"
    "take 2 (hw_log w') = [ReleasesLast ''h'', LocateChart ''oci://r.io/k/m'' ''1'']"
    using run unfolding client_install_or_upgrade_def sample_bind
    by (auto simp: release_exists_def install_chart_def run_action_def
        locate_chart_def get_path_def log_sdk_def sample_sdk_def sample_chart_def empty_helm_world_def Let_def plain_error_def
        has_prefix_def)
  from one_release_action [OF run] found eval(1) obtain pre path act where
    "hw_log w' = hw_log empty_helm_world @ pre @ [LoadChart path, RunInstall act (cs_values sample_chart)]"
    "act = release_action sample_chart None" by auto
  moreover from this eval have "pre = [ReleasesLast ''h'', LocateChart ''oci://r.io/k/m'' ''1'']"
    by (simp add: empty_helm_world_def)
  ultimately show ?thesis using run
    by (intro exI [of _ path] exI [of _ act]) (simp add: empty_helm_world_def sample_chart_def release_action_def)
qed

text \<open>
  A cached path is never given up: once the archive it names can no longer be loaded (the Helm cache
  directory was cleared, say), every render of that chart fails and leaves the cache as it is.
\<close>

lemma stale_archive_stays:
  assumes "registry_bind K c spec w = (None, w1)" "map_of (hw_charts w) (chart_key K c spec) = Some path"
    and "\<And>cs. sk_load K cs path = Some e" "client_install_or_upgrade K c spec w = (err, w')"
  shows "err \<noteq> None \<and> hw_charts w' = hw_charts w"
proof -
  obtain ex w2 where x: "release_exists K (cs_release spec) w1 = (ex, w2)" by (rule prod.exhaust)
  have charts: "hw_charts w2 = hw_charts w"
    using release_exists_log(2) [of K "cs_release spec" w1] x registry_bind_log [OF assms(1)] by simp
  then have "locate_chart K c spec w2 = (Inr path, w2)" using assms(2) by (simp add: locate_chart_def)
  then have "run_action K c spec verb run logged w2
      = (Some (wrap_error (''failed to load chart '' @ cs_chart spec) e), log_sdk (LoadChart path) w2)" for verb run logged
    using assms(3) by (simp add: run_action_def)
  then show ?thesis using assms(1,4) x charts
    by (cases ex) (auto simp: client_install_or_upgrade_def upgrade_chart_def install_chart_def log_sdk_def Let_def split: if_splits)
qed

end
