(* ===== verification/HelmSystem.thy ===== *)
theory HelmSystem
  imports HelmRender HelmClient
begin

text \<open>
  The renders of HelmRender on top of the Helm client of HelmClient, as \<open>cmd/main.go\<close> wires them: the
  answers of \<open>HelmClientInterface\<close>, which an environment leaves open, are those of the client. The
  state of the Helm side is what the calls made so far have left behind, so it is a function of the
  call log. \<open>fleet\<close> says which client a handle stands for, and how its SDK behaves at each point; the
  clients share one archive cache, and each operation binds its registry before it uses it.
\<close>

record fleet =
  fl_sdk :: "call list \<Rightarrow> helm_client \<Rightarrow> sdk"
  fl_client :: "helm_client \<Rightarrow> client"

section \<open>The Helm side of a call log\<close>

fun helm_effect :: "fleet \<Rightarrow> call list \<Rightarrow> call \<Rightarrow> helm_world \<Rightarrow> helm_world" where
  "helm_effect F past (HelmAddRepository c n u) w = snd (add_repository (fl_sdk F past c) n u w)"
| "helm_effect F past (HelmInstallOrUpgrade c spec) w =
     snd (client_install_or_upgrade (fl_sdk F past c) (fl_client F c) spec w)"
| "helm_effect F past (HelmListReleases c lbls) w = snd (client_list_releases (fl_sdk F past c) lbls w)"
| "helm_effect F past (HelmUninstall c n) w = snd (client_uninstall (fl_sdk F past c) n w)"
| "helm_effect F past _ w = w"

fun helm_run :: "fleet \<Rightarrow> call list \<Rightarrow> call list \<Rightarrow> helm_world \<Rightarrow> helm_world" where
  "helm_run F past [] w = w"
| "helm_run F past (c # cs) w = helm_run F (past @ [c]) cs (helm_effect F past c w)"

definition helm_after :: "fleet \<Rightarrow> call list \<Rightarrow> helm_world" where
  "helm_after F cs = helm_run F [] cs empty_helm_world"

text \<open>The environment in which the client answers.\<close>

definition serve :: "fleet \<Rightarrow> env \<Rightarrow> env" where
  "serve F E = E\<lparr>
     e_helm_add_repository := (\<lambda>cs c n u. fst (add_repository (fl_sdk F cs c) n u (helm_after F cs))),
     e_helm_install_or_upgrade := (\<lambda>cs c spec.
       fst (client_install_or_upgrade (fl_sdk F cs c) (fl_client F c) spec (helm_after F cs))),
     e_helm_list_releases := (\<lambda>cs c lbls. fst (client_list_releases (fl_sdk F cs c) lbls (helm_after F cs))),
     e_helm_uninstall := (\<lambda>cs c n. fst (client_uninstall (fl_sdk F cs c) n (helm_after F cs)))\<rparr>"

lemma helm_run_append: "helm_run F past (xs @ ys) w = helm_run F (past @ xs) ys (helm_run F past xs w)"
  by (induction F past xs w rule: helm_run.induct) simp_all

lemma helm_after_snoc: "helm_after F (cs @ [c]) = helm_effect F cs c (helm_after F cs)"
  by (simp add: helm_after_def helm_run_append)

section \<open>What a call leaves behind\<close>

text \<open>The release actions of the SDK, and the call that asked for one.\<close>

definition actions :: "helm_world \<Rightarrow> sdk_call list" where
  "actions w = filter is_run (hw_log w)"

fun made_for :: "sdk_call \<Rightarrow> call \<Rightarrow> bool" where
  "made_for (RunInstall act vals) (HelmInstallOrUpgrade c spec) =
     (act = release_action spec None \<and> vals = cs_values spec)"
| "made_for (RunUpgrade act vals) (HelmInstallOrUpgrade c spec) =
     (act = release_action spec (Some default_max_history) \<and> vals = cs_values spec)"
| "made_for (RunUninstall n timeout) (HelmUninstall c n') = (n = n' \<and> timeout = five_minutes)"
| "made_for _ _ = False"

text \<open>
  The contract the reconciler relies on: a request leaves at most one action, made for it, and a
  request that succeeds leaves one.
\<close>

locale release_manager =
  fixes perform :: "'req \<Rightarrow> 'w \<Rightarrow> bool \<times> 'w" and done_so_far :: "'w \<Rightarrow> 'a list" and made :: "'a \<Rightarrow> 'req \<Rightarrow> bool"
  assumes at_most_one: "perform r w = (ok, w') \<Longrightarrow>
      done_so_far w' = done_so_far w \<and> \<not> ok \<or> (\<exists>a. done_so_far w' = done_so_far w @ [a] \<and> made a r)"
begin

lemma succeeded: "perform r w = (True, w') \<Longrightarrow> \<exists>a. done_so_far w' = done_so_far w @ [a] \<and> made a r"
  using at_most_one by blast

lemma earlier_kept: "prefix (done_so_far w) (done_so_far (snd (perform r w)))"
  using at_most_one [of r w "fst (perform r w)" "snd (perform r w)"] by (auto simp: prefix_def)

end

text \<open>A call, and whether it changed a release as asked.\<close>

definition helm_perform :: "fleet \<Rightarrow> call list \<Rightarrow> call \<Rightarrow> helm_world \<Rightarrow> bool \<times> helm_world" where
  "helm_perform F past c w =
     ((case c of
         HelmInstallOrUpgrade k spec \<Rightarrow> fst (client_install_or_upgrade (fl_sdk F past k) (fl_client F k) spec w) = None
       | HelmUninstall k n \<Rightarrow> fst (client_uninstall (fl_sdk F past k) n w) = None
       | _ \<Rightarrow> False), helm_effect F past c w)"

lemma not_runs: "list_all (Not \<circ> is_run) cs \<Longrightarrow> filter is_run cs = []"
  by (induction cs) auto

lemma install_actions:
  assumes "client_install_or_upgrade K c spec w = (err, w')"
  shows "actions w' = actions w \<and> err \<noteq> None
    \<or> (\<exists>a. actions w' = actions w @ [a] \<and> made_for a (HelmInstallOrUpgrade k spec))"
proof -
  from one_release_action [OF assms] obtain pre where pre: "list_all (Not \<circ> is_run) pre"
    and alt: "hw_log w' = hw_log w @ pre \<and> err \<noteq> None
      \<or> (\<exists>path act a. hw_log w' = hw_log w @ pre @ [LoadChart path, a] \<and> is_run a
           \<and> made_for a (HelmInstallOrUpgrade k spec))"
    by (fastforce simp: default_max_history_def)
  show ?thesis using alt not_runs [OF pre] by (auto simp: actions_def)
qed

lemma passive_calls:
  "actions (snd (add_repository K n u w)) = actions w" "actions (snd (client_list_releases K lbls w)) = actions w"
  by (auto simp: actions_def add_repository_def client_list_releases_def log_sdk_def Let_def split: sum.splits)

lemma uninstall_actions: "actions (snd (client_uninstall K n w)) = actions w @ [RunUninstall n five_minutes]"
  by (simp add: actions_def client_uninstall_def log_sdk_def)

interpretation client: release_manager "helm_perform F past" actions made_for for F past
proof
  fix c w ok w' assume p: "helm_perform F past c w = (ok, w')"
  show "actions w' = actions w \<and> \<not> ok \<or> (\<exists>a. actions w' = actions w @ [a] \<and> made_for a c)"
  proof (cases c)
    case (HelmInstallOrUpgrade k spec)
    obtain err u where run: "client_install_or_upgrade (fl_sdk F past k) (fl_client F k) spec w = (err, u)"
      by (rule prod.exhaust)
    show ?thesis using install_actions [OF run, of k] p run HelmInstallOrUpgrade by (auto simp: helm_perform_def)
  qed (use p in \<open>auto simp: helm_perform_def passive_calls uninstall_actions\<close>)
qed

section \<open>Whole call logs\<close>

lemma perform_effect [simp]: "snd (helm_perform F past c w) = helm_effect F past c w"
  by (simp add: helm_perform_def)

lemma actions_grow: "prefix (actions (helm_after F xs)) (actions (helm_after F (xs @ ys)))"
proof (induction ys rule: rev_induct)
  case (snoc c ys)
  have "prefix (actions (helm_after F (xs @ ys))) (actions (helm_after F ((xs @ ys) @ [c])))"
    using client.earlier_kept [of "helm_after F (xs @ ys)" F "xs @ ys" c] unfolding helm_after_snoc by simp
  with snoc show ?case by (simp add: prefix_order.trans)
qed simp

lemma log_grows_by_one: "prefix (hw_log w) (hw_log (helm_effect F past c w))"
proof (cases c)
  case (HelmInstallOrUpgrade k spec)
  obtain err u where run: "client_install_or_upgrade (fl_sdk F past k) (fl_client F k) spec w = (err, u)"
    by (rule prod.exhaust)
  have "\<exists>cs. hw_log u = hw_log w @ cs" using one_release_action [OF run] by blast
  then show ?thesis using run HelmInstallOrUpgrade by (auto simp: prefix_def)
qed (auto simp: add_repository_def client_list_releases_def client_uninstall_def log_sdk_def Let_def split: sum.splits)

lemma log_grows: "prefix (hw_log (helm_after F xs)) (hw_log (helm_after F (xs @ ys)))"
proof (induction ys rule: rev_induct)
  case (snoc c ys)
  have "prefix (hw_log (helm_after F (xs @ ys))) (hw_log (helm_after F ((xs @ ys) @ [c])))"
    unfolding helm_after_snoc by (rule log_grows_by_one)
  with snoc show ?case by (simp add: prefix_order.trans)
qed simp

lemma actions_asked: "\<exists>asked. subseq asked cs \<and> list_all2 made_for (actions (helm_after F cs)) asked"
proof (induction cs rule: rev_induct)
  case Nil
  show ?case by (intro exI [of _ "[]"]) (simp add: helm_after_def actions_def empty_helm_world_def)
next
  case (snoc c cs)
  then obtain asked where a: "subseq asked cs" "list_all2 made_for (actions (helm_after F cs)) asked" by blast
  note one = client.at_most_one [OF prod.collapse [symmetric], of F cs c "helm_after F cs"]
  from one consider "actions (helm_after F (cs @ [c])) = actions (helm_after F cs)"
    | x where "actions (helm_after F (cs @ [c])) = actions (helm_after F cs) @ [x]" "made_for x c"
    by (auto simp: helm_after_snoc)
  then show ?case
  proof cases
    case 1
    then show ?thesis using a by (intro exI [of _ asked]) auto
  next
    case 2
    then show ?thesis using a by (intro exI [of _ "asked @ [c]"]) (auto simp: list_all2_appendI)
  qed
qed

text \<open>
  The SDK carried a chart out: at its call it ran one release action, on a loaded archive, reported
  success, and that action stays in the log.
\<close>

definition carried_out :: "fleet \<Rightarrow> helm_client \<Rightarrow> chart_spec \<Rightarrow> world \<Rightarrow> bool" where
  "carried_out F c spec w \<longleftrightarrow> (\<exists>past rest earlier path act. calls w = past @ HelmInstallOrUpgrade c spec # rest
     \<and> (act = release_action spec None
          \<and> sk_install (fl_sdk F past c) (earlier @ [LoadChart path]) act (cs_values spec) = None
          \<and> prefix (earlier @ [LoadChart path, RunInstall act (cs_values spec)]) (hw_log (helm_after F (calls w)))
        \<or> act = release_action spec (Some default_max_history)
          \<and> sk_upgrade (fl_sdk F past c) (earlier @ [LoadChart path]) act (cs_values spec) = None
          \<and> prefix (earlier @ [LoadChart path, RunUpgrade act (cs_values spec)]) (hw_log (helm_after F (calls w)))))"

lemma accepted_carried_out:
  assumes "accepted (serve F E) c spec w"
  shows "carried_out F c spec w"
proof -
  obtain past rest where w: "calls w = past @ HelmInstallOrUpgrade c spec # rest"
    and ok: "fst (client_install_or_upgrade (fl_sdk F past c) (fl_client F c) spec (helm_after F past)) = None"
    using assms by (auto simp: accepted_def serve_def)
  then obtain u where run: "client_install_or_upgrade (fl_sdk F past c) (fl_client F c) spec (helm_after F past) = (None, u)"
    by (metis prod.collapse)
  have u: "helm_after F (past @ [HelmInstallOrUpgrade c spec]) = u" using run by (simp add: helm_after_snoc)
  have grow: "prefix (hw_log u) (hw_log (helm_after F (calls w)))"
    using log_grows [of F "past @ [HelmInstallOrUpgrade c spec]" rest] w unfolding u by simp
  from one_release_action [OF run] obtain pre path act where
    "hw_log u = hw_log (helm_after F past) @ pre @ [LoadChart path, RunUpgrade act (cs_values spec)]
       \<and> act = release_action spec (Some 10)
       \<and> sk_upgrade (fl_sdk F past c) (hw_log (helm_after F past) @ pre @ [LoadChart path]) act (cs_values spec) = None
     \<or> hw_log u = hw_log (helm_after F past) @ pre @ [LoadChart path, RunInstall act (cs_values spec)]
       \<and> act = release_action spec None
       \<and> sk_install (fl_sdk F past c) (hw_log (helm_after F past) @ pre @ [LoadChart path]) act (cs_values spec) = None"
    by blast
  then show ?thesis unfolding carried_out_def default_max_history_def
    using w grow by (intro exI [of _ past] exI [of _ rest] exI [of _ "hw_log (helm_after F past) @ pre"]
        exI [of _ path] exI [of _ act]) auto
qed

lemma uninstall_in_log:
  assumes "HelmUninstall c n \<in> set cs"
  shows "RunUninstall n five_minutes \<in> set (hw_log (helm_after F cs))"
proof -
  obtain past rest where cs: "cs = past @ HelmUninstall c n # rest" using assms by (meson split_list)
  have "hw_log (helm_after F (past @ [HelmUninstall c n])) = hw_log (helm_after F past) @ [RunUninstall n five_minutes]"
    by (simp add: helm_after_snoc client_uninstall_def log_sdk_def)
  then show ?thesis
    using log_grows [of F "past @ [HelmUninstall c n]" rest] cs by (auto simp: prefix_def)
qed

lemma serve_sel [simp]:
  "e_config_values (serve F E) = e_config_values E" "e_host_default (serve F E) = e_host_default E"
  "e_read_values (serve F E) = e_read_values E" "e_coalesce (serve F E) = e_coalesce E"
  "e_cluster_role (serve F E) = e_cluster_role E" "e_set_conditions (serve F E) = e_set_conditions E"
  "e_controller_id (serve F E) = e_controller_id E" "e_format_time (serve F E) = e_format_time E" "e_now (serve F E) = e_now E"
  "e_new_helm_client (serve F E) = e_new_helm_client E" "e_secrets_hash (serve F E) = e_secrets_hash E"
  by (simp_all add: serve_def)

lemma serve_other: "build_host_manager_chart_spec (serve F E) h = build_host_manager_chart_spec E h"
  "helm_end_status (serve F E) hash err latest v = helm_end_status E hash err latest v"
  unfolding build_host_manager_chart_spec_def helm_end_status_def mark_def serve_sel by (rule refl)+

section \<open>A concrete fleet\<close>

text \<open>A host with one companion, whose client answers as the sample SDK does.\<close>

definition sample_fleet :: fleet where
  "sample_fleet = \<lparr>fl_sdk = (\<lambda>_ _. sample_sdk), fl_client = (\<lambda>_. sample_client)\<rparr>"

definition redis :: companion_chart where
  "redis = \<lparr>cc_name = ''redis'', cc_chart = ''oci://r.io/redis'', cc_repository = [], cc_values = [], cc_version = ''7''\<rparr>"

definition host_with_redis :: host where
  "host_with_redis = sample_obj ''ns'' ''h'' (sample_host_spec\<lparr>hs_helm := Some \<lparr>hh_manager = None, hh_companions = [redis]\<rparr>\<rparr>)"

lemma sample_binds:
  "cs_chart spec = ''host-manager'' \<or> cs_chart spec = ''oci://r.io/redis''
     \<Longrightarrow> fst (registry_bind sample_sdk sample_client spec w) = None"
  by (auto simp: registry_bind_def registry_reference_def sample_sdk_def has_prefix_def Let_def)

lemma sample_installs:
  assumes "fst (registry_bind sample_sdk sample_client spec w) = None"
  shows "fst (client_install_or_upgrade sample_sdk sample_client spec w) = None"
  using assms by (auto simp: client_install_or_upgrade_def release_exists_def install_chart_def run_action_def locate_chart_def
      get_path_def sample_sdk_def plain_error_def has_prefix_def Let_def split: prod.splits option.splits)

section \<open>Properties\<close>

text \<open>
  C36. The SDK changes releases as the reconciler asks, for every call log and every behaviour of the
  SDK. Its release actions are, in order, made for some of the calls: none is made that was not asked
  for, none twice for one call, and each with the release, labels, version and values of its call.
  A call that is answered with success has its action, which nothing later undoes in the log.
\<close>
theorem actions_follow_calls:
  "(\<exists>asked. subseq asked cs \<and> list_all2 made_for (actions (helm_after F cs)) asked)
   \<and> (cs = past @ c # rest \<longrightarrow> fst (helm_perform F past c (helm_after F past)) \<longrightarrow>
        (\<exists>a. made_for a c \<and> prefix (actions (helm_after F past) @ [a]) (actions (helm_after F cs))))"
proof (intro conjI impI)
  show "\<exists>asked. subseq asked cs \<and> list_all2 made_for (actions (helm_after F cs)) asked" by (rule actions_asked)
  assume cs: "cs = past @ c # rest" and ok: "fst (helm_perform F past c (helm_after F past))"
  have "helm_perform F past c (helm_after F past) = (True, helm_after F (past @ [c]))"
    using ok by (simp add: prod_eq_iff helm_after_snoc)
  from client.succeeded [OF this] obtain a
    where a: "actions (helm_after F (past @ [c])) = actions (helm_after F past) @ [a]" "made_for a c" by blast
  have "prefix (actions (helm_after F (past @ [c]))) (actions (helm_after F cs))"
    using actions_grow [of F "past @ [c]" rest] cs by simp
  with a show "\<exists>a. made_for a c \<and> prefix (actions (helm_after F past) @ [a]) (actions (helm_after F cs))" by auto
qed

theorem actions_follow_calls_witness:
  "\<exists>a b. actions (helm_after sample_fleet [HelmInstallOrUpgrade 0 sample_chart, HelmUninstall 0 ''r'']) = [a, b]
     \<and> made_for a (HelmInstallOrUpgrade 0 sample_chart)"
proof -
  let ?i = "HelmInstallOrUpgrade 0 sample_chart" and ?u = "HelmUninstall 0 ''r''"
  have start: "helm_after sample_fleet [] = empty_helm_world" by (simp add: helm_after_def)
  have ok: "fst (helm_perform sample_fleet [] ?i (helm_after sample_fleet []))"
    unfolding start using sample_installs [of sample_chart empty_helm_world] sample_bind
    by (simp add: helm_perform_def sample_fleet_def)
  have "[?i, ?u] = [] @ ?i # [?u]" by simp
  from actions_follow_calls [of "[?i, ?u]" sample_fleet "[]" ?i "[?u]"] this ok
  obtain a where a: "made_for a ?i" "prefix [a] (actions (helm_after sample_fleet [?i, ?u]))"
    by (auto simp: start actions_def empty_helm_world_def)
  have "actions (helm_after sample_fleet ([?i] @ [?u])) = actions (helm_after sample_fleet [?i]) @ [RunUninstall ''r'' five_minutes]"
    unfolding helm_after_snoc by (simp add: uninstall_actions)
  moreover have "helm_after sample_fleet [?i] = helm_effect sample_fleet [] ?i empty_helm_world"
    using helm_after_snoc [of sample_fleet "[]" ?i] start by simp
  moreover have "helm_perform sample_fleet [] ?i empty_helm_world = (True, helm_effect sample_fleet [] ?i empty_helm_world)"
    using ok start by (simp add: prod_eq_iff)
  from client.succeeded [OF this]
  have "\<exists>x. actions (helm_effect sample_fleet [] ?i empty_helm_world) = [x]"
    by (auto simp: actions_def empty_helm_world_def)
  ultimately obtain x where "actions (helm_after sample_fleet [?i, ?u]) = [x, RunUninstall ''r'' five_minutes]"
    by auto
  with a show ?thesis by (auto simp: prefix_def)
qed

text \<open>
  C18. From the status of a host to the SDK. If a render ends with \<open>completed\<close>, and the client the
  operator is started with answers its calls, then the SDK has carried out the host-manager chart the
  configuration prescribes and the chart of every companion the host declares, each reported as a
  success, and has run an uninstall for every release that was listed under the host's label and that
  the host no longer declares.
\<close>
theorem completed_render_carried_out:
  assumes "render_charts (serve F E) key h secrets w = (err, held, w')"
    and "get_attr (helm_end_status E hash err latest v) helm_status_attr = completed"
  shows "\<exists>c. (\<exists>spec. build_host_manager_chart_spec E h = Inr spec \<and> carried_out F c spec w')
    \<and> (\<forall>cc \<in> set (companion_charts h). \<exists>spec. companion_spec cc h spec \<and> carried_out F c spec w')
    \<and> (\<exists>owned. listed (serve F E) c (companion_labels (o_name h)) owned w'
         \<and> (\<forall>r \<in> set owned. r \<notin> cc_name ` set (companion_charts h)
              \<longrightarrow> RunUninstall r five_minutes \<in> set (hw_log (helm_after F (calls w')))))"
  using completed_means_everything_installed [OF assms(1), unfolded serve_other, OF assms(2)]
    accepted_carried_out uninstall_in_log by meson

theorem completed_render_carried_out_witness:
  "\<exists>err held w' c spec. render_charts (serve sample_fleet sample_env) (''ns'', ''h'') host_with_redis [] start_world = (err, held, w')
     \<and> companion_spec redis host_with_redis spec \<and> carried_out sample_fleet c spec w'"
proof -
  let ?E = "serve sample_fleet sample_env"
  obtain err held w' where run: "render_charts ?E (''ns'', ''h'') host_with_redis [] start_world = (err, held, w')"
    by (rule prod_cases3)
  have installs: "e_helm_install_or_upgrade ?E cs c spec = None"
    if "cs_chart spec = ''host-manager'' \<or> cs_chart spec = ''oci://r.io/redis''" for cs c spec
    using sample_installs [OF sample_binds [OF that]] by (simp add: serve_def sample_fleet_def)
  have lists: "e_helm_list_releases ?E cs c lbls = Inr []" for cs c lbls
    by (simp add: serve_def sample_fleet_def client_list_releases_def sample_sdk_def)
  have comps: "companion_charts host_with_redis = [redis]"
    by (simp add: companion_charts_def host_with_redis_def sample_obj_def)
  have man: "\<exists>s. build_host_manager_chart_spec sample_env host_with_redis = Inr s \<and> cs_chart s = ''host-manager''"
    by (simp add: build_host_manager_chart_spec_def Let_def host_with_redis_def sample_obj_def sample_host_spec_def)
  have "err = None"
    using run man by (auto simp: render_charts_def get_or_create_helm_client_def reconcile_host_manager_chart_def serve_other
        install_or_upgrade_def installs comps reconcile_companion_chart_def redis_def prune_companion_charts_def
        list_releases_def lists start_world_def Let_def)
  then have "get_attr (helm_end_status sample_env ''x'' err host_with_redis start_world) helm_status_attr = completed"
    by (simp add: helm_end_status_def get_attr_def helm_attr_defs)
  from completed_render_carried_out [OF run this] comps run show ?thesis by auto
qed

end
