(* ===== verification/Admission.thy ===== *)
theory Admission
  imports Validators Watches
begin

text \<open>
  What the webhooks promise the reconcilers: the references of a defaulted object name kinds, of its
  own scope where none was given; the secret references of an admitted one can be followed; and an
  admitted object is admitted as it is when it is written again.
\<close>

section \<open>References of defaulted objects\<close>

lemma default_kind_Some_iff:
  "default_kind k r = Some x \<longleftrightarrow> (\<exists>y. r = Some y \<and> x = (if ref_kind y = [] then y\<lparr>ref_kind := k\<rparr> else y))"
  by (auto simp: default_kind_def split: option.splits)

lemma opt_ref_RObject [simp]: "opt_ref x = RObject r \<longleftrightarrow> x = Some r"
  "RObject r = opt_ref x \<longleftrightarrow> x = Some r"
  by (cases x; auto)+

lemma default_kind_empty: "default_kind k r = Some x \<Longrightarrow> ref_kind x = [] \<Longrightarrow> k = []"
  by (cases r) (auto simp: default_kind_def split: if_splits)

lemma scoped_default: "default_kind (scoped c (a # as) (b # bs)) r = Some x \<Longrightarrow> ref_kind x \<noteq> []"
  using default_kind_empty scoped_nonempty by (metis list.distinct(1))

lemma default_navigations_kinds:
  assumes "default_navigations (scoped c (a # as) (b # bs)) refs = Inr navs" "(n, Some x) \<in> set navs"
  shows "ref_kind x \<noteq> []"
proof -
  obtain r where "default_kind (scoped c (a # as) (b # bs)) r = Some x"
    using assms by (auto simp: default_navigations_def split: if_splits)
  then show ?thesis by (rule scoped_default)
qed

lemma archetype_spec_kinds:
  assumes "default_archetype_spec c s = Inr s'"
  shows "ar_footer s' = Some x \<Longrightarrow> ref_kind x \<noteq> []" "ar_header s' = Some x \<Longrightarrow> ref_kind x \<noteq> []"
    "ar_script_library s' = Some x \<Longrightarrow> ref_kind x \<noteq> []" "(n, Some x) \<in> set (ar_navigations s') \<Longrightarrow> ref_kind x \<noteq> []"
  using assms scoped_default default_navigations_kinds
  by (auto simp: default_archetype_spec_def simp del: scoped_nonempty split: sum.splits)

lemma utility_page_spec_kinds:
  assumes "default_utility_page_spec c s = Inr s'"
  shows "up_footer s' = Some x \<Longrightarrow> ref_kind x \<noteq> []" "up_header s' = Some x \<Longrightarrow> ref_kind x \<noteq> []"
    "up_script_library s' = Some x \<Longrightarrow> ref_kind x \<noteq> []" "up_archetype s' = Some x \<Longrightarrow> ref_kind x \<noteq> []"
    "(n, Some x) \<in> set (up_navigations s') \<Longrightarrow> ref_kind x \<noteq> []"
  using assms scoped_default default_navigations_kinds
  by (auto simp: default_utility_page_spec_def simp del: scoped_nonempty split: sum.splits)

lemma utility_page_spec_apps:
  "default_utility_page_spec c s = Inr s' \<Longrightarrow> e \<in> set (up_contents s') \<Longrightarrow> ce_app_ref e = Some x
     \<Longrightarrow> ref_kind x = scoped c ''KDexClusterApp'' ''KDexApp''"
  by (auto simp: default_utility_page_spec_def force_kind_def split: sum.splits)

lemmas simple_defaults = default_app_spec_def default_script_library_spec_def default_theme_spec_def
  default_part_spec_def

lemma default_registered_type:
  "default_registered name s = Inr s' \<Longrightarrow> type_name s' = type_name s"
  by (cases s) (auto simp: default_registered_def map_sum_Inr)

lemma default_registered_kinds:
  assumes "default_registered name s = Inr s'" "RObject r \<in> set (find_results p s')"
  shows "ref_kind r \<noteq> []"
proof (cases s)
  case (KDexPageArchetype a)
  then obtain a' where a: "s' = KDexPageArchetype a'" "default_archetype_spec False a = Inr a'"
    using assms(1) by (auto simp: default_registered_def map_sum_Inr)
  show ?thesis using archetype_spec_kinds [OF a(2)] assms(2) a(1) by (cases p) auto
next
  case (KDexClusterPageArchetype a)
  then obtain a' where a: "s' = KDexClusterPageArchetype a'" "default_archetype_spec True a = Inr a'"
    using assms(1) by (auto simp: default_registered_def map_sum_Inr)
  show ?thesis using archetype_spec_kinds [OF a(2)] assms(2) a(1) by (cases p) auto
next
  case (KDexUtilityPage u)
  then obtain u' where u: "s' = KDexUtilityPage u'" "default_utility_page_spec False u = Inr u'"
    using assms(1) by (auto simp: default_registered_def map_sum_Inr)
  show ?thesis using utility_page_spec_kinds [OF u(2)] utility_page_spec_apps [OF u(2)] assms(2) u(1)
    by (cases p) (auto simp: scoped_def)
next
  case (KDexClusterUtilityPage u)
  then obtain u' where u: "s' = KDexClusterUtilityPage u'" "default_utility_page_spec True u = Inr u'"
    using assms(1) by (auto simp: default_registered_def map_sum_Inr)
  show ?thesis using utility_page_spec_kinds [OF u(2)] utility_page_spec_apps [OF u(2)] assms(2) u(1)
    by (cases p) (auto simp: scoped_def)
qed (use assms in \<open>cases p; force simp: default_registered_def simple_defaults default_package_def split: option.splits
  dest!: default_kind_empty\<close>)+

interpretation registered_default: defaulter "default_registered name" for name
proof
  fix s s' assume d: "default_registered name s = Inr s'"
  then show "default_registered name s' = Inr s'"
    by (cases s) (auto simp: default_registered_def map_sum_Inr simple_defaults comp_def option.map_comp
      dest: archetype_spec_settles utility_page_spec_settles)
qed

lemma admit_Inr:
  "admit K name s = Inr s' \<longleftrightarrow> default_registered name s = Inr s' \<and> validate_registered K name s' = None"
  by (auto simp: admit_def split: sum.splits option.splits)

lemma secret_ref_error_None:
  "secret_ref_error what c (Some r) = None \<longleftrightarrow> ref_name r \<noteq> [] \<and> (c \<longrightarrow> ref_namespace r \<noteq> [])"
  by (auto simp: secret_ref_error_def)

lemma validate_entries_names:
  "validate_entries K i es = None \<Longrightarrow> e \<in> set es \<Longrightarrow> ce_app_ref e = Some r \<Longrightarrow> ref_name r \<noteq> []"
  by (induction es arbitrary: i) (auto simp: entry_error_def split: option.splits if_splits)

lemma validated_secret_refs:
  assumes "validate_registered K name s = None" "RObject r \<in> set (find_results SecretRefPath s)"
  shows "ref_name r \<noteq> [] \<and> (is_clustered (type_name s) \<longrightarrow> ref_namespace r \<noteq> [])"
  using assms by (cases s) (auto simp: validate_registered_def validate_app_spec_def validate_script_library_spec_def
      secret_ref_error_None Let_def split: option.splits Option.bind_splits)

lemma validated_app_refs:
  assumes "validate_registered K name s = None" "RObject r \<in> set (find_results AppRefsPath s)"
  shows "ref_name r \<noteq> []"
  using assms by (cases s) (auto simp: validate_registered_def dest: validate_entries_names)

lemma defaulted_app_refs:
  assumes "default_registered name s = Inr s'" "RObject r \<in> set (find_results AppRefsPath s')"
  shows "ref_kind r = (if is_clustered (type_name s') then ''KDexClusterApp'' else ''KDexApp'')"
proof (cases s)
  case (KDexUtilityPage u)
  then obtain u' where u: "s' = KDexUtilityPage u'" "default_utility_page_spec False u = Inr u'"
    using assms(1) by (auto simp: default_registered_def map_sum_Inr)
  show ?thesis using utility_page_spec_apps [OF u(2)] assms(2) u(1) by (auto simp: scoped_def)
next
  case (KDexClusterUtilityPage u)
  then obtain u' where u: "s' = KDexClusterUtilityPage u'" "default_utility_page_spec True u = Inr u'"
    using assms(1) by (auto simp: default_registered_def map_sum_Inr)
  show ?thesis using utility_page_spec_apps [OF u(2)] assms(2) u(1) by (auto simp: scoped_def)
qed (use assms in \<open>force simp: default_registered_def map_sum_Inr\<close>)+

section \<open>Properties\<close>

text \<open>
  C28. What admission establishes for the reconcilers. In an admitted object every watched reference
  names a kind; a secret reference names a secret and, in a cluster-scoped object, its namespace; an
  app reference names an app of the object's own scope. The object keeps its kind, and when it is
  written again unchanged it is admitted unchanged.
\<close>
theorem admitted_references_typed:
  assumes "admit K name s = Inr s'"
  shows "type_name s' = type_name s \<and> admit K name s' = Inr s'
    \<and> (\<forall>p r. RObject r \<in> set (find_results p s') \<longrightarrow> ref_kind r \<noteq> []
        \<and> (p = SecretRefPath \<longrightarrow> ref_name r \<noteq> [] \<and> (is_clustered (type_name s') \<longrightarrow> ref_namespace r \<noteq> []))
        \<and> (p = AppRefsPath \<longrightarrow> ref_name r \<noteq> []
            \<and> ref_kind r = (if is_clustered (type_name s') then ''KDexClusterApp'' else ''KDexApp'')))"
proof -
  have d: "default_registered name s = Inr s'" and v: "validate_registered K name s' = None"
    using assms by (simp_all add: admit_Inr)
  have "admit K name s' = Inr s'" using registered_default.settles [OF d] v by (simp add: admit_Inr)
  then show ?thesis
    using default_registered_type [OF d] default_registered_kinds [OF d] validated_secret_refs [OF v]
      validated_app_refs [OF v] defaulted_app_refs [OF d] by blast
qed

definition sample_checks :: checks where
  "sample_checks = \<lparr>ck_content = (\<lambda>_ _. None), ck_render = (\<lambda>_ _. None), ck_assets = (\<lambda>a. a),
     ck_script_tag = pkg_name, ck_head_tag = (\<lambda>s. s), ck_foot_tag = (\<lambda>s. s),
     ck_app_resources = (\<lambda>s. \<lparr>rp_image = static_image (app_backend s), rp_path = app_ingress_path s, rp_urls = app_scripts s\<rparr>),
     ck_library_resources = (\<lambda>s. \<lparr>rp_image = static_image (lib_backend s), rp_path = lib_ingress_path s, rp_urls = lib_scripts s\<rparr>),
     ck_theme_resources = (\<lambda>s. \<lparr>rp_image = static_image (th_backend s), rp_path = th_ingress_path s, rp_urls = []\<rparr>),
     ck_host_resources = (\<lambda>s. \<lparr>rp_image = static_image (hs_backend s), rp_path = hs_ingress_path s, rp_urls = []\<rparr>),
     ck_selector = (\<lambda>_. None), ck_set_string = (\<lambda>_ _ _ _. None), ck_quote = (\<lambda>s. s),
     ck_base_path = (\<lambda>_. True), ck_base_regex = [], ck_item_path = (\<lambda>_. True), ck_item_regex = [],
     ck_lint = (\<lambda>_. Inr [])\<rparr>"

definition app_with_secret :: app_spec where
  "app_with_secret = sample_app_spec\<lparr>app_package :=
     sample_package\<lparr>pkg_secret_ref := Some \<lparr>ref_kind = [], ref_name = ''npm'', ref_namespace = ''ns''\<rparr>\<rparr>\<rparr>"

theorem admitted_references_typed_witness:
  "let s' = KDexClusterApp (default_app_spec ''a'' app_with_secret)
   in admit sample_checks ''a'' (KDexClusterApp app_with_secret) = Inr s' \<and> admit sample_checks ''a'' s' = Inr s'"
proof -
  let ?s' = "KDexClusterApp (default_app_spec ''a'' app_with_secret)"
  have a: "admit sample_checks ''a'' (KDexClusterApp app_with_secret) = Inr ?s'"
    by (simp add: admit_def default_registered_def validate_registered_def validate_app_spec_def validate_library_def
        validate_tags_def package_name_error_def secret_ref_error_def validate_resource_provider_def default_app_spec_def
        default_package_def default_kind_def backend_defaults_def default_pull_policy_def has_prefix_def
        app_with_secret_def sample_app_spec_def sample_package_def sample_backend_def sample_checks_def)
  from admitted_references_typed [OF a] have "admit sample_checks ''a'' ?s' = Inr ?s'" by blast
  with a show ?thesis by (simp add: Let_def)
qed

text \<open>
  C29. A page loses its cluster app. Whatever kind the app references of a namespaced utility page
  name, the defaulter stores \<open>KDexApp\<close>, so the page resolves an app of its own namespace, and no
  change of a cluster app enqueues it although the controller watches cluster apps for these pages.
  A page keeps the kind its author chose.
\<close>
theorem utility_page_loses_cluster_app:
  assumes "default_utility_page_spec False u = Inr u'" "e \<in> set (up_contents u)" "ce_app_ref e = Some r"
    and "entry \<in> set (pg_contents g)" "ce_app_ref entry = Some ref" "ref_kind ref \<noteq> []" "default_page g = Inr g'"
  shows "(\<exists>e' \<in> set (up_contents u'). ce_slot e' = ce_slot e \<and> ce_app_ref e' = Some (r\<lparr>ref_kind := ''KDexApp''\<rparr>))
    \<and> ref_key ''KDexUtilityPage'' ns (r\<lparr>ref_kind := ''KDexApp''\<rparr>)
        = (if ref_namespace r = [] then ns else ref_namespace r, ref_name r)
    \<and> item_requests ''KDexClusterApp'' key (find_results AppRefsPath (KDexUtilityPage u')) item = []
    \<and> entry \<in> set (pg_contents g')"
proof (intro conjI)
  have u': "up_contents u' = map (force_kind ''KDexApp'') (up_contents u)"
    using assms(1) by (auto simp: default_utility_page_spec_def scoped_def split: sum.splits)
  have "force_kind ''KDexApp'' e \<in> set (up_contents u')" using assms(2) u' by simp
  moreover have "ce_slot (force_kind ''KDexApp'' e) = ce_slot e"
    "ce_app_ref (force_kind ''KDexApp'' e) = Some (r\<lparr>ref_kind := ''KDexApp''\<rparr>)"
    using assms(3) by (simp_all add: force_kind_def)
  ultimately show "\<exists>e' \<in> set (up_contents u'). ce_slot e' = ce_slot e \<and> ce_app_ref e' = Some (r\<lparr>ref_kind := ''KDexApp''\<rparr>)"
    by blast
  show "ref_key ''KDexUtilityPage'' ns (r\<lparr>ref_kind := ''KDexApp''\<rparr>)
      = (if ref_namespace r = [] then ns else ref_namespace r, ref_name r)" by (simp add: ref_key_def)
  have "\<not> ref_matches ''KDexClusterApp'' key ns' v" if "v \<in> set (find_results AppRefsPath (KDexUtilityPage u'))" for v ns'
  proof -
    note m = that
    obtain x where v: "v = opt_ref (ce_app_ref (force_kind ''KDexApp'' x))" using m u' by auto
    show ?thesis by (cases "ce_app_ref x") (simp_all add: v force_kind_def Let_def)
  qed
  then show "item_requests ''KDexClusterApp'' key (find_results AppRefsPath (KDexUtilityPage u')) item = []"
    by (simp add: item_requests_def filter_empty_conv del: find_results.simps)
  have contents: "pg_contents g' = map default_entry (pg_contents g)"
    using assms(7) by (auto simp: default_page_def split: sum.splits)
  have "default_entry entry = entry" using assms(5,6) by (simp add: default_entry_def default_kind_def)
  then show "entry \<in> set (pg_contents g')"
    using assms(4) contents by (metis image_eqI list.set_map)
qed

theorem utility_page_loses_cluster_app_witness:
  "let r = \<lparr>ref_kind = ''KDexClusterApp'', ref_name = ''a'', ref_namespace = []\<rparr>;
       e = \<lparr>ce_slot = ''main'', ce_raw_html = [], ce_app_ref = Some r, ce_attributes = Map.empty, ce_element = []\<rparr>;
       u = (sample_utility_page_spec Login)\<lparr>up_contents := [e]\<rparr>;
       u' = u\<lparr>up_contents := [e\<lparr>ce_app_ref := Some (r\<lparr>ref_kind := ''KDexApp''\<rparr>)\<rparr>]\<rparr>
   in default_utility_page_spec False u = Inr u'
      \<and> item_requests ''KDexClusterApp'' ([], ''a'') (find_results AppRefsPath (KDexUtilityPage u'))
          (sample_obj ''ns'' ''p'' ()) = []"
proof -
  let ?r = "\<lparr>ref_kind = ''KDexClusterApp'', ref_name = ''a'', ref_namespace = []\<rparr>"
  let ?e = "\<lparr>ce_slot = ''main'', ce_raw_html = [], ce_app_ref = Some ?r, ce_attributes = Map.empty, ce_element = []\<rparr>"
  let ?u = "(sample_utility_page_spec Login)\<lparr>up_contents := [?e]\<rparr>"
  let ?u' = "?u\<lparr>up_contents := [?e\<lparr>ce_app_ref := Some (?r\<lparr>ref_kind := ''KDexApp''\<rparr>)\<rparr>]\<rparr>"
  let ?g = "\<lparr>pg_base_path = ''/p'', pg_parent = None, pg_contents = [?e], pg_footer = None, pg_header = None,
     pg_navigations = [], pg_archetype = None, pg_script_library = None\<rparr>"
  have u: "default_utility_page_spec False ?u = Inr ?u'"
    by (simp add: default_utility_page_spec_def default_navigations_def default_kind_def force_kind_def scoped_def
        sample_utility_page_spec_def)
  have g: "default_page ?g = Inr ?g"
    by (simp add: default_page_def default_navigations_def default_kind_def default_entry_def)
  have "item_requests ''KDexClusterApp'' ([], ''a'') (find_results AppRefsPath (KDexUtilityPage ?u'))
      (sample_obj ''ns'' ''p'' ()) = []"
    by (rule utility_page_loses_cluster_app [OF u, where e = ?e and r = ?r and entry = ?e and ref = ?r and g = ?g and g' = ?g,
          THEN conjunct2, THEN conjunct2, THEN conjunct1]) (simp_all add: g)
  with u show ?thesis by (simp add: Let_def)
qed



end
