(* ===== verification/MemLimit.thy ===== *)
theory MemLimit
  imports Prelude
begin

text \<open>
  The soft memory limit (\<open>internal/memlimit/memlimit.go\<close> and its use in \<open>cmd/main.go\<close>). A \<open>float64\<close> is
  NaN, an infinity or a finite value \<open>m / 2^k\<close>; products are rounded to 53 significant bits, ties to
  even, as IEEE 754 prescribes. Products below the range of normal numbers, which the model rounds as
  if they were normal, are less than one byte either way. What \<open>int64\<close> makes of NaN is left to the
  processor: it is a parameter. The cgroup files are ASCII.
\<close>

section \<open>Floating point\<close>

datatype float64 = NaN | NegInf | PosInf | Finite int nat

fun le_zero :: "float64 \<Rightarrow> bool" where
  "le_zero NaN = False"
| "le_zero NegInf = True"
| "le_zero PosInf = False"
| "le_zero (Finite m k) = (m \<le> 0)"

fun gt_one :: "float64 \<Rightarrow> bool" where
  "gt_one NaN = False"
| "gt_one NegInf = False"
| "gt_one PosInf = True"
| "gt_one (Finite m k) = (2 ^ k < m)"

fun bit_len :: "nat \<Rightarrow> nat" where
  "bit_len n = (if n = 0 then 0 else Suc (bit_len (n div 2)))"

declare bit_len.simps [simp del]

definition half_even :: "nat \<Rightarrow> nat \<Rightarrow> nat" where
  "half_even n e =
     (let q = n div 2 ^ e; r = n mod 2 ^ e
      in if 2 * r < 2 ^ e \<or> 2 * r = 2 ^ e \<and> even q then q else q + 1)"

definition round53 :: "nat \<Rightarrow> nat" where
  "round53 n = (let e = bit_len n - 53 in half_even n e * 2 ^ e)"

text \<open>\<open>int64(float64(limit) * ratio)\<close> for a positive limit and ratio.\<close>

fun scale_limit :: "int \<Rightarrow> int \<Rightarrow> float64 \<Rightarrow> int" where
  "scale_limit nan limit (Finite m k) = int (round53 (round53 (nat limit) * nat m) div 2 ^ k)"
| "scale_limit nan limit _ = nan"

section \<open>Reading the limit\<close>

datatype mem_error = ErrNoLimit | ErrInvalidRatio | ErrRead string | ErrParse string

datatype file_read = Content string | NotExist | ReadError string

definition is_space :: "char \<Rightarrow> bool" where
  "is_space c \<longleftrightarrow> c \<in> {CHR '' '', CHR 0x09, CHR 0x0A, CHR 0x0B, CHR 0x0C, CHR 0x0D}"

definition trim_space :: "string \<Rightarrow> string" where
  "trim_space s = rev (dropWhile is_space (rev (dropWhile is_space s)))"

definition unlimited_v1 :: int where "unlimited_v1 = 2 ^ 62"

text \<open>The two files, of cgroup v2 and of v1.\<close>

record cgroup_files =
  memory_max :: file_read
  limit_in_bytes :: file_read

definition read_cgroup_limit :: "cgroup_files \<Rightarrow> mem_error + int" where
  "read_cgroup_limit fs =
     (case (case memory_max fs of NotExist \<Rightarrow> limit_in_bytes fs | r \<Rightarrow> r) of
        NotExist \<Rightarrow> Inl ErrNoLimit
      | ReadError e \<Rightarrow> Inl (ErrRead e)
      | Content raw \<Rightarrow>
          let v = trim_space raw
          in if v = ''max'' then Inl ErrNoLimit
             else case atoi v of
                 None \<Rightarrow> Inl (ErrParse v)
               | Some limit \<Rightarrow>
                   if unlimited_v1 \<le> limit then Inl ErrNoLimit
                   else if limit \<le> 0 then Inl ErrNoLimit
                   else Inr limit)"

definition from_cgroup :: "int \<Rightarrow> cgroup_files \<Rightarrow> float64 \<Rightarrow> mem_error + int" where
  "from_cgroup nan fs ratio =
     (case read_cgroup_limit fs of Inl e \<Rightarrow> Inl e | Inr limit \<Rightarrow> Inr (scale_limit nan limit ratio))"

text \<open>The limit, whether to apply it, and the error.\<close>

definition configure :: "int \<Rightarrow> cgroup_files \<Rightarrow> float64 \<Rightarrow> string \<Rightarrow> int \<times> bool \<times> mem_error option" where
  "configure nan fs ratio gomemlimit =
     (if le_zero ratio then (0, False, None)
      else if gt_one ratio then (0, False, Some ErrInvalidRatio)
      else if gomemlimit \<noteq> [] then (0, False, None)
      else case from_cgroup nan fs ratio of
          Inl e \<Rightarrow> (0, False, Some e)
        | Inr limit \<Rightarrow> (limit, True, None))"

text \<open>What \<open>main\<close> does with it.\<close>

datatype startup = ExitProcess | SetMemoryLimit int | LeaveUnset mem_error | NotManaged

definition startup_limit :: "int \<times> bool \<times> mem_error option \<Rightarrow> startup" where
  "startup_limit c =
     (case c of (limit, apply_it, err) \<Rightarrow>
        if err = Some ErrInvalidRatio then ExitProcess
        else if apply_it then SetMemoryLimit limit
        else case err of Some e \<Rightarrow> LeaveUnset e | None \<Rightarrow> NotManaged)"

section \<open>Rounding\<close>

lemma bit_len_low: "n \<noteq> 0 \<Longrightarrow> 2 ^ (bit_len n - 1) \<le> n"
proof (induction n rule: bit_len.induct)
  case (1 n)
  show ?case
  proof (cases "n div 2 = 0")
    case True
    then show ?thesis using 1(2) by (simp add: bit_len.simps [of n] bit_len.simps [of 0])
  next
    case False
    then have "2 ^ (bit_len (n div 2) - 1) \<le> n div 2" using 1 by simp
    moreover have "bit_len n - 1 = Suc (bit_len (n div 2) - 1)"
      using 1(2) False by (simp add: bit_len.simps [of n] bit_len.simps [of "n div 2"])
    ultimately show ?thesis by simp
  qed
qed

lemma half_even_le: "2 * (half_even n e * 2 ^ e) \<le> 2 * n + 2 ^ e"
proof -
  have split: "n = n div 2 ^ e * 2 ^ e + n mod 2 ^ e" by (rule div_mult_mod_eq [symmetric])
  show ?thesis
  proof (cases "2 * (n mod 2 ^ e) < 2 ^ e")
    case True
    then show ?thesis using split by (simp add: half_even_def)
  next
    case False
    have "half_even n e \<le> n div 2 ^ e + 1" by (simp add: half_even_def Let_def)
    then have "half_even n e * 2 ^ e \<le> (n div 2 ^ e + 1) * 2 ^ e" by (rule mult_right_mono) simp
    then have "2 * (half_even n e * 2 ^ e) \<le> 2 * (n div 2 ^ e * 2 ^ e) + 2 * 2 ^ e" by simp
    then show ?thesis using split False by linarith
  qed
qed

lemma half_even_zero [simp]: "half_even n 0 = n"
  by (simp add: half_even_def)

lemma round53_le: "2 ^ 53 * round53 n \<le> (2 ^ 53 + 1) * n"
proof (cases "bit_len n \<le> 53")
  case True
  then show ?thesis by (simp add: round53_def)
next
  case False
  let ?e = "bit_len n - 53"
  have "n \<noteq> 0" using False by (cases "n = 0") (simp_all add: bit_len.simps [of 0])
  then have "2 ^ (bit_len n - 1) \<le> n" by (rule bit_len_low)
  moreover have "bit_len n - 1 = 52 + ?e" using False by simp
  ultimately have e: "2 ^ 52 * 2 ^ ?e \<le> n" by (metis power_add)
  have "2 ^ 53 * round53 n = 2 ^ 52 * (2 * (half_even n ?e * 2 ^ ?e))" by (simp add: round53_def Let_def)
  also have "\<dots> \<le> 2 ^ 52 * (2 * n + 2 ^ ?e)" using half_even_le [of n ?e] by (rule mult_left_mono) simp
  also have "\<dots> = 2 ^ 53 * n + 2 ^ 52 * 2 ^ ?e" by (simp add: algebra_simps)
  also have "\<dots> \<le> 2 ^ 53 * n + n" using e by simp
  finally show ?thesis by (simp add: algebra_simps)
qed

text \<open>A ratio of at most one: the scaled limit exceeds the limit by less than one part in \<open>2^51\<close>.\<close>

lemma scale_limit_le:
  assumes "0 < limit" "m \<le> 2 ^ k" "0 < m"
  shows "2 ^ 106 * scale_limit nan limit (Finite m k) \<le> (2 ^ 53 + 1) ^ 2 * limit"
proof -
  let ?L = "round53 (nat limit)" and ?m = "nat m"
  let ?r = "round53 (?L * ?m) div 2 ^ k"
  have "nat m \<le> nat (2 ^ k)" using assms(2) by (rule nat_mono)
  then have m: "?m \<le> 2 ^ k" by (simp add: nat_power_eq)
  have "?r * 2 ^ k \<le> round53 (?L * ?m)" by simp
  then have "2 ^ 106 * (?r * 2 ^ k) \<le> 2 ^ 53 * (2 ^ 53 * round53 (?L * ?m))" by simp
  also have "\<dots> \<le> 2 ^ 53 * ((2 ^ 53 + 1) * (?L * ?m))" using round53_le by (rule mult_left_mono) simp
  also have "\<dots> = (2 ^ 53 + 1) * ?m * (2 ^ 53 * ?L)" by (simp add: algebra_simps)
  also have "\<dots> \<le> (2 ^ 53 + 1) * ?m * ((2 ^ 53 + 1) * nat limit)" using round53_le by (rule mult_left_mono) simp
  also have "\<dots> \<le> (2 ^ 53 + 1) * 2 ^ k * ((2 ^ 53 + 1) * nat limit)"
    using m by (intro mult_right_mono mult_left_mono) simp_all
  finally have "(2 ^ 106 * ?r) * 2 ^ k \<le> ((2 ^ 53 + 1) ^ 2 * nat limit) * 2 ^ k"
    by (simp add: power2_eq_square algebra_simps)
  then have "2 ^ 106 * ?r \<le> (2 ^ 53 + 1) ^ 2 * nat limit" by (subst (asm) mult_le_cancel2) simp
  then have "int (2 ^ 106 * ?r) \<le> int ((2 ^ 53 + 1) ^ 2 * nat limit)" by (subst of_nat_le_iff)
  then show ?thesis using assms(1) by simp
qed

lemma scale_limit_small:
  assumes "0 < limit" "m \<le> 2 ^ k" "0 < m" "limit < 2 ^ 51"
  shows "scale_limit nan limit (Finite m k) \<le> limit"
  using scale_limit_le [OF assms(1-3), of nan] assms(1,4) by (simp del: scale_limit.simps)

lemma scale_limit_int64:
  assumes "0 < limit" "m \<le> 2 ^ k" "0 < m" "limit < unlimited_v1"
  shows "0 \<le> scale_limit nan limit (Finite m k) \<and> scale_limit nan limit (Finite m k) \<le> max_int64"
proof
  show "0 \<le> scale_limit nan limit (Finite m k)" by simp
  show "scale_limit nan limit (Finite m k) \<le> max_int64"
    using scale_limit_le [OF assms(1-3), of nan] assms(4)
    by (simp add: unlimited_v1_def max_int64_def del: scale_limit.simps)
qed

section \<open>Printed limits\<close>

lemma digit_not_space [simp]: "d < 10 \<Longrightarrow> \<not> is_space (digit_char d)"
  using digit_val_char [of d] by (auto simp: is_space_def digit_val_def)

lemma nat_digits_not_space: "c \<in> set (nat_digits n) \<Longrightarrow> \<not> is_space c"
proof (induction n rule: nat_digits.induct)
  case (1 n)
  then show ?case by (auto simp: nat_digits.simps [of n] split: if_splits)
qed

lemma trim_space_plain:
  assumes "\<And>c. c \<in> set s \<Longrightarrow> \<not> is_space c" "\<And>c. c \<in> set ws \<Longrightarrow> is_space c"
  shows "trim_space (s @ ws) = s"
proof (cases s)
  case Nil
  have "dropWhile is_space ws = []" using assms(2) by simp
  with Nil show ?thesis unfolding trim_space_def by (simp only: append_Nil rev.simps dropWhile.simps)
next
  case (Cons c cs)
  then have "dropWhile is_space (s @ ws) = s @ ws" using assms(1) by simp
  moreover have "dropWhile is_space (rev ws @ rev s) = dropWhile is_space (rev s)"
    using assms(2) by (intro dropWhile_append2) simp
  moreover have "dropWhile is_space (rev s) = rev s"
    using assms(1) by (metis dropWhile_eq_self_iff hd_in_set set_rev)
  ultimately show ?thesis by (simp add: trim_space_def)
qed

lemma trim_itoa: "0 \<le> n \<Longrightarrow> (\<And>c. c \<in> set ws \<Longrightarrow> is_space c) \<Longrightarrow> trim_space (itoa n @ ws) = itoa n"
  using nat_digits_not_space by (intro trim_space_plain) (auto simp: itoa_def)

lemma itoa_neq_max: "0 \<le> n \<Longrightarrow> itoa n \<noteq> ''max''"
proof
  assume "0 \<le> n" "itoa n = ''max''"
  then have "nat_digits (nat n) = ''max''" by (simp add: itoa_def)
  then have "parse_digits 0 ''max'' = Some (nat n)" by (metis parse_nat_digits)
  then show False by (simp add: digit_val_def)
qed

section \<open>Properties\<close>





end
