(* ===== verification/Startup.thy ===== *)
theory Startup
  imports Admission MemLimit
begin

text \<open>
  The start of the manager (\<open>cmd/main.go\<close>, \<open>SetupWithManager\<close> of every controller, \<open>cache_options.go\<close>):
  what becomes of the flags, what is registered, in which order, and what ends the process. The
  manager, its registration calls and \<open>npm.NewRegistry\<close> are parameters. Parsing the flags and loading
  the configuration file are left to the libraries that do it; a flag of type \<open>int\<close> has 64 bits.
\<close>

section \<open>Flags and options\<close>

record flags =
  fg_requeue_seconds :: int
  fg_helm_concurrency :: int
  fg_memory_ratio :: float64
  fg_metrics_addr :: string
  fg_metrics_cert :: "string \<times> string \<times> string"   \<comment> \<open>path, certificate and key\<close>
  fg_webhook_cert :: "string \<times> string \<times> string"
  fg_leader_elect :: bool
  fg_metrics_secure :: bool
  fg_http2 :: bool

text \<open>The default ratio 0.9 is the nearest \<open>float64\<close>.\<close>

definition default_flags :: flags where
  "default_flags = \<lparr>fg_requeue_seconds = 15, fg_helm_concurrency = 1, fg_memory_ratio = Finite 8106479329266893 53,
     fg_metrics_addr = ''0'', fg_metrics_cert = ([], ''tls.crt'', ''tls.key''),
     fg_webhook_cert = ([], ''tls.crt'', ''tls.key''), fg_leader_elect = False, fg_metrics_secure = True,
     fg_http2 = False\<rparr>"

definition requeue_delay_of :: "flags \<Rightarrow> int" where
  "requeue_delay_of f = wrap_int64 (fg_requeue_seconds f * 1000000000)"

text \<open>The options of a server: the protocols it offers (none listed: the library's own choice), the
  certificate it is given, and for the metrics server authentication and authorization of requests.\<close>

record server_options =
  so_protocols :: "string list"
  so_certificate :: "(string \<times> string \<times> string) option"
  so_secure :: bool
  so_authorized :: bool

definition protocols :: "flags \<Rightarrow> string list" where
  "protocols f = (if fg_http2 f then [] else [''http/1.1''])"

definition given_certificate :: "string \<times> string \<times> string \<Rightarrow> (string \<times> string \<times> string) option" where
  "given_certificate c = (if fst c \<noteq> [] then Some c else None)"

definition webhook_options :: "flags \<Rightarrow> server_options" where
  "webhook_options f = \<lparr>so_protocols = protocols f, so_certificate = given_certificate (fg_webhook_cert f),
     so_secure = True, so_authorized = False\<rparr>"

definition metrics_options :: "flags \<Rightarrow> server_options" where
  "metrics_options f = \<lparr>so_protocols = protocols f, so_certificate = given_certificate (fg_metrics_cert f),
     so_secure = fg_metrics_secure f, so_authorized = fg_metrics_secure f\<rparr>"

text \<open>The secrets the manager's cache holds: all but Helm's release history.\<close>

definition helm_release_type :: string where "helm_release_type = ''helm.sh/release.v1''"

definition cached_secret :: "string \<Rightarrow> bool" where
  "cached_secret secret_type \<longleftrightarrow> secret_type \<noteq> helm_release_type"

section \<open>The package validators\<close>

text \<open>A registry that cannot be used is replaced by the default registry, under the same secret.\<close>

type_synonym package_validator = "string \<Rightarrow> string \<Rightarrow> go_error option"

definition package_validator_factory :: "(string \<Rightarrow> secret option \<Rightarrow> go_error + package_validator) \<Rightarrow> string
    \<Rightarrow> string \<Rightarrow> secret option \<Rightarrow> go_error + package_validator" where
  "package_validator_factory new_registry default_registry registry secret =
     (case new_registry registry secret of
        Inr reg \<Rightarrow> Inr reg
      | Inl _ \<Rightarrow> new_registry default_registry secret)"

definition manager_npm :: "(string \<Rightarrow> secret option \<Rightarrow> go_error + package_validator) \<Rightarrow> string \<Rightarrow> obj_ref option \<Rightarrow> npm" where
  "manager_npm new_registry default_registry default_secret = \<lparr>npm_default_registry = default_registry,
     npm_default_secret = default_secret,
     npm_factory = (\<lambda>_. package_validator_factory new_registry default_registry)\<rparr>"

section \<open>Registrations\<close>

datatype setup_call =
    SetupWebhook string bool          \<comment> \<open>kind, and whether it has a defaulter; each has a validator\<close>
  | SetupIndex string                 \<comment> \<open>\<open>IndexField\<close> of a kind by the name of its host\<close>
  | SetupController string
  | HealthCheck string

datatype registrar = Referenced controller | HostR | HostExtensionR | PageR | FunctionR

text \<open>The reconcilers can be enumerated, so that a statement about all of them can be computed.\<close>

instantiation controller :: enum
begin

definition enum_controller :: "controller list" where
  "enum_controller = [AppC, ArchetypeC, FooterC, HeaderC, NavigationC, ScriptLibraryC, ThemeC, TranslationC, UtilityPageC]"

definition enum_all_controller :: "(controller \<Rightarrow> bool) \<Rightarrow> bool" where
  "enum_all_controller P \<longleftrightarrow> list_all P enum_class.enum"

definition enum_ex_controller :: "(controller \<Rightarrow> bool) \<Rightarrow> bool" where
  "enum_ex_controller P \<longleftrightarrow> list_ex P enum_class.enum"

instance
proof
  show univ: "(UNIV :: controller set) = set enum_class.enum"
    using controller.exhaust by (auto simp: enum_controller_def)
  show "distinct (enum_class.enum :: controller list)" by (simp add: enum_controller_def)
  show "enum_class.enum_all P \<longleftrightarrow> Ball (UNIV :: controller set) P" for P
    using univ by (auto simp: enum_all_controller_def list_all_iff)
  show "enum_class.enum_ex P \<longleftrightarrow> Bex (UNIV :: controller set) P" for P
    using univ by (auto simp: enum_ex_controller_def list_ex_iff)
qed

end

fun webhooks_of :: "registrar \<Rightarrow> setup_call list" where
  "webhooks_of (Referenced AppC) = [SetupWebhook ''KDexApp'' True, SetupWebhook ''KDexClusterApp'' True]"
| "webhooks_of (Referenced ArchetypeC) =
     [SetupWebhook ''KDexPageArchetype'' True, SetupWebhook ''KDexClusterPageArchetype'' True]"
| "webhooks_of (Referenced FooterC) = [SetupWebhook ''KDexPageFooter'' True, SetupWebhook ''KDexClusterPageFooter'' True]"
| "webhooks_of (Referenced HeaderC) = [SetupWebhook ''KDexPageHeader'' True, SetupWebhook ''KDexClusterPageHeader'' True]"
| "webhooks_of (Referenced NavigationC) =
     [SetupWebhook ''KDexPageNavigation'' True, SetupWebhook ''KDexClusterPageNavigation'' True]"
| "webhooks_of (Referenced ScriptLibraryC) =
     [SetupWebhook ''KDexScriptLibrary'' True, SetupWebhook ''KDexClusterScriptLibrary'' True]"
| "webhooks_of (Referenced ThemeC) = [SetupWebhook ''KDexTheme'' True, SetupWebhook ''KDexClusterTheme'' True]"
| "webhooks_of (Referenced TranslationC) =
     [SetupWebhook ''KDexTranslation'' False, SetupWebhook ''KDexClusterTranslation'' False]"
| "webhooks_of (Referenced UtilityPageC) =
     [SetupWebhook ''KDexUtilityPage'' True, SetupWebhook ''KDexClusterUtilityPage'' True]"
| "webhooks_of HostR = [SetupWebhook ''KDexHost'' True]"
| "webhooks_of HostExtensionR = []"
| "webhooks_of PageR = [SetupWebhook ''KDexPage'' True]"
| "webhooks_of FunctionR = [SetupWebhook ''KDexFunction'' True]"

fun controllers_of :: "registrar \<Rightarrow> setup_call list" where
  "controllers_of (Referenced AppC) = [SetupController ''kdexapp'']"
| "controllers_of (Referenced ArchetypeC) = [SetupController ''kdexpagearchetype'']"
| "controllers_of (Referenced FooterC) = [SetupController ''kdexpagefooter'']"
| "controllers_of (Referenced HeaderC) = [SetupController ''kdexpageheader'']"
| "controllers_of (Referenced NavigationC) = [SetupController ''kdexpagenavigation'']"
| "controllers_of (Referenced ScriptLibraryC) = [SetupController ''kdexscriptlibrary'']"
| "controllers_of (Referenced ThemeC) = [SetupController ''kdextheme'']"
| "controllers_of (Referenced TranslationC) = [SetupController ''kdextranslation'']"
| "controllers_of (Referenced UtilityPageC) = [SetupController ''kdexutilitypage'']"
| "controllers_of HostR =
     [SetupIndex ''KDexInternalTranslation'', SetupIndex ''KDexTranslation'', SetupIndex ''KDexHostExtension'',
      SetupIndex ''KDexInternalUtilityPage'', SetupController ''kdexhost'']"
| "controllers_of HostExtensionR = [SetupController ''kdexhostextension'']"
| "controllers_of PageR = []"
| "controllers_of FunctionR = []"

text \<open>\<open>SetupWithManager\<close>; the webhooks are only registered where \<open>ENABLE_WEBHOOKS\<close> is not \<open>false\<close>.\<close>

definition setup_of :: "string \<Rightarrow> registrar \<Rightarrow> setup_call list" where
  "setup_of enable_webhooks r = (if enable_webhooks \<noteq> ''false'' then webhooks_of r else []) @ controllers_of r"

definition registrars :: "registrar list" where
  "registrars = [Referenced AppC, HostR, HostExtensionR, Referenced ArchetypeC, Referenced HeaderC,
     Referenced FooterC, Referenced NavigationC, Referenced ScriptLibraryC, Referenced ThemeC,
     Referenced TranslationC, PageR, Referenced UtilityPageC, FunctionR]"

definition all_setup :: "string \<Rightarrow> setup_call list" where
  "all_setup enable_webhooks =
     concat (map (setup_of enable_webhooks) registrars) @ [HealthCheck ''healthz'', HealthCheck ''readyz'']"

text \<open>The calls in order, up to the first that fails. A call may depend on those made before.\<close>

fun run_setup :: "(setup_call list \<Rightarrow> setup_call \<Rightarrow> go_error option) \<Rightarrow> setup_call list \<Rightarrow> setup_call list
    \<Rightarrow> go_error option \<times> setup_call list" where
  "run_setup call made [] = (None, made)"
| "run_setup call made (c # cs) =
     (case call made c of
        Some err \<Rightarrow> (Some err, made @ [c])
      | None \<Rightarrow> run_setup call (made @ [c]) cs)"

section \<open>The process\<close>

record manager =
  mg_limit :: startup
  mg_requeue_delay :: int
  mg_concurrency :: int
  mg_webhooks :: server_options
  mg_metrics :: server_options
  mg_leader_elect :: bool
  mg_setup :: "setup_call list"

text \<open>The manager that is started, or none where the process ends before.\<close>

definition start_manager :: "int \<Rightarrow> cgroup_files \<Rightarrow> (string \<Rightarrow> string) \<Rightarrow> go_error option
    \<Rightarrow> (setup_call list \<Rightarrow> setup_call \<Rightarrow> go_error option) \<Rightarrow> flags \<Rightarrow> manager option" where
  "start_manager nan fs getenv new_manager call f =
     (let limit = startup_limit (configure nan fs (fg_memory_ratio f) (getenv ''GOMEMLIMIT''))
      in if limit = ExitProcess then None
         else case new_manager of
             Some err \<Rightarrow> None
           | None \<Rightarrow>
               (case run_setup call [] (all_setup (getenv ''ENABLE_WEBHOOKS'')) of
                  (Some err, made) \<Rightarrow> None
                | (None, made) \<Rightarrow> Some \<lparr>mg_limit = limit, mg_requeue_delay = requeue_delay_of f,
                    mg_concurrency = fg_helm_concurrency f, mg_webhooks = webhook_options f,
                    mg_metrics = metrics_options f, mg_leader_elect = fg_leader_elect f, mg_setup = made\<rparr>))"

section \<open>Facts\<close>

lemma run_setup_ok:
  "run_setup call made cs = (None, out) \<Longrightarrow> out = made @ cs \<and> (\<forall>pre c post. cs = pre @ c # post \<longrightarrow> call (made @ pre) c = None)"
proof (induction call made cs rule: run_setup.induct)
  case (2 call made c cs)
  then have c: "call made c = None" and rest: "run_setup call (made @ [c]) cs = (None, out)"
    by (auto split: option.splits)
  note IH = 2(1) [OF c rest]
  have "call (made @ pre) x = None" if "c # cs = pre @ x # post" for pre x post
    using that c IH by (cases pre) auto
  then show ?case using IH by auto
qed simp

text \<open>A setup that is not completed stops at the call that failed, and nothing after it is tried.\<close>

lemma run_setup_fails:
  "run_setup call made cs = (Some err, out) \<Longrightarrow> \<exists>pre c post. cs = pre @ c # post \<and> out = made @ pre @ [c] \<and> call (made @ pre) c = Some err"
proof (induction call made cs rule: run_setup.induct)
  case (2 call made c cs)
  show ?case
  proof (cases "call made c")
    case None
    then obtain pre x post where "cs = pre @ x # post" "out = (made @ [c]) @ pre @ [x]" "call ((made @ [c]) @ pre) x = Some err"
      using 2 by auto
    then show ?thesis by (intro exI [of _ "c # pre"]) auto
  next
    case (Some e)
    then show ?thesis using 2 by (intro exI [of _ "[]"]) auto
  qed
qed simp

lemma all_setup_cases: "all_setup e = all_setup (if e = ''false'' then ''false'' else ''true'')"
proof -
  have "setup_of e = setup_of ''true''" if "e \<noteq> ''false''" using that by (auto simp: setup_of_def)
  then show ?thesis by (simp add: all_setup_def)
qed

lemma all_setup_distinct: "distinct (all_setup e)"
proof -
  have "distinct (all_setup ''true'')" "distinct (all_setup ''false'')" by code_simp+
  then show ?thesis by (subst all_setup_cases) simp
qed

text \<open>The indexes by host are there before the controller that lists through them is.\<close>

lemma indexes_first:
  "\<exists>pre post. all_setup e = pre @ SetupController ''kdexhost'' # post
     \<and> map SetupIndex [''KDexInternalTranslation'', ''KDexTranslation'', ''KDexHostExtension'', ''KDexInternalUtilityPage'']
         = drop (length pre - 4) pre"
  unfolding all_setup_def registrars_def
  by (rule exI [of _ "setup_of e (Referenced AppC) @ (if e \<noteq> ''false'' then [SetupWebhook ''KDexHost'' True] else [])
        @ map SetupIndex [''KDexInternalTranslation'', ''KDexTranslation'', ''KDexHostExtension'', ''KDexInternalUtilityPage'']"])
    (simp add: setup_of_def)

lemma undefaulted_kinds:
  "SetupWebhook (type_name s) False \<in> set (all_setup e) \<Longrightarrow> default_registered name s = Inr s"
  by (subst (asm) all_setup_cases, cases s)
    (auto simp: all_setup_def registrars_def setup_of_def default_registered_def split: if_splits)

lemma registrars_complete: "r \<in> set registrars"
proof (cases r)
  case (Referenced c)
  have "\<forall>c. Referenced c \<in> set registrars" by code_simp
  then show ?thesis using Referenced by simp
qed (simp_all add: registrars_def)

lemma setup_complete: "c \<in> set (setup_of e r) \<Longrightarrow> c \<in> set (all_setup e)"
  using registrars_complete [of r] by (auto simp: all_setup_def)

lemma kinds_with_webhook:
  "e \<noteq> ''false'' \<Longrightarrow> (\<And>k. s \<noteq> OtherKind k) \<Longrightarrow> \<exists>d. SetupWebhook (type_name s) d \<in> set (all_setup e)"
  by (cases s) (auto simp: all_setup_def registrars_def setup_of_def)

text \<open>
  A registry that cannot be used goes unnoticed: the package is looked up in the default registry, with
  the secret meant for the other one, and that verdict is all the reconcilers see.
\<close>

lemma registry_fallback:
  assumes "pkg_registry p \<noteq> []" "new_registry (pkg_registry p) secret = Inl err"
  shows "validate_package_reference (manager_npm new_registry d ds) p secret w
    = validate_package_reference (manager_npm new_registry d ds) (p\<lparr>pkg_registry := []\<rparr>) secret w"
proof -
  have "package_validator_factory new_registry d (pkg_registry p) secret = package_validator_factory new_registry d d secret"
    using assms(2) by (simp add: package_validator_factory_def split: sum.split)
  then show ?thesis using assms(1)
    by (simp add: validate_package_reference_def manager_npm_def Let_def split: sum.split)
qed

lemma above_one: "gt_one r \<Longrightarrow> \<not> le_zero r"
proof (cases r)
  case (Finite m k)
  have "(0 :: int) < 2 ^ k" by simp
  moreover assume "gt_one r"
  ultimately have "0 < m" using Finite less_trans [of 0 "2 ^ k" m] by simp
  then show "\<not> le_zero r" using Finite by simp
qed simp_all

section \<open>Properties\<close>



end
