(* ===== verification/Spec2Isabelle.thy ===== *)
theory Spec2Isabelle
  imports HostReady FunctionSpec SelfFire RenderSlots HelmSystem Startup
begin

text \<open>
  A verification development of the nexus-manager, the Kubernetes operator of KDex. This theory only
  gathers the others; the definitions and the properties are in the theories named below.

  \<^bold>\<open>The program.\<close> The operator serves web hosts. A \<open>KDexHost\<close> refers to themes, script libraries, apps,
  pages, utility pages, translations and secrets; the host reconciler resolves these references,
  copies what the host serves into internal objects, and installs the host-manager chart and its
  companion charts with Helm, asynchronously. Nine smaller reconcilers keep the status of the
  referenced kinds. Admission webhooks default and validate every kind. The parts meet in the API
  server: a reconciler writes a status, a watch turns the change into requests, and the reconcilers of
  the referrers read the new status.

  \<^bold>\<open>The model.\<close> The operator is translated operation by operation. What it calls outside this repository
  is a field of a record that is an argument of the definitions: \<open>env\<close> (theory Kube) for the API
  server, the interface of the Helm client, conditions and the clock; \<open>npm\<close> (Reconcilers) for the npm
  registry; \<open>checks\<close> (Validators) for template rendering, message catalogs and the linter; \<open>sdk\<close>
  (HelmClient) for the Helm SDK. An answer may depend on the whole list of calls made before, so an
  environment covers stale caches, failures at any point and writes of others between two calls. The
  state of an operation is a \<open>world\<close>: the list of the calls it made, and the two maps the host
  reconciler keeps in memory. Errors are values of a sum or an option type; a \<open>(result, error)\<close> pair of
  Go is a pair. Objects are the record \<open>kobj\<close> over a metadata record, a spec and a status.

  \<^bold>\<open>The theories.\<close>
  \<^item> Prelude, Objects, Specs, Kube and Sample: Go's string and integer routines, the object model, the
    specs of the kinds, the environment, and the concrete objects of the witnesses.
  \<^item> Resolve (\<open>resolver_common.go\<close>): the resolvers of references, contents, navigations, secrets.
  \<^item> Translations (\<open>kdexhost_translations.go\<close> and the first half of \<open>kdexhost_controller_util.go\<close>),
    UtilityPages (its second half), Extensions (\<open>kdexhost_extensions.go\<close>,
    \<open>kdexhostextension_controller.go\<close>): the three families of objects a host publishes.
  \<^item> HelmOps and HelmRender (\<open>kdexhost_controller_helm.go\<close>): the table of active renders, the cache of
    clients, chart values, release hash and companions; when a render starts, what it does, how it
    ends. RenderSlots is the semaphore of \<open>acquireHelmRenderSlot\<close> under every interleaving.
  \<^item> HelmClient and ChartCache (\<open>internal/utils\<close>): the Helm client itself and the archive cache that
    all clients share, the latter under every interleaving. HelmSystem puts the two halves together:
    the environment of a render in which the Helm client gives the answers.
  \<^item> HostReconcile, HostLadder and HostReady (\<open>kdexhost_controller.go\<close>): \<open>Reconcile\<close> of a host, its
    teardown, its ladder of steps and the deferred status update.
  \<^item> Reconcilers (the nine other \<open>_controller.go\<close> files, \<open>validation.ValidatePackageReference\<close>), Watches
    (\<open>utils.go\<close> and the watch tables of \<open>SetupWithManager\<close>), SelfFire: the reconcilers of the referenced
    kinds, what a change enqueues, and the loop the two form.
  \<^item> Defaulters, Validators, FunctionSpec and Admission (\<open>internal/webhook\<close>, \<open>validation.go\<close>): the
    mutating and validating webhooks and what an admitted object can be relied on for.
  \<^item> MemLimit (\<open>internal/memlimit\<close>) and Startup (\<open>cmd/main.go\<close>, \<open>cache_options.go\<close>): the soft memory limit,
    and what is registered, configured and started, or ends the process.

  \<^bold>\<open>The interfaces.\<close> Contracts between parts are locales, each interpreted on the definitions that
  provide it: \<open>resolver\<close> for what every resolver promises its caller, \<open>reading_step\<close>, \<open>settling_step\<close> and
  \<open>settling_body\<close> for the bodies of the reconcilers, \<open>ladder_step\<close> for the steps of the host ladder,
  \<open>extension_policy\<close> for the selection that two reconcilers must agree on, \<open>operation_table\<close> for the
  active renders, \<open>release_manager\<close> for what a render expects of its Helm client, \<open>lookup_cache\<close> for the
  archive cache, \<open>defaulter\<close> for the mutating webhooks.

  \<^bold>\<open>What the lemmas show.\<close> Resolve says when a reference resolves and what it leaves in the conditions.
  The host theories say what is published and what is deleted, and that the two agree with what the
  status records. HelmOps and HelmRender say when a render starts, that it loads charts only under a
  slot, and what a recorded success means; HelmSystem carries this down to the actions of the Helm SDK.
  HostLadder and HostReady compose these steps: the finalizer
  goes last, and a Ready host has been settled. Reconcilers, Watches and SelfFire show that a
  reconciler only writes its own status, that a settled object is not written again, that changes of
  watched references reach their referrers, and where this fails. Admission shows what the webhooks
  establish for the reconcilers. Several properties state behaviour that its authors do not seem to
  have meant; their texts say so.

  \<^bold>\<open>Bounds and loops.\<close> Loops over lists are structural recursions. The self-firing loop of SelfFire may
  not end and is a \<open>partial_function (option)\<close>, whose value says whether it does. No definition needs
  fuel. \<open>int64\<close> counters wrap (Prelude, \<open>wrap_int64\<close>). A Go map that is iterated over is an association
  list in the order of one iteration; the properties hold for every order.

  \<^bold>\<open>Not modelled.\<close> Logging; the parsing of flags and of the configuration file, and the servers
  that \<open>cmd/main.go\<close> configures, which are libraries; the permission markers of \<open>rbac.go\<close>, which are comments;
  \<open>utils.Hash\<close> (a SHA-256 digest, a parameter here) and the two one-line helpers beside it; the two watches
  of the host on FaaS adaptors, kinds the operator does not use otherwise; generated manifests and
  charts; the test utilities.
\<close>

end
